(* ===== verification/Oddish_Prelude.thy ===== *)
theory Oddish_Prelude
  imports Main "HOL-Library.AList" "HOL-Library.Char_ord" "HOL-Library.List_Lexorder"
    "HOL-Library.Product_Lexorder"
begin

text \<open>
  What every component of the development shares.

  \<^item> Python's \<open>dict\<close> is an association list in insertion order: \<open>dict_get\<close> is
    \<open>d.get(k, default)\<close>, \<open>dict_set\<close> is \<open>d[k] = v\<close> (in place for a key that is
    there, at the end otherwise, as \<open>AList.update\<close> does).
  \<^item> Python's \<open>str\<close> is \<open>string\<close>; a character stands for a code point below 256.
    \<open>sorted\<close> on strings and tuples is \<open>sort\<close> in the lexicographic orders of the library.
  \<^item> \<open>str(int)\<close> is \<open>string_of_int\<close>, \<open>json.dumps\<close> of a string is \<open>json_string\<close>.
  \<^item> A raised exception is the left side of a sum; \<open>bind_err\<close> passes it on.
\<close>

named_theorems dict_simps "lookups in dictionaries after the operations on them"
named_theorems plan_simps "projections of the planner's state updates"
named_theorems table_simps "what the SQL statements do to the rows of a table"

text \<open>Keys are tuples; quantifiers over them stay as they are.\<close>

declare split_paired_All [simp del] split_paired_Ex [simp del]

subsection \<open>Dictionaries\<close>

type_synonym ('k, 'v) dict = "('k \<times> 'v) list"

definition dict_get :: "('k, 'v) dict \<Rightarrow> 'k \<Rightarrow> 'v \<Rightarrow> 'v" where
  "dict_get d k v = (case map_of d k of None \<Rightarrow> v | Some x \<Rightarrow> x)"

definition dict_has :: "('k, 'v) dict \<Rightarrow> 'k \<Rightarrow> bool" where
  "dict_has d k = (map_of d k \<noteq> None)"

definition dict_set :: "('k, 'v) dict \<Rightarrow> 'k \<Rightarrow> 'v \<Rightarrow> ('k, 'v) dict" where
  "dict_set d k v = AList.update k v d"

abbreviation dict_keys :: "('k, 'v) dict \<Rightarrow> 'k list" where
  "dict_keys d \<equiv> map fst d"

lemma dict_get_Nil [simp, dict_simps]: "dict_get [] k v = v"
  by (simp add: dict_get_def)

lemma dict_get_set [simp, dict_simps]:
  "dict_get (dict_set d k v) k' w = (if k = k' then v else dict_get d k' w)"
  by (simp add: dict_get_def dict_set_def update_conv')

lemma dict_has_set [simp, dict_simps]: "dict_has (dict_set d k v) k' = (k = k' \<or> dict_has d k')"
  by (simp add: dict_has_def dict_set_def update_conv')

lemma dict_has_Nil [simp, dict_simps]: "\<not> dict_has [] k"
  by (simp add: dict_has_def)

lemma map_of_dict_set [dict_simps]: "map_of (dict_set d k v) = (map_of d)(k \<mapsto> v)"
  by (simp add: dict_set_def update_conv')

lemma dict_has_keys: "dict_has d k = (k \<in> set (dict_keys d))"
  by (simp add: dict_has_def map_of_eq_None_iff)

lemma dict_get_missing: "\<not> dict_has d k \<Longrightarrow> dict_get d k v = v"
  by (simp add: dict_has_def dict_get_def)

lemma dict_get_default: "dict_has d k \<Longrightarrow> dict_get d k v = dict_get d k w"
  by (auto simp: dict_has_def dict_get_def)

lemma distinct_dict_set: "distinct (dict_keys d) \<Longrightarrow> distinct (dict_keys (dict_set d k v))"
  by (simp add: dict_set_def distinct_update)

lemma set_dict_keys_set: "set (dict_keys (dict_set d k v)) = insert k (set (dict_keys d))"
  by (auto simp: dict_set_def update_keys)

lemma dict_get_in: "distinct (dict_keys d) \<Longrightarrow> (k, v) \<in> set d \<Longrightarrow> dict_get d k w = v"
  by (simp add: dict_get_def)

lemma dict_has_in: "dict_has d k \<Longrightarrow> (k, dict_get d k w) \<in> set d"
  by (auto simp: dict_has_def dict_get_def map_of_SomeD)

lemma map_of_dict: "map_of d k = (if dict_has d k then Some (dict_get d k v) else None)"
  by (cases "map_of d k") (simp_all add: dict_has_def dict_get_def)

lemma dict_get_cong: "map_of d = map_of e \<Longrightarrow> dict_get d k v = dict_get e k v"
  by (simp add: dict_get_def)

text \<open>
  The loop \<open>for x, n in d.items(): acc[key(x)] = acc.get(key(x), 0) + n\<close>, which the code
  writes whenever it sums counts over variants or lanes, and \<open>collections.Counter\<close>.
\<close>

definition sum_by :: "('a \<Rightarrow> 'k) \<Rightarrow> ('a \<times> int) list \<Rightarrow> ('k, int) dict" where
  "sum_by f d = foldl (\<lambda>acc (x, n). dict_set acc (f x) (dict_get acc (f x) 0 + n)) [] d"

definition counter :: "'a list \<Rightarrow> ('a, int) dict" where
  "counter xs = sum_by id (map (\<lambda>x. (x, 1)) xs)"

lemma sum_by_foldl_get:
  "dict_get (foldl (\<lambda>acc (x, n). dict_set acc (f x) (dict_get acc (f x) 0 + n)) acc d) k 0
     = dict_get acc k 0 + sum_list (map snd (filter (\<lambda>(x, n). f x = k) d))"
  by (induction d arbitrary: acc) (auto simp: algebra_simps)

lemma sum_by_get [dict_simps]:
  "dict_get (sum_by f d) k 0 = sum_list (map snd (filter (\<lambda>(x, n). f x = k) d))"
  by (simp add: sum_by_def sum_by_foldl_get)

lemma counter_get [dict_simps]: "dict_get (counter xs) k 0 = int (count_list xs k)"
  by (induction xs) (auto simp: counter_def sum_by_get)

lemma sum_by_foldl_keys:
  "set (dict_keys (foldl (\<lambda>acc (x, n). dict_set acc (f x) (dict_get acc (f x) 0 + n)) acc d))
     = set (dict_keys acc) \<union> f ` fst ` set d"
proof (induction d arbitrary: acc)
  case Nil
  then show ?case by simp
next
  case (Cons p d)
  obtain x n where p: "p = (x, n)" by (cases p)
  show ?case
    unfolding p foldl_Cons split_conv Cons.IH set_dict_keys_set by auto
qed

lemma sum_by_keys: "set (dict_keys (sum_by f d)) = f ` fst ` set d"
  unfolding sum_by_def sum_by_foldl_keys by simp

lemma sum_by_foldl_distinct:
  "distinct (dict_keys acc) \<Longrightarrow>
   distinct (dict_keys (foldl (\<lambda>acc (x, n). dict_set acc (f x) (dict_get acc (f x) 0 + n)) acc d))"
  by (induction d arbitrary: acc) (auto intro!: distinct_dict_set)

lemma sum_by_distinct: "distinct (dict_keys (sum_by f d))"
  unfolding sum_by_def by (rule sum_by_foldl_distinct) simp

lemma counter_keys: "set (dict_keys (counter xs)) = set xs"
  unfolding counter_def sum_by_keys by (simp add: image_image)

subsection \<open>Exceptions\<close>

text \<open>
  The exceptions the code tells apart: cancellation of a task, which \<open>except Exception\<close>
  does not catch, errors of the operating system, and every other exception, with its text.
\<close>

datatype exc = CancelledError | OSError | OtherError string

fun is_Exception :: "exc \<Rightarrow> bool" where
  "is_Exception CancelledError = False"
| "is_Exception OSError = True"
| "is_Exception (OtherError m) = True"

definition bind_err :: "'e + 'a \<Rightarrow> ('a \<Rightarrow> 'e + 'b) \<Rightarrow> 'e + 'b" where
  "bind_err m f = (case m of Inl e \<Rightarrow> Inl e | Inr x \<Rightarrow> f x)"

lemma bind_err_simps [simp]: "bind_err (Inl e) f = Inl e" "bind_err (Inr x) f = f x"
  by (simp_all add: bind_err_def)

lemma bind_err_Inr: "bind_err m f = Inr y \<longleftrightarrow> (\<exists>x. m = Inr x \<and> f x = Inr y)"
  by (cases m) auto

subsection \<open>Counting\<close>

abbreviation count_by :: "('a \<Rightarrow> bool) \<Rightarrow> 'a list \<Rightarrow> int" where
  "count_by P xs \<equiv> int (length (filter P xs))"

lemma count_by_snoc: "count_by P (xs @ [x]) = count_by P xs + (if P x then 1 else 0)"
  by simp

lemma count_list_filter: "count_list xs x = length (filter (\<lambda>y. y = x) xs)"
  by (induction xs) auto

lemma count_list_map_filter: "count_list (map f xs) y = length (filter (\<lambda>x. f x = y) xs)"
  by (induction xs) auto

text \<open>\<open>xs.index(x)\<close>, for an element that is in the list.\<close>

fun list_index :: "'a list \<Rightarrow> 'a \<Rightarrow> nat" where
  "list_index [] y = 0"
| "list_index (x # xs) y = (if x = y then 0 else Suc (list_index xs y))"

lemma list_index_nth: "x \<in> set xs \<Longrightarrow> list_index xs x < length xs \<and> xs ! list_index xs x = x"
  by (induction xs) auto

lemma first_in: "(case xs of [] \<Rightarrow> None | y # _ \<Rightarrow> Some y) = Some x \<Longrightarrow> x \<in> set xs"
  by (cases xs) simp_all

lemma find_SomeD: "find P xs = Some x \<Longrightarrow> x \<in> set xs \<and> P x"
  by (induction xs) (auto split: if_splits)

subsection \<open>Trimming and lower case\<close>

text \<open>\<open>str.strip\<close> and \<open>str.lower\<close> on code points below 256.\<close>

definition is_space :: "char \<Rightarrow> bool" where
  "is_space c = ((of_char c :: nat) \<in> {9, 10, 11, 12, 13, 28, 29, 30, 31, 32, 133, 160})"

definition str_strip :: "string \<Rightarrow> string" where
  "str_strip s = rev (dropWhile is_space (rev (dropWhile is_space s)))"

definition lower_char :: "char \<Rightarrow> char" where
  "lower_char c = (let n = (of_char c :: nat) in
     if 65 \<le> n \<and> n \<le> 90 \<or> 192 \<le> n \<and> n \<le> 222 \<and> n \<noteq> 215 then char_of (n + 32) else c)"

definition str_lower :: "string \<Rightarrow> string" where
  "str_lower s = map lower_char s"

definition str_lower_strip :: "string \<Rightarrow> string" where
  "str_lower_strip s = str_lower (str_strip s)"

text \<open>\<open>startswith\<close> of a tuple, \<open>in\<close> on strings, \<open>replace\<close> of a character, and \<open>repr\<close> of a text without quotes or escapes.\<close>

definition starts_with :: "string list \<Rightarrow> string \<Rightarrow> bool" where
  "starts_with ps s \<longleftrightarrow> (\<exists>p \<in> set ps. take (length p) s = p)"

lemma starts_with_Cons [simp]: "starts_with (p # ps) s \<longleftrightarrow> take (length p) s = p \<or> starts_with ps s"
  and starts_with_Nil [simp]: "\<not> starts_with [] s"
  by (auto simp: starts_with_def)

lemma starts_with_append: "starts_with (ps @ qs) s \<longleftrightarrow> starts_with ps s \<or> starts_with qs s"
  by (auto simp: starts_with_def)

definition has_substring :: "string \<Rightarrow> string \<Rightarrow> bool" where
  "has_substring p s \<longleftrightarrow> list_ex (\<lambda>i. take (length p) (drop i s) = p) [0..<Suc (length s)]"

definition replace_char :: "char \<Rightarrow> char \<Rightarrow> string \<Rightarrow> string" where
  "replace_char a b s = map (\<lambda>c. if c = a then b else c) s"

definition repr_opt :: "string option \<Rightarrow> string" where
  "repr_opt s = (case s of None \<Rightarrow> ''None'' | Some x \<Rightarrow> [CHR 0x27] @ x @ [CHR 0x27])"

text \<open>\<open>s or None\<close>: an empty text counts as none.\<close>

definition truthy :: "string option \<Rightarrow> string option" where
  "truthy s = (case s of None \<Rightarrow> None | Some x \<Rightarrow> if x = [] then None else Some x)"

lemma truthy_simps [simp]: "truthy None = None" "truthy (Some x) = (if x = [] then None else Some x)"
  by (simp_all add: truthy_def)

text \<open>A condition on a value that may be missing.\<close>

definition some_with :: "('a \<Rightarrow> bool) \<Rightarrow> 'a option \<Rightarrow> bool" where
  "some_with P x = (case x of None \<Rightarrow> False | Some y \<Rightarrow> P y)"

lemma some_with_simps [simp]: "\<not> some_with P None" "some_with P (Some y) = P y"
  by (simp_all add: some_with_def)

lemma some_with_iff: "some_with P x \<longleftrightarrow> (\<exists>y. x = Some y \<and> P y)"
  by (cases x) simp_all

subsection \<open>Decimal text of integers\<close>

definition digit_char :: "nat \<Rightarrow> char" where
  "digit_char d = char_of (48 + d)"

fun string_of_nat :: "nat \<Rightarrow> string" where
  "string_of_nat n =
     (if n < 10 then [digit_char n] else string_of_nat (n div 10) @ [digit_char (n mod 10)])"

declare string_of_nat.simps [simp del]

definition string_of_int :: "int \<Rightarrow> string" where
  "string_of_int i = (if i < 0 then ''-'' @ string_of_nat (nat (- i)) else string_of_nat (nat i))"

lemma char_eq_code: "(c = d) = ((of_char c :: nat) = of_char d)"
  by (metis char_of_char)

lemma string_of_nat_digits: "\<forall>c \<in> set (string_of_nat n). c \<noteq> CHR ''-''"
proof (induction n rule: string_of_nat.induct)
  case (1 n)
  have "digit_char d \<noteq> CHR ''-''" if "d < 10" for d
    using that by (simp add: char_eq_code digit_char_def)
  with 1 show ?case by (subst string_of_nat.simps) auto
qed

text \<open>Reading the digits back shows that different numbers have different texts.\<close>

definition nat_of_digits :: "string \<Rightarrow> nat" where
  "nat_of_digits s = foldl (\<lambda>acc c. 10 * acc + (of_char c - 48)) 0 s"

lemma digit_char_val: "d < 10 \<Longrightarrow> of_char (digit_char d) - 48 = d"
  by (simp add: digit_char_def)

lemma nat_of_string_of_nat: "nat_of_digits (string_of_nat n) = n"
proof (induction n rule: string_of_nat.induct)
  case (1 n)
  show ?case
  proof (cases "n < 10")
    case True
    then show ?thesis
      by (subst string_of_nat.simps) (simp add: nat_of_digits_def digit_char_val)
  next
    case False
    with 1 have "nat_of_digits (string_of_nat (n div 10)) = n div 10" by simp
    with False show ?thesis
      by (subst string_of_nat.simps) (simp add: nat_of_digits_def digit_char_val)
  qed
qed

lemma string_of_nat_inject [simp]: "(string_of_nat a = string_of_nat b) = (a = b)"
  by (metis nat_of_string_of_nat)

text \<open>What follows the last hyphen of a text determines itself.\<close>

lemma hyphen_suffix:
  assumes "p @ ''-'' @ s = q @ ''-'' @ t" and "CHR ''-'' \<notin> set s" and "CHR ''-'' \<notin> set t"
  shows "p = q \<and> s = t"
  using assms
proof (induction p arbitrary: q)
  case Nil
  then show ?case by (cases q) auto
next
  case (Cons c p)
  then show ?case by (cases q) auto
qed

subsection \<open>JSON text of strings\<close>

text \<open>
  \<open>json.dumps\<close> with its default \<open>ensure_ascii\<close>: the quote and the backslash are escaped,
  the five short escapes are used where they exist, and every other character outside the
  range from the space to the tilde becomes \<open>\u00XX\<close> with lower-case hexadecimal digits.
\<close>

definition hex_char :: "nat \<Rightarrow> char" where
  "hex_char d = char_of (if d < 10 then 48 + d else 87 + d)"

definition hex_val :: "char \<Rightarrow> nat" where
  "hex_val c = (let n = of_char c in if n < 58 then n - 48 else n - 87)"

definition json_escape :: "char \<Rightarrow> string" where
  "json_escape c = (let n = (of_char c :: nat) in
     if n = 34 then [CHR 0x5C, CHR 0x22]
     else if n = 92 then [CHR 0x5C, CHR 0x5C]
     else if n = 8 then [CHR 0x5C, CHR ''b'']
     else if n = 9 then [CHR 0x5C, CHR ''t'']
     else if n = 10 then [CHR 0x5C, CHR ''n'']
     else if n = 12 then [CHR 0x5C, CHR ''f'']
     else if n = 13 then [CHR 0x5C, CHR ''r'']
     else if n < 32 \<or> 126 < n then
       [CHR 0x5C, CHR ''u'', CHR ''0'', CHR ''0'', hex_char (n div 16), hex_char (n mod 16)]
     else [c])"

definition json_body :: "string \<Rightarrow> string" where
  "json_body s = concat (map json_escape s)"

definition json_string :: "string \<Rightarrow> string" where
  "json_string s = CHR 0x22 # json_body s @ [CHR 0x22]"

text \<open>
  The reader that shows the encoding is unambiguous: it consumes the body up to the first
  quote that is not escaped and returns what follows.
\<close>

fun json_read :: "string \<Rightarrow> (string \<times> string) option" where
  "json_read [] = None"
| "json_read (c # cs) =
     (if c = CHR 0x22 then Some ([], cs)
      else if c = CHR 0x5C then
        (case cs of
           [] \<Rightarrow> None
         | e # r \<Rightarrow>
             (if e = CHR ''u'' then
                (case r of
                   a # b # x # y # r' \<Rightarrow>
                     map_option (apfst (Cons (char_of (16 * hex_val x + hex_val y)))) (json_read r')
                 | _ \<Rightarrow> None)
              else
                map_option (apfst (Cons
                  (if e = CHR ''b'' then CHR 0x08 else if e = CHR ''t'' then CHR 0x09
                   else if e = CHR ''n'' then CHR 0x0A else if e = CHR ''f'' then CHR 0x0C
                   else if e = CHR ''r'' then CHR 0x0D else e))) (json_read r)))
      else map_option (apfst (Cons c)) (json_read cs))"

lemma hex_val_char: "d < 16 \<Longrightarrow> hex_val (hex_char d) = d"
  by (auto simp: hex_val_def hex_char_def Let_def)

lemma json_read_special:
  assumes "c \<in> {CHR 0x22, CHR 0x5C, CHR 0x08, CHR 0x09, CHR 0x0A, CHR 0x0C, CHR 0x0D}"
  shows "json_read (json_escape c @ r) = map_option (apfst (Cons c)) (json_read r)"
  using assms by (elim insertE) (simp_all add: json_escape_def)

lemma json_read_escape:
  "json_read (json_escape c @ r) = map_option (apfst (Cons c)) (json_read r)"
proof (cases "c \<in> {CHR 0x22, CHR 0x5C, CHR 0x08, CHR 0x09, CHR 0x0A, CHR 0x0C, CHR 0x0D}")
  case True
  then show ?thesis by (rule json_read_special)
next
  case False
  define n :: nat where "n = of_char c"
  have n: "n < 256" unfolding n_def by simp
  from False have ne: "n \<noteq> 34" "n \<noteq> 92" "n \<noteq> 8" "n \<noteq> 9" "n \<noteq> 10" "n \<noteq> 12" "n \<noteq> 13"
    unfolding n_def by (auto simp: char_eq_code)
  from False have q: "c \<noteq> CHR 0x22" "c \<noteq> CHR 0x5C" by auto
  have h: "hex_val (hex_char (n div 16)) = n div 16" "hex_val (hex_char (n mod 16)) = n mod 16"
    using n by (auto intro!: hex_val_char)
  have d: "char_of (16 * (n div 16) + n mod 16) = c"
    by (simp add: n_def)
  have esc: "json_escape c = (if n < 32 \<or> 126 < n then
       [CHR 0x5C, CHR ''u'', CHR ''0'', CHR ''0'', hex_char (n div 16), hex_char (n mod 16)]
     else [c])"
    unfolding json_escape_def Let_def n_def [symmetric] using ne by simp
  show ?thesis
  proof (cases "n < 32 \<or> 126 < n")
    case True
    then show ?thesis unfolding esc using h d by simp
  next
    case False
    then show ?thesis unfolding esc using q by simp
  qed
qed

lemma json_read_body: "json_read (json_body s @ CHR 0x22 # r) = Some (s, r)"
  by (induction s) (auto simp: json_body_def json_read_escape)

text \<open>Two texts that start with the same JSON string agree on the string and on the rest.\<close>

lemma json_string_prefix_free:
  assumes "json_string s @ r = json_string t @ u"
  shows "s = t \<and> r = u"
proof -
  from assms have "json_body s @ CHR 0x22 # r = json_body t @ CHR 0x22 # u"
    by (simp add: json_string_def)
  then have "json_read (json_body s @ CHR 0x22 # r) = json_read (json_body t @ CHR 0x22 # u)"
    by simp
  then show ?thesis by (simp add: json_read_body)
qed

lemma json_string_inject [simp]: "(json_string s = json_string t) = (s = t)"
  using json_string_prefix_free [of s "[]" t "[]"] by auto

end
