(* ===== verification/Json_Text.thy ===== *)
theory Json_Text
  imports Oddish_Prelude "HOL-Library.Multiset"
begin

text \<open>
  JSON values and the text \<open>json.dumps(value, sort_keys=True, separators=(",", ":"))\<close> that the
  program hashes, as in \<open>_canonical_digest\<close> of \<open>core/idempotency.py\<close>. A number is its text: the
  decimal digits of an integer or the \<open>repr\<close> of a float.
\<close>

subsection \<open>Values and their text\<close>

datatype json =
    JNull
  | JBool bool
  | JNumber string
  | JString string
  | JList "json list"
  | JObject "(string \<times> json) list"

fun comma_join :: "string list \<Rightarrow> string" where
  "comma_join [] = []"
| "comma_join [x] = x"
| "comma_join (x # y # xs) = x @ CHR '','' # comma_join (y # xs)"

fun json_text :: "json \<Rightarrow> string" where
  "json_text JNull = ''null''"
| "json_text (JBool b) = (if b then ''true'' else ''false'')"
| "json_text (JNumber t) = t"
| "json_text (JString s) = json_string s"
| "json_text (JList xs) = CHR ''['' # comma_join (map json_text xs) @ '']''"
| "json_text (JObject kvs) =
     CHR ''{'' # comma_join (map (\<lambda>(k, v). json_string k @ CHR '':'' # json_text v) kvs) @ ''}''"

text \<open>With \<open>sort_keys\<close> the entries of every object are written in the order of their keys.\<close>

fun sort_json :: "json \<Rightarrow> json" where
  "sort_json (JList xs) = JList (map sort_json xs)"
| "sort_json (JObject kvs) = JObject (sort_key fst (map (\<lambda>(k, v). (k, sort_json v)) kvs))"
| "sort_json v = v"

definition canonical_text :: "json \<Rightarrow> string" where
  "canonical_text v = json_text (sort_json v)"

subsection \<open>The text is unambiguous\<close>

definition delimiters :: "char set" where
  "delimiters = {CHR '','', CHR '':'', CHR '']'', CHR ''}''}"

definition wf_number :: "string \<Rightarrow> bool" where
  "wf_number t \<longleftrightarrow> t \<noteq> [] \<and> (\<forall>c \<in> set t. c \<notin> delimiters) \<and>
     hd t \<notin> {CHR ''n'', CHR ''t'', CHR ''f'', CHR 0x22, CHR ''['', CHR ''{''}"

fun wf_json :: "json \<Rightarrow> bool" where
  "wf_json (JNumber t) = wf_number t"
| "wf_json (JList xs) = (\<forall>x \<in> set xs. wf_json x)"
| "wf_json (JObject kvs) = (\<forall>(k, v) \<in> set kvs. wf_json v)"
| "wf_json v = True"

definition ends :: "string \<Rightarrow> bool" where
  "ends r \<longleftrightarrow> (case r of [] \<Rightarrow> True | c # _ \<Rightarrow> c \<in> delimiters)"

lemma ends_simps [simp]: "ends []" "ends (c # r) \<longleftrightarrow> c \<in> delimiters"
  by (simp_all add: ends_def)

lemma delimiters_simps [simp]:
  "CHR '','' \<in> delimiters" "CHR '']'' \<in> delimiters" "CHR ''}'' \<in> delimiters"
  by (simp_all add: delimiters_def)

lemma comma_join_Cons: "comma_join (x # xs) = x @ (if xs = [] then [] else CHR '','' # comma_join xs)"
  by (cases xs) auto

lemma not_closed: "x \<noteq> [] \<Longrightarrow> hd x \<noteq> c \<Longrightarrow> c # r \<noteq> x @ w"
  by (cases x) auto

text \<open>Elements that can be told from what follows them can be told apart when joined.\<close>

lemma comma_join_cancel:
  assumes "\<And>x y r u. x \<in> set xs \<Longrightarrow> y \<in> set ys \<Longrightarrow> ends r \<Longrightarrow> ends u \<Longrightarrow> f x @ r = f y @ u \<Longrightarrow> x = y \<and> r = u"
    and "\<And>z. z \<in> set xs \<union> set ys \<Longrightarrow> f z \<noteq> [] \<and> hd (f z) \<noteq> close"
    and "close \<in> delimiters" and "close \<noteq> CHR '',''"
    and "comma_join (map f xs) @ close # r = comma_join (map f ys) @ close # u"
  shows "xs = ys \<and> r = u"
  using assms(1,2,5)
proof (induction xs arbitrary: ys)
  case Nil
  then show ?case using not_closed [where c = close] by (cases ys) (auto simp: comma_join_Cons)
next
  case (Cons x xs)
  show ?case
  proof (cases ys)
    case Nil
    with Cons.prems(2,3) not_closed [where c = close and x = "f x"] show ?thesis
      by (auto simp: comma_join_Cons dest: sym)
  next
    case ys: (Cons y ys')
    let ?rest = "\<lambda>zs w. (if zs = [] then [] else CHR '','' # comma_join (map f zs)) @ close # w"
    have "f x @ ?rest xs r = f y @ ?rest ys' u"
      using Cons.prems(3) by (simp add: ys comma_join_Cons)
    moreover have "ends (?rest zs w)" for zs w using assms(3) by simp
    ultimately have eq: "x = y" "?rest xs r = ?rest ys' u"
      using Cons.prems(1) [of x y "?rest xs r" "?rest ys' u"] by (simp_all add: ys)
    show ?thesis
    proof (cases "xs = [] \<or> ys' = []")
      case True
      with eq(2) assms(4) have "xs = [] \<and> ys' = [] \<and> r = u" by (auto split: if_splits)
      with eq(1) show ?thesis by (simp add: ys)
    next
      case False
      with eq(2) have "comma_join (map f xs) @ close # r = comma_join (map f ys') @ close # u" by simp
      then have "xs = ys' \<and> r = u"
        using Cons.prems(1,2) by (intro Cons.IH) (auto simp: ys)
      with eq(1) show ?thesis by (simp add: ys)
    qed
  qed
qed

lemma json_text_head:
  "wf_json v \<Longrightarrow> json_text v \<noteq> [] \<and> hd (json_text v) \<notin> delimiters"
  by (cases v) (auto simp: json_string_def wf_number_def delimiters_def)

lemma number_cancel:
  assumes "wf_number s" "wf_number t" "ends r" "ends u" "s @ r = t @ u"
  shows "s = t \<and> r = u"
proof -
  have split: "takeWhile (\<lambda>c. c \<notin> delimiters) (x @ w) = x" if "wf_number x" "ends w" for x w
    using that by (cases w) (auto simp: wf_number_def takeWhile_append takeWhile_eq_all_conv)
  from assms split [of s r] split [of t u] have "s = t" by metis
  with assms(5) show ?thesis by simp
qed

abbreviation entry_text :: "string \<times> json \<Rightarrow> string" where
  "entry_text \<equiv> \<lambda>(k, v). json_string k @ CHR '':'' # json_text v"

lemma json_text_cancel:
  "wf_json v \<Longrightarrow> wf_json w \<Longrightarrow> ends r \<Longrightarrow> ends u \<Longrightarrow> json_text v @ r = json_text w @ u \<Longrightarrow> v = w \<and> r = u"
proof (induction v arbitrary: w r u)
  case JNull
  then show ?case by (cases w) (auto simp: json_string_def wf_number_def neq_Nil_conv split: if_splits)
next
  case (JBool b)
  then show ?case by (cases w) (auto simp: json_string_def wf_number_def neq_Nil_conv split: if_splits)
next
  case (JNumber t)
  show ?case
  proof (cases w)
    case (JNumber t')
    with JNumber.prems number_cancel [of t t' r u] show ?thesis by simp
  qed (use JNumber.prems in \<open>auto simp: json_string_def wf_number_def neq_Nil_conv split: if_splits\<close>)
next
  case (JString s)
  show ?case
  proof (cases w)
    case (JString s')
    with JString.prems json_string_prefix_free [of s r s' u] show ?thesis by simp
  qed (use JString.prems in \<open>auto simp: json_string_def wf_number_def neq_Nil_conv split: if_splits\<close>)
next
  case (JList xs)
  show ?case
  proof (cases w)
    case w: (JList ys)
    from JList.prems(5) have joined: "comma_join (map json_text xs) @ CHR '']'' # r = comma_join (map json_text ys) @ CHR '']'' # u"
      by (simp add: w)
    have elem: "x = y \<and> a = b" if "x \<in> set xs" "y \<in> set ys" "ends a" "ends b" "json_text x @ a = json_text y @ b" for x y a b
      using JList.IH [OF that(1) _ _ that(3,4,5)] JList.prems(1,2) that(1,2) by (simp add: w)
    have head: "json_text x \<noteq> [] \<and> hd (json_text x) \<noteq> CHR '']''" if "x \<in> set xs \<union> set ys" for x
      using that JList.prems(1,2) json_text_head [of x] by (auto simp: w delimiters_def)
    have "xs = ys \<and> r = u"
      by (rule comma_join_cancel [OF _ _ _ _ joined]) (fact elem, fact head, simp_all)
    then show ?thesis by (simp add: w)
  qed (use JList.prems in \<open>auto simp: json_string_def wf_number_def neq_Nil_conv split: if_splits\<close>)
next
  case (JObject kvs)
  show ?case
  proof (cases w)
    case w: (JObject kvs')
    from JObject.prems(5) have joined: "comma_join (map entry_text kvs) @ CHR ''}'' # r = comma_join (map entry_text kvs') @ CHR ''}'' # u"
      by (simp add: w)
    have entry: "x = y \<and> a = b" if "x \<in> set kvs" "y \<in> set kvs'" "ends a" "ends b"
      and "entry_text x @ a = entry_text y @ b" for x y a b
    proof -
      obtain k v l z where x: "x = (k, v)" and y: "y = (l, z)" by (cases x, cases y)
      from that(5) have "json_string k @ CHR '':'' # json_text v @ a = json_string l @ CHR '':'' # json_text z @ b"
        by (simp add: x y)
      with json_string_prefix_free have k: "k = l" and "json_text v @ a = json_text z @ b" by blast+
      moreover have "wf_json v" "wf_json z" using that(1,2) JObject.prems(1,2) by (auto simp: x y w)
      ultimately have "v = z \<and> a = b" using JObject.IH [of x v z a b] that(1,3,4) by (simp add: x)
      with k show ?thesis by (simp add: x y)
    qed
    have head: "entry_text x \<noteq> [] \<and> hd (entry_text x) \<noteq> CHR ''}''" for x
      by (cases x) (simp add: json_string_def)
    have "kvs = kvs' \<and> r = u"
      by (rule comma_join_cancel [OF _ _ _ _ joined]) (fact entry, rule head, simp_all)
    then show ?thesis by (simp add: w)
  qed (use JObject.prems in \<open>auto simp: json_string_def wf_number_def neq_Nil_conv split: if_splits\<close>)
qed

lemma json_text_inject: "wf_json v \<Longrightarrow> wf_json w \<Longrightarrow> json_text v = json_text w \<longleftrightarrow> v = w"
  using json_text_cancel [of v w "[]" "[]"] by auto

subsection \<open>Sorted values\<close>

lemma wf_sort_json: "wf_json (sort_json v) = wf_json v"
  by (induction v) (auto simp: split_beta)

lemma canonical_text_inject:
  "wf_json v \<Longrightarrow> wf_json w \<Longrightarrow> canonical_text v = canonical_text w \<longleftrightarrow> sort_json v = sort_json w"
  unfolding canonical_text_def by (rule json_text_inject) (simp_all add: wf_sort_json)

lemma sorted_map_eq:
  assumes "distinct (map fst xs)" "distinct (map fst ys)"
  shows "sort_key fst xs = sort_key fst ys \<longleftrightarrow> map_of xs = map_of (ys :: ('k :: linorder \<times> 'v) list)"
proof
  assume "sort_key fst xs = sort_key fst ys"
  then have "set xs = set ys" by (metis set_sort)
  with assms show "map_of xs = map_of ys" by (metis map_of_inject_set)
next
  assume "map_of xs = map_of ys"
  with assms have same: "set xs = set ys" by (metis map_of_inject_set)
  then have "inj_on fst (set (sort_key fst xs) \<union> set (sort_key fst ys))"
    using assms(1) by (simp add: distinct_map)
  then show "sort_key fst xs = sort_key fst ys"
    using assms same by (rule_tac map_sorted_distinct_set_unique) (simp_all add: distinct_map)
qed

end
