(* ===== verification/Py_Float.thy ===== *)
theory Py_Float
  imports Oddish_Prelude Complex_Main
begin

text \<open>
  Python's \<open>float\<close>: IEEE double precision, the text \<open>repr\<close> and \<open>json.dumps\<close> write for a value, and
  the number a JSON literal denotes. A value is the rational it stands for, so a zero has no
  sign; \<open>double_of\<close> rounds to the nearest double, ties to even.
\<close>

text \<open>A float column: \<open>double precision\<close> holds infinities and not-a-number, too.\<close>

datatype py_float = Finite rat | Infinite bool | Not_a_number

fun float_positive :: "py_float \<Rightarrow> bool" where
  "float_positive (Finite q) = (0 < q)"
| "float_positive (Infinite positive) = positive"
| "float_positive Not_a_number = False"

definition float_zero :: "py_float \<Rightarrow> bool" where
  "float_zero x \<longleftrightarrow> x = Finite 0"

subsection \<open>Rounding\<close>

definition round_half_even :: "rat \<Rightarrow> int" where
  "round_half_even x =
     (let f = \<lfloor>x\<rfloor>; r = x - of_int f in
      if r < 1 / 2 then f else if 1 / 2 < r then f + 1 else if even f then f else f + 1)"

definition int_power :: "int \<Rightarrow> int \<Rightarrow> rat" where
  "int_power b e = (if 0 \<le> e then of_int (b ^ nat e) else 1 / of_int (b ^ nat (- e)))"

function digit_count :: "int \<Rightarrow> int \<Rightarrow> int" where
  "digit_count b n = (if n < b \<or> b < 2 then 1 else 1 + digit_count b (n div b))"
  by auto

termination
proof (relation "measure (\<lambda>(b, n). nat n)")
  fix b n :: int
  assume "\<not> (n < b \<or> b < 2)"
  then have "0 < n" "n div b < n" by (simp_all add: int_div_less_self)
  then show "((b, n div b), (b, n)) \<in> measure (\<lambda>(b, n). nat n)" by simp
qed simp

declare digit_count.simps [simp del]

text \<open>The largest \<open>e\<close> with \<open>b ^ e \<le> x\<close>, for a positive \<open>x\<close>.\<close>

definition exponent_of :: "int \<Rightarrow> rat \<Rightarrow> int" where
  "exponent_of b x =
     (let (n, d) = quotient_of x;
          e = digit_count b n - digit_count b d
      in if int_power b e \<le> x then e else e - 1)"

definition double_of :: "rat \<Rightarrow> py_float" where
  "double_of x =
     (if x = 0 then Finite 0
      else let e = max (exponent_of 2 \<bar>x\<bar> - 52) (-1074);
               m = round_half_even (\<bar>x\<bar> / int_power 2 e);
               v = of_int m * int_power 2 e
           in if 971 < e \<or> e = 971 \<and> m = 2 ^ 53 then Infinite (0 < x)
              else Finite (if x < 0 then - v else v))"

subsection \<open>The text of a float\<close>

text \<open>The \<open>n\<close>-digit decimal \<open>m * 10 ^ (e - n + 1)\<close> next to \<open>x\<close> that reads back as \<open>x\<close>.\<close>

definition digits_at :: "rat \<Rightarrow> int \<Rightarrow> nat \<Rightarrow> (int \<times> int) option" where
  "digits_at x e n =
     (let p = int_power 10 (e - int n + 1); f = \<lfloor>x / p\<rfloor>; near = round_half_even (x / p);
          reads = (\<lambda>m. double_of (of_int m * p) = Finite x)
      in if reads near then Some (near, e - int n + 1)
         else map_option (\<lambda>m. (m, e - int n + 1)) (find reads [f, f + 1]))"

definition shortest_digits :: "rat \<Rightarrow> int \<times> int" where
  "shortest_digits x =
     (let e = exponent_of 10 x in
      case List.map_filter (digits_at x e) [1..<18] of
        d # _ \<Rightarrow> d | [] \<Rightarrow> (round_half_even (x / int_power 10 (e - 16)), e - 16))"

function digits_text :: "int \<Rightarrow> string" where
  "digits_text n = (if n < 10 then [digit_char (nat n)] else digits_text (n div 10) @ [digit_char (nat (n mod 10))])"
  by auto

termination by (relation "measure nat") (auto simp: int_div_less_self)

declare digits_text.simps [simp del]

definition strip_zeros :: "string \<Rightarrow> string" where
  "strip_zeros s = rev (dropWhile (\<lambda>c. c = CHR ''0'') (rev s))"

definition zeros :: "int \<Rightarrow> string" where
  "zeros n = replicate (nat n) CHR ''0''"

text \<open>A positive value: plain notation from 1e-4 up to below 1e16, with an exponent outside.\<close>

definition positive_text :: "rat \<Rightarrow> string" where
  "positive_text x =
     (let (m, p) = shortest_digits x; all = digits_text m; ds = strip_zeros all;
          point = int (length all) + p; ex = point - 1
      in if -4 \<le> ex \<and> ex < 16 then
           (if point \<le> 0 then ''0.'' @ zeros (- point) @ ds
            else if int (length ds) \<le> point then ds @ zeros (point - int (length ds)) @ ''.0''
            else take (nat point) ds @ ''.'' @ drop (nat point) ds)
         else hd ds # (if tl ds = [] then [] else CHR ''.'' # tl ds) @
           (if ex < 0 then ''e-'' else ''e+'') @ (if \<bar>ex\<bar> < 10 then ''0'' else []) @ digits_text \<bar>ex\<bar>)"

definition float_text :: "py_float \<Rightarrow> string" where
  "float_text f =
     (case f of
        Finite x \<Rightarrow> if x = 0 then ''0.0'' else if x < 0 then CHR ''-'' # positive_text (- x) else positive_text x
      | Infinite positive \<Rightarrow> if positive then ''Infinity'' else ''-Infinity''
      | Not_a_number \<Rightarrow> ''NaN'')"

subsection \<open>The number of a literal\<close>

definition signed :: "string \<Rightarrow> bool \<times> string" where
  "signed s = (case s of c # r \<Rightarrow> if c = CHR ''-'' then (True, r) else if c = CHR ''+'' then (False, r) else (False, s)
     | [] \<Rightarrow> (False, s))"

definition digits_value :: "string \<Rightarrow> int" where
  "digits_value s = foldl (\<lambda>acc c. 10 * acc + (of_char c - 48)) 0 s"

definition int_of_digits :: "string \<Rightarrow> int" where
  "int_of_digits s = (let (neg, r) = signed s in if neg then - digits_value r else digits_value r)"

definition is_integer_literal :: "string \<Rightarrow> bool" where
  "is_integer_literal t \<longleftrightarrow>
     (let r = snd (signed t) in r \<noteq> [] \<and> list_all (\<lambda>c. c \<in> set ''0123456789'') r)"

definition decimal_value :: "string \<Rightarrow> rat" where
  "decimal_value s =
     (let (neg, r) = signed s;
          mantissa = takeWhile (\<lambda>c. c \<notin> set ''eE'') r;
          ex = int_of_digits (drop (Suc (length mantissa)) r);
          whole = takeWhile (\<lambda>c. c \<noteq> CHR ''.'') mantissa;
          fraction = drop (Suc (length whole)) mantissa;
          v = of_int (digits_value (whole @ fraction)) * int_power 10 (ex - int (length fraction))
      in if neg then - v else v)"

text \<open>An integer literal is exact, a decimal one is rounded to a double.\<close>

definition number_value :: "string \<Rightarrow> py_float" where
  "number_value t =
     (if t = ''NaN'' then Not_a_number
      else if t = ''Infinity'' then Infinite True
      else if t = ''-Infinity'' then Infinite False
      else if is_integer_literal t then Finite (of_int (int_of_digits t))
      else double_of (decimal_value t))"

end
