(* ===== verification/Db_Tables.thy ===== *)
theory Db_Tables
  imports Json_Text Py_Float
begin

text \<open>
  SQL statements on tables. A table is the list of its rows; \<open>UPDATE .. WHERE\<close> is
  \<open>update_where\<close>, \<open>INSERT .. ON CONFLICT DO NOTHING\<close> is \<open>insert_missing\<close>, and the claim
  idiom \<open>UPDATE .. FROM (SELECT .. ORDER BY .. LIMIT 1 FOR UPDATE SKIP LOCKED)\<close> is
  \<open>claim_first\<close>. Instants are integers, microseconds on the database's clock as Postgres and
  \<open>datetime\<close> count them; \<open>NOW()\<close>, which is constant within a transaction, is an argument. A row that another transaction has locked is
  skipped: the set of these rows is an argument too.
\<close>

subsection \<open>Statements\<close>

definition update_where :: "('r \<Rightarrow> bool) \<Rightarrow> ('r \<Rightarrow> 'r) \<Rightarrow> 'r list \<Rightarrow> 'r list" where
  "update_where P f t = map (\<lambda>r. if P r then f r else r) t"

definition insert_missing :: "('r \<Rightarrow> 'k) \<Rightarrow> 'r list \<Rightarrow> 'r list \<Rightarrow> 'r list" where
  "insert_missing key rows t = t @ filter (\<lambda>r. key r \<notin> key ` set t) rows"

definition claim_first ::
  "('r \<Rightarrow> 'k) \<Rightarrow> ('r \<Rightarrow> 'o :: linorder) \<Rightarrow> ('r \<Rightarrow> bool) \<Rightarrow> ('r \<Rightarrow> 'r) \<Rightarrow> 'r list \<Rightarrow>
   'r list \<times> 'r option" where
  "claim_first key ord P f t =
     (case sort_key ord (filter P t) of
        [] \<Rightarrow> (t, None)
      | r # _ \<Rightarrow> (update_where (\<lambda>x. key x = key r) f t, Some r))"

text \<open>\<open>make_interval(secs => n)\<close> for a whole number of seconds.\<close>

definition make_interval :: "int \<Rightarrow> int" where
  "make_interval n = 1000000 * n"

text \<open>An update that the code requires to hit exactly one row (\<open>_updated_one\<close>).\<close>

definition update_one :: "'e \<Rightarrow> ('r \<Rightarrow> bool) \<Rightarrow> ('r \<Rightarrow> 'r) \<Rightarrow> 'r list \<Rightarrow> 'e + 'r list" where
  "update_one e P f t = (if length (filter P t) = 1 then Inr (update_where P f t) else Inl e)"

subsection \<open>Lemmas\<close>

lemma make_interval_pos [simp]: "0 < make_interval n \<longleftrightarrow> 0 < n"
  by (simp add: make_interval_def)

lemma update_where_Nil [simp]: "update_where P f [] = []"
  by (simp add: update_where_def)

lemma update_where_Cons [simp]:
  "update_where P f (r # t) = (if P r then f r else r) # update_where P f t"
  by (simp add: update_where_def)

lemma update_where_append [simp]:
  "update_where P f (s @ t) = update_where P f s @ update_where P f t"
  by (simp add: update_where_def)

lemma length_update_where [simp]: "length (update_where P f t) = length t"
  by (simp add: update_where_def)

lemma update_where_none [simp]: "(\<And>r. r \<in> set t \<Longrightarrow> \<not> P r) \<Longrightarrow> update_where P f t = t"
  by (induction t) auto

lemma update_where_map [table_simps]:
  "(\<And>r. key (f r) = key r) \<Longrightarrow> map key (update_where P f t) = map key t"
  by (induction t) auto

lemma in_update_where:
  "r \<in> set (update_where P f t) \<longleftrightarrow> (\<exists>s \<in> set t. r = (if P s then f s else s))"
  by (auto simp: update_where_def)

lemma update_where_untouched: "r \<in> set t \<Longrightarrow> \<not> P r \<Longrightarrow> r \<in> set (update_where P f t)"
  by (auto simp: in_update_where)

lemma update_where_all:
  "(\<And>r. r \<in> set t \<Longrightarrow> Q r) \<Longrightarrow> (\<And>r. r \<in> set t \<Longrightarrow> Q r \<Longrightarrow> P r \<Longrightarrow> Q (f r)) \<Longrightarrow>
     r \<in> set (update_where P f t) \<Longrightarrow> Q r"
  by (auto simp: in_update_where)

text \<open>What an update establishes of every row it addresses.\<close>

lemma update_where_hit: "r \<in> set (update_where P f t) \<Longrightarrow> P r \<Longrightarrow> (\<And>s. Q (f s)) \<Longrightarrow> Q r"
  by (induction t) (auto split: if_splits)

lemma update_where_idem:
  "(\<And>r. P r \<Longrightarrow> P (f r) \<and> f (f r) = f r) \<Longrightarrow> update_where P f (update_where P f t) = update_where P f t"
  by (induction t) auto

lemma find_update_where:
  "(\<And>r. P r \<Longrightarrow> P (f r)) \<Longrightarrow> find P (update_where P f t) = map_option f (find P t)"
  by (induction t) auto

text \<open>An update that makes no row satisfy \<open>Q\<close> that did not, and the other way round.\<close>

lemma count_update_where_le:
  assumes "\<And>r. r \<in> set t \<Longrightarrow> P r \<Longrightarrow> Q (f r) \<Longrightarrow> Q r"
  shows "length (filter Q (update_where P f t)) \<le> length (filter Q t)"
  using assms by (induction t) (auto simp: le_SucI)

lemma count_update_where_eq:
  assumes "\<And>r. r \<in> set t \<Longrightarrow> P r \<Longrightarrow> Q (f r) = Q r"
  shows "length (filter Q (update_where P f t)) = length (filter Q t)"
  using assms by (induction t) auto

text \<open>An update of at most one row, by a key.\<close>

lemma split_by_key:
  assumes "distinct (map key t)" and "r \<in> set t"
  obtains xs ys where "t = xs @ r # ys" and "\<forall>x \<in> set xs \<union> set ys. key x \<noteq> key r"
proof -
  from assms(2) obtain xs ys where t: "t = xs @ r # ys" by (auto dest: split_list)
  have "key x \<noteq> key r" if "x \<in> set xs \<union> set ys" for x
  proof
    assume "key x = key r"
    then have "key r \<in> key ` (set xs \<union> set ys)" using that by (metis image_eqI)
    with assms(1) show False unfolding t by auto
  qed
  then have "\<forall>x \<in> set xs \<union> set ys. key x \<noteq> key r" by blast
  with t show thesis by (rule that)
qed

lemma count_update_key_le:
  assumes "distinct (map key t)"
  shows "length (filter Q (update_where (\<lambda>x. key x = k) f t)) \<le> Suc (length (filter Q t))"
proof (cases "\<exists>r \<in> set t. key r = k")
  case True
  then obtain r where r: "r \<in> set t" "key r = k" by blast
  obtain xs ys where t: "t = xs @ r # ys" and o: "\<forall>x \<in> set xs \<union> set ys. key x \<noteq> key r"
    by (rule split_by_key [OF assms r(1)])
  then have "update_where (\<lambda>x. key x = k) f xs = xs" "update_where (\<lambda>x. key x = k) f ys = ys"
    using r(2) by simp_all
  then show ?thesis unfolding t using r(2) by simp
next
  case False
  then have "update_where (\<lambda>x. key x = k) f t = t" by simp
  then show ?thesis by simp
qed

lemma find_split: "(\<And>x. x \<in> set xs \<Longrightarrow> \<not> P x) \<Longrightarrow> P r \<Longrightarrow> find P (xs @ r # ys) = Some r"
  by (induction xs) auto

lemma insert_missing_rows: "set t \<subseteq> set (insert_missing key rows t)"
  by (auto simp: insert_missing_def)

lemma insert_missing_distinct:
  "distinct (map key t) \<Longrightarrow> distinct (map key rows) \<Longrightarrow> distinct (map key (insert_missing key rows t))"
  unfolding insert_missing_def by (auto simp: distinct_map_filter image_iff)

lemma insert_missing_count:
  "(\<And>r. r \<in> set rows \<Longrightarrow> \<not> Q r) \<Longrightarrow>
     length (filter Q (insert_missing key rows t)) = length (filter Q t)"
  by (auto simp: insert_missing_def filter_empty_conv)

text \<open>What a claim does: nothing, or it updates exactly the row it returns.\<close>

lemma claim_first_None:
  "claim_first key ord P f t = (t', None) \<longleftrightarrow> t' = t \<and> (\<forall>r \<in> set t. \<not> P r)"
proof -
  have "sort_key ord (filter P t) = [] \<longleftrightarrow> (\<forall>r \<in> set t. \<not> P r)"
    by (metis filter_empty_conv set_empty set_sort)
  then show ?thesis by (auto simp: claim_first_def split: list.splits)
qed

lemma claim_first_Some:
  assumes "claim_first key ord P f t = (t', Some r)"
  shows "r \<in> set t" and "P r" and "t' = update_where (\<lambda>x. key x = key r) f t"
    and "\<And>x. x \<in> set t \<Longrightarrow> P x \<Longrightarrow> ord r \<le> ord x"
proof -
  from assms obtain rs where s: "sort_key ord (filter P t) = r # rs"
    and t: "t' = update_where (\<lambda>x. key x = key r) f t"
    by (auto simp: claim_first_def split: list.splits)
  have "set (r # rs) = set (filter P t)" unfolding s [symmetric] by simp
  then show "r \<in> set t" "P r" by auto
  show "t' = update_where (\<lambda>x. key x = key r) f t" by (rule t)
  fix x
  assume "x \<in> set t" "P x"
  then have "x \<in> set (r # rs)" unfolding s [symmetric] by simp
  moreover have "sorted (map ord (r # rs))" unfolding s [symmetric] by simp
  ultimately show "ord r \<le> ord x" by auto
qed

lemma claim_first_split:
  assumes "claim_first key ord P f t = (t', Some r)" and "distinct (map key t)"
  obtains xs ys where "t = xs @ r # ys" and "t' = xs @ f r # ys" and "P r"
    and "\<forall>x \<in> set xs \<union> set ys. key x \<noteq> key r"
proof -
  note c = claim_first_Some [OF assms(1)]
  obtain xs ys where t: "t = xs @ r # ys" and o: "\<forall>x \<in> set xs \<union> set ys. key x \<noteq> key r"
    by (rule split_by_key [OF assms(2) c(1)])
  then have "update_where (\<lambda>x. key x = key r) f xs = xs" "update_where (\<lambda>x. key x = key r) f ys = ys"
    by simp_all
  with c(2,3) t o show thesis by (intro that [of xs ys]) auto
qed

lemma claim_first_keys:
  assumes "claim_first key ord P f t = (t', res)" and "\<And>r. key (f r) = key r"
  shows "map key t' = map key t"
  using assms update_where_map [where key = key and f = f]
  by (auto simp: claim_first_def split: list.splits)

subsection \<open>Rows\<close>

text \<open>The tables of the queue, with the columns that scheduling reads or writes.\<close>

datatype worker_job_kind = Kind_trial | Kind_qa | Kind_verdict | Kind_analysis | Kind_qa_review
  | Kind_task_expand | Kind_tag_project | Kind_analyzer | Kind_analyzer_block

definition ACTIVE_WORKER_JOB_KINDS :: "worker_job_kind list" where
  "ACTIVE_WORKER_JOB_KINDS = [Kind_trial, Kind_task_expand, Kind_tag_project]"

datatype worker_job_status = QUEUED | RUNNING | RETRYING | SUCCESS | FAILED | CANCELLED | BLOCKED

record worker_job =
  wj_id :: string
  wj_kind :: worker_job_kind
  wj_status :: worker_job_status
  wj_harbor_variant_id :: string
  wj_execution_lane :: string
  wj_queue_key :: string
  wj_priority :: int
  wj_subject_table :: "string option"
  wj_subject_id :: "string option"
  wj_parent_job_id :: "string option"
  wj_payload :: "(string, string) dict"
  wj_attempts :: int
  wj_max_attempts :: int
  wj_next_retry_at :: "int option"
  wj_available_after :: int
  wj_current_worker_id :: "string option"
  wj_current_queue_slot :: "int option"
  wj_modal_function_call_id :: "string option"
  wj_claimed_at :: "int option"
  wj_heartbeat_at :: "int option"
  wj_stale_reaped_at :: "int option"
  wj_heartbeat_failure_count :: int
  wj_last_heartbeat_error :: "string option"
  wj_last_heartbeat_error_at :: "int option"
  wj_error_message :: "string option"
  wj_result_summary :: "string option"
  wj_started_at :: "int option"
  wj_finished_at :: "int option"
  wj_created_at :: int
  wj_org_id :: "string option"
  wj_provider :: "string option"
  wj_external_id :: "string option"
  wj_reroute_from_environment :: "string option"
  wj_reroute_reason :: "string option"
  wj_reroute_pending_teardown :: bool
  wj_spawned_at :: "int option"
  wj_admission_reason :: "string option"
  wj_sandbox_creating_at :: "int option"
  wj_deleted_at :: "int option"

datatype sandbox_run_state = PROVISIONING | Run_running | TERMINATING | TERMINATED | Run_failed

record sandbox_run =
  sr_id :: string
  sr_worker_job_id :: string
  sr_worker_job_attempt :: int
  sr_trial_id :: string
  sr_provider :: string
  sr_deployment :: string
  sr_aws_account_id :: string
  sr_region :: string
  sr_state :: sandbox_run_state
  sr_launch_token :: string
  sr_external_id :: "string option"
  sr_provisioned_at :: "int option"
  sr_termination_requested_at :: "int option"
  sr_terminated_at :: "int option"
  sr_deleted_at :: "int option"
  sr_last_error :: "string option"

text \<open>
  The columns of \<open>trials\<close>, \<open>tasks\<close> and \<open>task_versions\<close> the queue reads or writes.
  \<open>TrialStatus\<close>, \<open>AnalysisStatus\<close> and \<open>VerdictStatus\<close> are the same enum.
\<close>

datatype trial_status = Trial_pending | Trial_queued | Trial_running | Trial_paused | Trial_success
  | Trial_failed | Trial_retrying | Trial_skipped

record trial_row =
  tr_id :: string
  tr_task_id :: string
  tr_task_version_id :: "string option"
  tr_experiment_id :: string
  tr_kind :: string
  tr_agent :: string
  tr_queue_key :: string
  tr_reward :: "py_float option"
  tr_status :: trial_status
  tr_environment :: "string option"
  tr_attempts :: int
  tr_current_worker_id :: "string option"
  tr_current_queue_slot :: "int option"
  tr_next_retry_at :: "int option"
  tr_heartbeat_at :: "int option"
  tr_error_message :: "string option"
  tr_superseded_by_trial_id :: "string option"
  tr_deleted_at :: "int option"
  tr_finished_at :: "int option"
  tr_stale_reaped_at :: "int option"
  tr_harbor_stage :: "string option"
  tr_imported_at :: "int option"
  tr_has_trajectory :: bool
  tr_created_at :: int
  tr_name :: string
  tr_org_id :: "string option"
  tr_model :: "string option"
  tr_max_attempts :: int
  tr_cost_usd :: "py_float option"
  tr_analysis :: json
  tr_analysis_payload :: json
  tr_analysis_status :: "trial_status option"
  tr_analysis_error :: "string option"
  tr_analysis_finished_at :: "int option"

datatype task_status = Task_pending | Task_running | Task_analyzing | Task_verdict_pending
  | Task_completed | Task_failed

record task_row =
  tk_id :: string
  tk_name :: string
  tk_org_id :: "string option"
  tk_status :: task_status
  tk_finished_at :: "int option"
  tk_created_by_user_id :: "string option"
  tk_user :: "string option"
  tk_deleted_at :: "int option"
  tk_current_version_id :: "string option"
  tk_verdict :: "json option"
  tk_verdict_status :: "trial_status option"
  tk_verdict_error :: "string option"
  tk_verdict_started_at :: "int option"
  tk_verdict_finished_at :: "int option"

record task_version_row =
  tv_id :: string
  tv_task_id :: string
  tv_content_hash :: "string option"
  tv_pre_trial :: "(string \<times> json) list option"
  tv_pre_trial_started_at :: "int option"
  tv_pre_trial_status :: "trial_status option"
  tv_pre_trial_error :: "string option"
  tv_pre_trial_finished_at :: "int option"

record experiment_row =
  ex_id :: string
  ex_name :: string
  ex_org_id :: "string option"
  ex_owner_user_id :: "string option"
  ex_shadow_of :: "string option"
  ex_deleted_at :: "int option"

record task_experiment_row =
  te_task_id :: string
  te_experiment_id :: string
  te_created_at :: int
  te_deleted_at :: "int option"

record capacity_lease =
  cl_provider :: string
  cl_slot :: int
  cl_locked_by :: "string option"
  cl_worker_job_id :: "string option"
  cl_locked_at :: "int option"
  cl_locked_until :: "int option"

subsection \<open>Leases\<close>

text \<open>
  What the two lease tables of the program share: a row has an identity that no operation
  changes; taking a row makes it held by the taker, unlocking frees it, and time only ends
  leases.
\<close>

locale lease_rows =
  fixes rid :: "'r \<Rightarrow> 'k"
    and owner :: "'r \<Rightarrow> string option"
    and held :: "int \<Rightarrow> 'r \<Rightarrow> bool"
    and take_row :: "int \<Rightarrow> string \<Rightarrow> int \<Rightarrow> 'r \<Rightarrow> 'r"
    and unlock :: "'r \<Rightarrow> 'r"
  assumes rid_take: "rid (take_row now w secs r) = rid r"
    and rid_unlock: "rid (unlock r) = rid r"
    and held_take: "0 < secs \<Longrightarrow> held now (take_row now w secs r)"
    and owner_take: "owner (take_row now w secs r) = Some w"
    and held_unlock: "\<not> held now (unlock r)"
    and held_later: "held now' r \<Longrightarrow> now \<le> now' \<Longrightarrow> held now r"
begin

lemma claim_counts:
  assumes "claim_first rid ord P (take_row now w secs) t = (t', Some r)" and "distinct (map rid t)"
    and "\<not> held now r" and "0 < secs"
  shows "length (filter (\<lambda>x. Q (rid x) \<and> held now x) t')
    = length (filter (\<lambda>x. Q (rid x) \<and> held now x) t) + (if Q (rid r) then 1 else 0)"
proof -
  obtain xs ys where t: "t = xs @ r # ys" "t' = xs @ take_row now w secs r # ys"
    by (rule claim_first_split [OF assms(1,2)])
  show ?thesis unfolding t using assms(3,4) by (simp add: held_take rid_take)
qed

lemma claim_keeps_held:
  assumes "claim_first rid ord P (take_row now w secs) t = (t', Some r)" and "distinct (map rid t)"
    and "\<not> held now r" and "x \<in> set t" and "held now x"
  shows "x \<in> set t'"
proof -
  obtain xs ys where t: "t = xs @ r # ys" "t' = xs @ take_row now w secs r # ys"
    by (rule claim_first_split [OF assms(1,2)])
  show ?thesis using assms(3-5) unfolding t by auto
qed

lemma claim_owned:
  assumes "claim_first rid ord P (take_row now w secs) t = (t', Some r)" and "distinct (map rid t)"
  shows "take_row now w secs r \<in> set t'" and "owner (take_row now w secs r) = Some w"
proof -
  obtain xs ys where t: "t = xs @ r # ys" "t' = xs @ take_row now w secs r # ys"
    by (rule claim_first_split [OF assms])
  show "take_row now w secs r \<in> set t'" unfolding t by simp
  show "owner (take_row now w secs r) = Some w" by (rule owner_take)
qed

lemma claim_ids: "claim_first rid ord P (take_row now w secs) t = (t', res) \<Longrightarrow> map rid t' = map rid t"
  by (erule claim_first_keys) (rule rid_take)

lemma unlock_ids: "map rid (update_where P unlock t) = map rid t"
  by (rule update_where_map) (rule rid_unlock)

lemma unlock_counts:
  "length (filter (\<lambda>x. Q (rid x) \<and> held now x) (update_where P unlock t))
     \<le> length (filter (\<lambda>x. Q (rid x) \<and> held now x) t)"
  by (rule count_update_where_le) (simp add: held_unlock)

lemma unlock_unheld_counts:
  assumes "\<And>r. r \<in> set t \<Longrightarrow> P r \<Longrightarrow> \<not> held now r"
  shows "length (filter (\<lambda>x. Q (rid x) \<and> held now x) (update_where P unlock t))
     = length (filter (\<lambda>x. Q (rid x) \<and> held now x) t)"
  using assms by (intro count_update_where_eq) (simp add: held_unlock)

lemma later_counts:
  assumes "now \<le> now'"
  shows "length (filter (\<lambda>x. Q x \<and> held now' x) t) \<le> length (filter (\<lambda>x. Q x \<and> held now x) t)"
  using assms held_later by (induction t) (auto simp: le_SucI)

end

text \<open>
  The rows a worker has in its name. Rows are created without an owner, and unlocking a row takes
  the owner away.
\<close>

definition owned_ids :: "('r \<Rightarrow> 'k) \<Rightarrow> ('r \<Rightarrow> string option) \<Rightarrow> string \<Rightarrow> 'r list \<Rightarrow> 'k set" where
  "owned_ids rid owner w t = rid ` {r \<in> set t. owner r = Some w}"

locale owned_rows = lease_rows +
  assumes owner_unlock: "owner (unlock r) = None"
begin

lemma owned_claim:
  assumes "claim_first rid ord P (take_row now w secs) t = (t', res)"
  shows "owned_ids rid owner v t' \<subseteq> owned_ids rid owner v t \<union> (case res of None \<Rightarrow> {} | Some r \<Rightarrow> {rid r})"
proof (cases res)
  case None
  with assms have "t' = t" by (simp add: claim_first_None)
  then show ?thesis by simp
next
  case (Some r)
  from claim_first_Some(3) [OF assms [unfolded Some]]
  have "t' = update_where (\<lambda>x. rid x = rid r) (take_row now w secs) t" .
  then show ?thesis unfolding Some by (auto simp: owned_ids_def in_update_where rid_take)
qed

lemma owned_insert:
  assumes "\<And>r. r \<in> set rows \<Longrightarrow> owner r = None"
  shows "owned_ids rid owner w (insert_missing rid rows t) = owned_ids rid owner w t"
  using assms by (auto simp: owned_ids_def insert_missing_def)

lemma owned_unlock:
  assumes "r \<in> set (update_where P unlock t)" and "owner r = Some w"
  shows "r \<in> set t" and "\<not> P r"
proof -
  from assms(1) obtain s where s: "s \<in> set t" "r = (if P s then unlock s else s)"
    unfolding in_update_where by blast
  with assms(2) owner_unlock [of s] have "\<not> P s" by (cases "P s") simp_all
  with s show "r \<in> set t" "\<not> P r" by simp_all
qed

lemma owned_release:
  "owned_ids rid owner w (update_where (\<lambda>r. rid r = k \<and> owner r = Some w) unlock t)
     \<subseteq> owned_ids rid owner w t - {k}"
  unfolding owned_ids_def using owned_unlock by blast

end

end
