(* ===== verification/Spawn_Plan.thy ===== *)
theory Spawn_Plan
  imports Oddish_Prelude
begin

text \<open>
  The spawn planner, \<open>build_spawn_plan\<close> of \<open>workers/queue/worker_job_dispatcher.py\<close>: it
  allocates worker launches to organizations in turns, within the shared capacity of a model
  queue and of an execution lane. The nested dictionary of queued work, the two capacity
  dictionaries, the fairness cursors and the plan so far are the fields of \<open>plan_state\<close>;
  one iteration of the inner loop is \<open>org_turn\<close>, the inner loop \<open>org_round\<close>, the outer loop
  \<open>plan_loop\<close>. The lemmas carry one invariant through the loops: what is left of a demand or
  of a capacity plus what the plan took of it is what there was.
\<close>

subsection \<open>Data\<close>

type_synonym org_id = "string option"
type_synonym unit_key = "string \<times> string \<times> string \<times> bool"
type_synonym demand_key = "org_id \<times> string \<times> string \<times> string \<times> bool"
type_synonym run_key = "string \<times> string \<times> string"

abbreviation uk_queue :: "unit_key \<Rightarrow> string" where "uk_queue u \<equiv> fst u"
abbreviation uk_lane :: "unit_key \<Rightarrow> string" where "uk_lane u \<equiv> fst (snd (snd u))"
abbreviation uk_class :: "unit_key \<Rightarrow> bool" where "uk_class u \<equiv> snd (snd (snd u))"

record dispatch_unit =
  du_queue_key :: string
  du_harbor_variant_id :: string
  du_execution_lane :: string
  du_priority_class :: bool
  du_org_id :: org_id

definition dispatch_unit_of :: "unit_key \<Rightarrow> org_id \<Rightarrow> dispatch_unit" where
  "dispatch_unit_of u org =
     \<lparr>du_queue_key = uk_queue u, du_harbor_variant_id = fst (snd u),
      du_execution_lane = uk_lane u, du_priority_class = uk_class u, du_org_id = org\<rparr>"

definition du_unit :: "dispatch_unit \<Rightarrow> unit_key" where
  "du_unit d = (du_queue_key d, du_harbor_variant_id d, du_execution_lane d, du_priority_class d)"

record plan_state =
  ps_plan :: "dispatch_unit list"
  ps_queued :: "(org_id, (unit_key, int) dict) dict"
  ps_global :: "(string, int) dict"
  ps_lane :: "(string, int) dict"
  ps_cursors :: "(string, int) dict"

subsection \<open>Operations\<close>

text \<open>\<open>None\<close>, the bucket of unowned rows, sorts last.\<close>

definition org_sort_key :: "org_id \<Rightarrow> nat \<times> string" where
  "org_sort_key org = (case org of None \<Rightarrow> (1, []) | Some s \<Rightarrow> (0, s))"

text \<open>\<open>json.dumps(org_id)\<close>.\<close>

definition org_cursor_key :: "org_id \<Rightarrow> string" where
  "org_cursor_key org = (case org of None \<Rightarrow> ''null'' | Some s \<Rightarrow> json_string s)"

definition class_cursor_key :: "org_id \<Rightarrow> bool \<Rightarrow> string" where
  "class_cursor_key org c = org_cursor_key org @ '':'' @ (if c then ''True'' else ''False'')"

definition bucket_add ::
  "(org_id, (unit_key, int) dict) dict \<Rightarrow> demand_key \<times> int \<Rightarrow> (org_id, (unit_key, int) dict) dict" where
  "bucket_add acc kq = (case kq of ((org, unit), queued) \<Rightarrow>
     if queued \<le> 0 then acc
     else dict_set acc org (dict_set (dict_get acc org []) unit queued))"

definition bucket_demand :: "(demand_key, int) dict \<Rightarrow> (org_id, (unit_key, int) dict) dict" where
  "bucket_demand d = foldl bucket_add [] d"

definition running_by_queue_key :: "(run_key, int) dict \<Rightarrow> (string, int) dict" where
  "running_by_queue_key running = sum_by fst running"

definition running_by_lane :: "(run_key, int) dict \<Rightarrow> (string, int) dict" where
  "running_by_lane running = sum_by (\<lambda>k. snd (snd k)) running"

definition queue_capacity ::
  "(run_key, int) dict \<Rightarrow> (string, int) dict \<Rightarrow> (string, int) dict \<Rightarrow> string \<Rightarrow> int" where
  "queue_capacity running limits held qk =
     max (dict_get limits qk 0
          - max (dict_get (running_by_queue_key running) qk 0) (dict_get held qk 0)) 0"

definition global_capacity ::
  "(org_id, (unit_key, int) dict) dict \<Rightarrow> (run_key, int) dict \<Rightarrow> (string, int) dict \<Rightarrow>
   (string, int) dict \<Rightarrow> (string, int) dict" where
  "global_capacity buckets running limits held =
     map (\<lambda>qk. (qk, queue_capacity running limits held qk))
       (remdups (dict_keys limits @
          concat (map (\<lambda>(org, bucket). map uk_queue (dict_keys bucket)) buckets)))"

definition lane_room ::
  "(run_key, int) dict \<Rightarrow> (string, int) dict \<Rightarrow> string \<Rightarrow> int \<Rightarrow> int" where
  "lane_room running held_lane lane limit =
     max (limit - max (dict_get (running_by_lane running) lane 0) (dict_get held_lane lane 0)) 0"

definition lane_capacity ::
  "(run_key, int) dict \<Rightarrow> (string, int) dict \<Rightarrow> (string, int) dict \<Rightarrow> (string, int) dict" where
  "lane_capacity running limits_lane held_lane =
     map (\<lambda>(lane, limit). (lane, lane_room running held_lane lane limit)) limits_lane"

definition has_room :: "plan_state \<Rightarrow> unit_key \<Rightarrow> bool" where
  "has_room st u \<longleftrightarrow> 0 < dict_get (ps_global st) (uk_queue u) 0 \<and> 0 < dict_get (ps_lane st) (uk_lane u) 1"

definition eligible_units :: "plan_state \<Rightarrow> org_id \<Rightarrow> unit_key list" where
  "eligible_units st org =
     sort (map fst (filter (\<lambda>(u, queued). 0 < queued \<and> has_room st u)
       (dict_get (ps_queued st) org [])))"

definition turn_candidates :: "plan_state \<Rightarrow> org_id \<Rightarrow> unit_key list" where
  "turn_candidates st org =
     (let turn = dict_get (ps_cursors st) (org_cursor_key org) 0;
          preferred = (turn mod 4 \<noteq> 3);
          eligible = eligible_units st org;
          candidates = filter (\<lambda>u. uk_class u = preferred) eligible
      in if candidates = [] then eligible else candidates)"

definition picked_unit :: "org_id \<Rightarrow> unit_key list \<Rightarrow> plan_state \<Rightarrow> unit_key" where
  "picked_unit org candidates st =
     (let unit_turn = dict_get (ps_cursors st) (class_cursor_key org (uk_class (candidates ! 0))) 0
      in candidates ! nat (unit_turn mod int (length candidates)))"

definition commit_unit :: "org_id list \<Rightarrow> org_id \<Rightarrow> unit_key list \<Rightarrow> plan_state \<Rightarrow> plan_state" where
  "commit_unit ordered org candidates st =
     (let cursor_key = org_cursor_key org;
          turn = dict_get (ps_cursors st) cursor_key 0;
          class_key = class_cursor_key org (uk_class (candidates ! 0));
          unit_turn = dict_get (ps_cursors st) class_key 0;
          picked = picked_unit org candidates st;
          bucket = dict_get (ps_queued st) org []
      in st\<lparr>ps_plan := ps_plan st @ [dispatch_unit_of picked org],
            ps_queued := dict_set (ps_queued st) org
              (dict_set bucket picked (dict_get bucket picked 0 - 1)),
            ps_global := dict_set (ps_global st) (uk_queue picked)
              (dict_get (ps_global st) (uk_queue picked) 0 - 1),
            ps_lane := (if dict_has (ps_lane st) (uk_lane picked)
              then dict_set (ps_lane st) (uk_lane picked)
                (dict_get (ps_lane st) (uk_lane picked) 0 - 1)
              else ps_lane st),
            ps_cursors := dict_set (dict_set (dict_set (ps_cursors st) cursor_key (turn + 1))
                class_key (unit_turn + 1))
              ''org_offset'' (int (list_index ordered org) + 1)\<rparr>)"

definition org_turn :: "org_id list \<Rightarrow> org_id \<Rightarrow> plan_state \<Rightarrow> plan_state \<times> bool" where
  "org_turn ordered org st =
     (let candidates = turn_candidates st org in
      if candidates = [] then (st, False) else (commit_unit ordered org candidates st, True))"

fun org_round ::
  "int \<Rightarrow> org_id list \<Rightarrow> org_id list \<Rightarrow> plan_state \<Rightarrow> bool \<Rightarrow> plan_state \<times> bool" where
  "org_round mw ordered [] st progressed = (st, progressed)"
| "org_round mw ordered (org # orgs) st progressed =
     (if int (length (ps_plan st)) \<ge> mw then (st, progressed)
      else case org_turn ordered org st of
        (st', took) \<Rightarrow> org_round mw ordered orgs st' (progressed \<or> took))"

lemma org_turn_length:
  "org_turn ordered org st = (st', took) \<Longrightarrow>
     length (ps_plan st') = length (ps_plan st) + (if took then 1 else 0)"
  by (auto simp: org_turn_def commit_unit_def Let_def split: if_splits)

lemma org_round_length:
  "org_round mw ordered orgs st progressed = (st', progressed') \<Longrightarrow>
     length (ps_plan st) \<le> length (ps_plan st') \<and>
     (progressed' \<and> \<not> progressed \<longrightarrow> length (ps_plan st) < length (ps_plan st'))"
proof (induction orgs arbitrary: st progressed)
  case Nil
  then show ?case by simp
next
  case (Cons org orgs)
  obtain s took where s: "org_turn ordered org st = (s, took)" by (cases "org_turn ordered org st")
  show ?case
  proof (cases "int (length (ps_plan st)) \<ge> mw")
    case True
    with Cons.prems show ?thesis by simp
  next
    case False
    with Cons.prems s have "org_round mw ordered orgs s (progressed \<or> took) = (st', progressed')"
      by simp
    from Cons.IH [OF this] org_turn_length [OF s] show ?thesis by (auto split: if_splits)
  qed
qed

function plan_loop :: "int \<Rightarrow> org_id list \<Rightarrow> org_id list \<Rightarrow> plan_state \<Rightarrow> plan_state" where
  "plan_loop mw ordered orgs st =
     (if int (length (ps_plan st)) < mw then
        (case org_round mw ordered orgs st False of
           (st', progressed) \<Rightarrow> if progressed then plan_loop mw ordered orgs st' else st')
      else st)"
  by pat_completeness auto
termination
  by (relation "measure (\<lambda>(mw, ordered, orgs, st). nat (mw - int (length (ps_plan st))))")
    (auto dest!: org_round_length [OF sym])

declare plan_loop.simps [simp del]

definition ordered_orgs :: "(org_id, (unit_key, int) dict) dict \<Rightarrow> org_id list" where
  "ordered_orgs buckets = sort_key org_sort_key (dict_keys buckets)"

definition rotated_orgs :: "org_id list \<Rightarrow> (string, int) dict \<Rightarrow> org_id list" where
  "rotated_orgs ordered cursors =
     (let offset = nat (dict_get cursors ''org_offset'' 0 mod int (length ordered))
      in drop offset ordered @ take offset ordered)"

definition initial_plan ::
  "(org_id, (unit_key, int) dict) dict \<Rightarrow> (run_key, int) dict \<Rightarrow> (string, int) dict \<Rightarrow>
   (string, int) dict \<Rightarrow> (string, int) dict \<Rightarrow> (string, int) dict \<Rightarrow> (string, int) dict \<Rightarrow>
   plan_state" where
  "initial_plan buckets running limits held limits_lane held_lane cursors =
     \<lparr>ps_plan = [], ps_queued = buckets,
      ps_global = global_capacity buckets running limits held,
      ps_lane = lane_capacity running limits_lane held_lane,
      ps_cursors = cursors\<rparr>"

text \<open>
  The result pairs the plan with the cursors, which the code updates in the caller's
  dictionary. An optional dictionary that is \<open>None\<close> is the empty one.
\<close>

definition build_spawn_plan ::
  "(demand_key, int) dict \<Rightarrow> (run_key, int) dict \<Rightarrow> (string, int) dict \<Rightarrow> int \<Rightarrow>
   (string, int) dict \<Rightarrow> (string, int) dict \<Rightarrow> (string, int) dict \<Rightarrow> (string, int) dict \<Rightarrow>
   dispatch_unit list \<times> (string, int) dict" where
  "build_spawn_plan demand running limits max_workers held limits_lane held_lane cursors =
     (if max_workers \<le> 0 \<or> demand = [] then ([], cursors)
      else let buckets = bucket_demand demand in
        if buckets = [] then ([], cursors)
        else let ordered = ordered_orgs buckets;
                 orgs = rotated_orgs ordered cursors;
                 st = plan_loop max_workers ordered orgs
                   (initial_plan buckets running limits held limits_lane held_lane cursors)
             in (ps_plan st, ps_cursors st))"

subsection \<open>One turn\<close>

definition left :: "plan_state \<Rightarrow> org_id \<Rightarrow> unit_key \<Rightarrow> int" where
  "left st org u = dict_get (dict_get (ps_queued st) org []) u 0"

definition wf_plan :: "plan_state \<Rightarrow> bool" where
  "wf_plan st \<longleftrightarrow> (\<forall>org. distinct (dict_keys (dict_get (ps_queued st) org [])))"

abbreviation taken_of :: "dispatch_unit list \<Rightarrow> org_id \<Rightarrow> unit_key \<Rightarrow> int" where
  "taken_of plan org u \<equiv> count_by (\<lambda>d. du_org_id d = org \<and> du_unit d = u) plan"

abbreviation queue_taken :: "dispatch_unit list \<Rightarrow> string \<Rightarrow> int" where
  "queue_taken plan qk \<equiv> count_by (\<lambda>d. du_queue_key d = qk) plan"

abbreviation lane_taken :: "dispatch_unit list \<Rightarrow> string \<Rightarrow> int" where
  "lane_taken plan lane \<equiv> count_by (\<lambda>d. du_execution_lane d = lane) plan"

abbreviation org_taken :: "dispatch_unit list \<Rightarrow> org_id \<Rightarrow> int" where
  "org_taken plan org \<equiv> count_by (\<lambda>d. du_org_id d = org) plan"

lemma du_projections [simp, plan_simps]:
  "du_org_id (dispatch_unit_of u org) = org" "du_unit (dispatch_unit_of u org) = u"
  "du_queue_key (dispatch_unit_of u org) = uk_queue u"
  "du_execution_lane (dispatch_unit_of u org) = uk_lane u"
  "du_priority_class (dispatch_unit_of u org) = uk_class u"
  by (simp_all add: dispatch_unit_of_def du_unit_def)

lemma eligible_iff:
  assumes "wf_plan st"
  shows "u \<in> set (eligible_units st org) \<longleftrightarrow> 0 < left st org u \<and> has_room st u"
proof -
  have d: "distinct (dict_keys (dict_get (ps_queued st) org []))"
    using assms by (simp add: wf_plan_def)
  have "(\<exists>q>0. (u, q) \<in> set (dict_get (ps_queued st) org [])) \<longleftrightarrow> 0 < left st org u"
  proof
    assume "\<exists>q>0. (u, q) \<in> set (dict_get (ps_queued st) org [])"
    then obtain q where q: "0 < q" "(u, q) \<in> set (dict_get (ps_queued st) org [])" by blast
    from q(1) dict_get_in [OF d q(2), of 0] show "0 < left st org u" by (simp add: left_def)
  next
    assume pos: "0 < left st org u"
    then have "dict_has (dict_get (ps_queued st) org []) u"
      using dict_get_missing [of "dict_get (ps_queued st) org []" u 0] by (auto simp: left_def)
    from dict_has_in [OF this, of 0] pos show "\<exists>q>0. (u, q) \<in> set (dict_get (ps_queued st) org [])"
      by (auto simp: left_def)
  qed
  then show ?thesis by (force simp: eligible_units_def)
qed

lemma candidates_subset: "set (turn_candidates st org) \<subseteq> set (eligible_units st org)"
  by (auto simp: turn_candidates_def Let_def)

lemma candidates_Nil [simp]: "turn_candidates st org = [] \<longleftrightarrow> eligible_units st org = []"
  by (auto simp: turn_candidates_def Let_def)

lemma picked_in: "cs \<noteq> [] \<Longrightarrow> picked_unit org cs st \<in> set cs"
  by (simp add: picked_unit_def Let_def nat_less_iff)

lemma picked_eligible:
  "turn_candidates st org \<noteq> [] \<Longrightarrow>
     picked_unit org (turn_candidates st org) st \<in> set (eligible_units st org)"
  using picked_in candidates_subset by blast

lemma commit_plan [plan_simps]:
  "ps_plan (commit_unit ordered org cs st) =
     ps_plan st @ [dispatch_unit_of (picked_unit org cs st) org]"
  by (simp add: commit_unit_def Let_def)

lemma commit_left [plan_simps]:
  "left (commit_unit ordered org cs st) org' u =
     left st org' u - (if org' = org \<and> u = picked_unit org cs st then 1 else 0)"
  by (auto simp: left_def commit_unit_def Let_def)

lemma commit_global [plan_simps]:
  "dict_get (ps_global (commit_unit ordered org cs st)) qk 0 =
     dict_get (ps_global st) qk 0 - (if qk = uk_queue (picked_unit org cs st) then 1 else 0)"
  by (auto simp: commit_unit_def Let_def)

lemma commit_lane_has [plan_simps]:
  "dict_has (ps_lane (commit_unit ordered org cs st)) lane = dict_has (ps_lane st) lane"
  by (auto simp: commit_unit_def Let_def)

lemma commit_lane [plan_simps]:
  "dict_get (ps_lane (commit_unit ordered org cs st)) lane n =
     dict_get (ps_lane st) lane n
     - (if dict_has (ps_lane st) lane \<and> lane = uk_lane (picked_unit org cs st) then 1 else 0)"
  by (auto simp: commit_unit_def Let_def dest: dict_get_default)

lemma commit_wf [plan_simps]: "wf_plan st \<Longrightarrow> wf_plan (commit_unit ordered org cs st)"
  by (auto simp: wf_plan_def commit_unit_def Let_def intro!: distinct_dict_set)

subsection \<open>Induction over the loops\<close>

lemma org_turn_induct:
  assumes "I st"
    and "turn_candidates st org \<noteq> [] \<Longrightarrow> I (commit_unit ordered org (turn_candidates st org) st)"
  shows "I (fst (org_turn ordered org st))"
  using assms by (simp add: org_turn_def Let_def)

lemma org_round_induct:
  assumes "I st" and "set orgs \<subseteq> A"
    and step: "\<And>st org. org \<in> A \<Longrightarrow> I st \<Longrightarrow> int (length (ps_plan st)) < mw \<Longrightarrow>
      turn_candidates st org \<noteq> [] \<Longrightarrow> I (commit_unit ordered org (turn_candidates st org) st)"
  shows "I (fst (org_round mw ordered orgs st progressed))"
  using assms(1,2)
proof (induction orgs arbitrary: st progressed)
  case Nil
  then show ?case by simp
next
  case (Cons org orgs)
  obtain s took where s: "org_turn ordered org st = (s, took)" by (cases "org_turn ordered org st")
  show ?case
  proof (cases "int (length (ps_plan st)) \<ge> mw")
    case True
    with Cons.prems show ?thesis by simp
  next
    case False
    have "I (fst (org_turn ordered org st))"
    proof (rule org_turn_induct [where I = I])
      show "I st" by (rule Cons.prems(1))
    next
      assume "turn_candidates st org \<noteq> []"
      then show "I (commit_unit ordered org (turn_candidates st org) st)"
        using Cons.prems False by (intro step) simp_all
    qed
    with s have "I s" by simp
    then have "I (fst (org_round mw ordered orgs s (progressed \<or> took)))"
      using Cons.prems(2) by (intro Cons.IH) simp_all
    with False s show ?thesis by simp
  qed
qed

lemma plan_loop_induct:
  assumes "I st" and "set orgs \<subseteq> A"
    and step: "\<And>st org. org \<in> A \<Longrightarrow> I st \<Longrightarrow> int (length (ps_plan st)) < mw \<Longrightarrow>
      turn_candidates st org \<noteq> [] \<Longrightarrow> I (commit_unit ordered org (turn_candidates st org) st)"
  shows "I (plan_loop mw ordered orgs st)"
  using assms
proof (induction mw ordered orgs st rule: plan_loop.induct)
  case (1 mw ordered orgs st)
  obtain s p where s: "org_round mw ordered orgs st False = (s, p)"
    by (cases "org_round mw ordered orgs st False")
  have "I (fst (org_round mw ordered orgs st False))"
    using "1.prems"(1,2) by (rule org_round_induct [where I = I]) (rule "1.prems"(3))
  with s have Is: "I s" by simp
  show ?case
  proof (cases "int (length (ps_plan st)) < mw \<and> p")
    case True
    have "I (plan_loop mw ordered orgs s)"
      using True by (intro "1.IH" [OF _ s [symmetric]] Is "1.prems"(2)) (auto intro: "1.prems"(3))
    with True s show ?thesis by (subst plan_loop.simps) simp
  next
    case False
    with s Is "1.prems"(1) show ?thesis by (subst plan_loop.simps) auto
  qed
qed

subsection \<open>Conservation\<close>

text \<open>
  Against the state \<open>s0\<close> the loop started from with an empty plan: what is left of a demand,
  of a queue's capacity and of a lane's capacity, plus what the plan took, is unchanged, and
  nothing left is negative.
\<close>

definition demand_conserved :: "plan_state \<Rightarrow> plan_state \<Rightarrow> bool" where
  "demand_conserved s0 st \<longleftrightarrow>
     (\<forall>org u. left st org u + taken_of (ps_plan st) org u = left s0 org u \<and> 0 \<le> left st org u)"

definition global_conserved :: "plan_state \<Rightarrow> plan_state \<Rightarrow> bool" where
  "global_conserved s0 st \<longleftrightarrow>
     (\<forall>qk. dict_get (ps_global st) qk 0 + queue_taken (ps_plan st) qk = dict_get (ps_global s0) qk 0
        \<and> 0 \<le> dict_get (ps_global st) qk 0)"

definition lane_conserved :: "plan_state \<Rightarrow> plan_state \<Rightarrow> bool" where
  "lane_conserved s0 st \<longleftrightarrow>
     (\<forall>lane. dict_has (ps_lane st) lane = dict_has (ps_lane s0) lane \<and>
        (dict_has (ps_lane s0) lane \<longrightarrow>
           dict_get (ps_lane st) lane 1 + lane_taken (ps_plan st) lane = dict_get (ps_lane s0) lane 1 \<and>
           0 \<le> dict_get (ps_lane st) lane 1))"

lemma demand_conservedD:
  "demand_conserved s0 st \<Longrightarrow> taken_of (ps_plan st) org u \<le> left s0 org u"
  unfolding demand_conserved_def by (drule spec [of _ org], drule spec [of _ u]) linarith

lemma global_conservedD:
  "global_conserved s0 st \<Longrightarrow> queue_taken (ps_plan st) qk \<le> dict_get (ps_global s0) qk 0"
  unfolding global_conserved_def by (drule spec [of _ qk]) linarith

lemma lane_conservedD:
  "lane_conserved s0 st \<Longrightarrow> dict_has (ps_lane s0) lane \<Longrightarrow>
     lane_taken (ps_plan st) lane \<le> dict_get (ps_lane s0) lane 1"
  unfolding lane_conserved_def by (drule spec [of _ lane]) linarith

definition plan_inv :: "plan_state \<Rightarrow> plan_state \<Rightarrow> bool" where
  "plan_inv s0 st \<longleftrightarrow>
     wf_plan st \<and> demand_conserved s0 st \<and> global_conserved s0 st \<and> lane_conserved s0 st"

lemma demand_conserved_commit:
  assumes "demand_conserved s0 st" and "0 < left st org (picked_unit org cs st)"
  shows "demand_conserved s0 (commit_unit ordered org cs st)"
  unfolding demand_conserved_def commit_plan commit_left
proof (intro allI)
  fix org' u
  from assms(1) have "left st org' u + taken_of (ps_plan st) org' u = left s0 org' u \<and> 0 \<le> left st org' u"
    by (simp add: demand_conserved_def)
  with assms(2) show "left st org' u - (if org' = org \<and> u = picked_unit org cs st then 1 else 0)
        + taken_of (ps_plan st @ [dispatch_unit_of (picked_unit org cs st) org]) org' u = left s0 org' u
      \<and> 0 \<le> left st org' u - (if org' = org \<and> u = picked_unit org cs st then 1 else 0)"
    by (cases "org' = org \<and> u = picked_unit org cs st") auto
qed

lemma global_conserved_commit:
  assumes "global_conserved s0 st" and "has_room st (picked_unit org cs st)"
  shows "global_conserved s0 (commit_unit ordered org cs st)"
  unfolding global_conserved_def commit_plan commit_global
proof
  fix qk
  from assms(1) have "dict_get (ps_global st) qk 0 + queue_taken (ps_plan st) qk
      = dict_get (ps_global s0) qk 0 \<and> 0 \<le> dict_get (ps_global st) qk 0"
    by (simp add: global_conserved_def)
  moreover have "0 < dict_get (ps_global st) (uk_queue (picked_unit org cs st)) 0"
    using assms(2) by (simp add: has_room_def)
  ultimately show "dict_get (ps_global st) qk 0 - (if qk = uk_queue (picked_unit org cs st) then 1 else 0)
        + queue_taken (ps_plan st @ [dispatch_unit_of (picked_unit org cs st) org]) qk
        = dict_get (ps_global s0) qk 0
      \<and> 0 \<le> dict_get (ps_global st) qk 0 - (if qk = uk_queue (picked_unit org cs st) then 1 else 0)"
    by (cases "qk = uk_queue (picked_unit org cs st)") auto
qed

lemma lane_conserved_commit:
  assumes "lane_conserved s0 st" and "has_room st (picked_unit org cs st)"
  shows "lane_conserved s0 (commit_unit ordered org cs st)"
  unfolding lane_conserved_def commit_plan commit_lane commit_lane_has
proof (intro allI conjI impI)
  fix lane
  let ?l = "uk_lane (picked_unit org cs st)"
  from assms(1) show has: "dict_has (ps_lane st) lane = dict_has (ps_lane s0) lane"
    by (simp add: lane_conserved_def)
  assume h: "dict_has (ps_lane s0) lane"
  with assms(1) have "dict_get (ps_lane st) lane 1 + lane_taken (ps_plan st) lane
      = dict_get (ps_lane s0) lane 1 \<and> 0 \<le> dict_get (ps_lane st) lane 1"
    by (simp add: lane_conserved_def)
  moreover have "0 < dict_get (ps_lane st) ?l 1"
    using assms(2) by (simp add: has_room_def)
  ultimately show
    "dict_get (ps_lane st) lane 1 - (if dict_has (ps_lane st) lane \<and> lane = ?l then 1 else 0)
       + lane_taken (ps_plan st @ [dispatch_unit_of (picked_unit org cs st) org]) lane
       = dict_get (ps_lane s0) lane 1"
    "0 \<le> dict_get (ps_lane st) lane 1 - (if dict_has (ps_lane st) lane \<and> lane = ?l then 1 else 0)"
    using has h by (cases "lane = ?l"; simp)+
qed

lemma plan_inv_commit:
  assumes inv: "plan_inv s0 st" and cs: "turn_candidates st org \<noteq> []"
  shows "plan_inv s0 (commit_unit ordered org (turn_candidates st org) st)"
proof -
  let ?p = "picked_unit org (turn_candidates st org) st"
  have wf: "wf_plan st" using inv by (simp add: plan_inv_def)
  from picked_eligible [OF cs] have "0 < left st org ?p" and "has_room st ?p"
    by (simp_all add: eligible_iff [OF wf])
  with inv show ?thesis
    unfolding plan_inv_def
    by (auto intro: demand_conserved_commit global_conserved_commit lane_conserved_commit commit_wf)
qed

lemma plan_inv_loop:
  assumes "plan_inv s0 st"
  shows "plan_inv s0 (plan_loop mw ordered orgs st)"
  using assms subset_refl by (rule plan_loop_induct [where I = "plan_inv s0"]) (rule plan_inv_commit)

lemma plan_loop_bound:
  assumes "int (length (ps_plan st)) \<le> mw"
  shows "int (length (ps_plan (plan_loop mw ordered orgs st))) \<le> mw"
  using assms subset_refl
  by (rule plan_loop_induct [where I = "\<lambda>st. int (length (ps_plan st)) \<le> mw"]) (simp add: plan_simps)

subsection \<open>The loop's start\<close>

lemma bucket_demand_snoc: "bucket_demand (d @ [kq]) = bucket_add (bucket_demand d) kq"
  by (simp add: bucket_demand_def)

lemma bucket_demand_wf: "distinct (dict_keys (dict_get (bucket_demand d) org []))"
proof (induction d rule: rev_induct)
  case Nil
  then show ?case by (simp add: bucket_demand_def)
next
  case (snoc kq d)
  then show ?case
    by (auto simp: bucket_demand_snoc bucket_add_def intro!: distinct_dict_set split: prod.splits)
qed

lemma bucket_demand_distinct: "distinct (dict_keys (bucket_demand d))"
proof (induction d rule: rev_induct)
  case Nil
  then show ?case by (simp add: bucket_demand_def)
next
  case (snoc kq d)
  then show ?case
    by (auto simp: bucket_demand_snoc bucket_add_def intro!: distinct_dict_set split: prod.splits)
qed

lemma dict_get_snoc:
  "k \<notin> set (dict_keys d) \<Longrightarrow> dict_get (d @ [(k, v)]) k' w = (if k' = k then v else dict_get d k' w)"
  by (auto simp: dict_get_def map_of_eq_None_iff [THEN iffD2] map_add_def split: option.splits)

lemma bucket_demand_get:
  assumes "distinct (dict_keys d)"
  shows "dict_get (dict_get (bucket_demand d) org []) u 0 = max 0 (dict_get d (org, u) 0)"
  using assms
proof (induction d rule: rev_induct)
  case Nil
  then show ?case by (simp add: bucket_demand_def)
next
  case (snoc kq d)
  obtain o' u' q where kq: "kq = ((o', u'), q)" by (metis prod.collapse)
  from snoc.prems have new: "(o', u') \<notin> set (dict_keys d)" and d: "distinct (dict_keys d)"
    unfolding kq by auto
  have "dict_get d (o', u') 0 = 0"
    using new dict_get_missing [of d "(o', u')" "0::int"] by (simp add: dict_has_keys)
  with snoc.IH [OF d] show ?case
    unfolding kq bucket_demand_snoc bucket_add_def dict_get_snoc [OF new] by auto
qed

lemma bucket_demand_pos_keys:
  "0 < dict_get (dict_get (bucket_demand d) org []) u 0 \<Longrightarrow> org \<in> set (dict_keys (bucket_demand d))"
  by (metis dict_get_Nil dict_get_missing dict_has_keys less_irrefl)

lemma bucket_demand_nonneg: "0 \<le> dict_get (dict_get (bucket_demand d) org []) u 0"
proof (induction d rule: rev_induct)
  case Nil
  then show ?case by (simp add: bucket_demand_def)
next
  case (snoc kq d)
  then show ?case by (auto simp: bucket_demand_snoc bucket_add_def split: prod.splits)
qed

lemma dict_get_map_remdups:
  "dict_get (map (\<lambda>k. (k, f k)) (remdups ks)) k v = (if k \<in> set ks then f k else v)"
proof -
  have "map_of (map (\<lambda>k. (k, f k)) xs) k = (if k \<in> set xs then Some (f k) else None)" for xs
    by (induction xs) auto
  then show ?thesis by (simp add: dict_get_def)
qed

lemma global_capacity_le: "dict_get (global_capacity buckets running limits held) qk 0
    \<le> queue_capacity running limits held qk"
  unfolding global_capacity_def dict_get_map_remdups by (simp add: queue_capacity_def)

lemma global_capacity_nonneg: "0 \<le> dict_get (global_capacity buckets running limits held) qk 0"
  unfolding global_capacity_def dict_get_map_remdups by (simp add: queue_capacity_def)

lemma lane_capacity_get:
  "map_of (lane_capacity running limits_lane held_lane) lane =
     map_option (lane_room running held_lane lane) (map_of limits_lane lane)"
  by (induction limits_lane) (auto simp: lane_capacity_def)

lemma lane_capacity_has: "dict_has (lane_capacity running limits_lane held_lane) lane =
    dict_has limits_lane lane"
  by (simp add: dict_has_def lane_capacity_get)

lemma plan_inv_initial:
  "plan_inv (initial_plan (bucket_demand d) running limits held ll hl cursors)
     (initial_plan (bucket_demand d) running limits held ll hl cursors)"
proof -
  have "0 \<le> dict_get (lane_capacity running ll hl) lane 1" for lane
    by (auto simp: dict_get_def lane_capacity_get lane_room_def split: option.splits)
  then show ?thesis
    unfolding plan_inv_def demand_conserved_def global_conserved_def lane_conserved_def
    by (simp add: initial_plan_def wf_plan_def left_def bucket_demand_wf bucket_demand_nonneg
        global_capacity_nonneg)
qed

text \<open>The plan as the state the loop ends in, for a non-empty demand.\<close>

definition final_plan ::
  "(demand_key, int) dict \<Rightarrow> (run_key, int) dict \<Rightarrow> (string, int) dict \<Rightarrow> int \<Rightarrow>
   (string, int) dict \<Rightarrow> (string, int) dict \<Rightarrow> (string, int) dict \<Rightarrow> (string, int) dict \<Rightarrow>
   plan_state" where
  "final_plan demand running limits mw held ll hl cursors =
     (let buckets = bucket_demand demand; ordered = ordered_orgs buckets in
      plan_loop mw ordered (rotated_orgs ordered cursors)
        (initial_plan buckets running limits held ll hl cursors))"

lemma build_spawn_plan_cases:
  obtains (empty) "build_spawn_plan demand running limits mw held ll hl cursors = ([], cursors)"
      "mw \<le> 0 \<or> bucket_demand demand = []"
    | (loop) "build_spawn_plan demand running limits mw held ll hl cursors =
        (ps_plan (final_plan demand running limits mw held ll hl cursors),
         ps_cursors (final_plan demand running limits mw held ll hl cursors))"
      "0 < mw" "bucket_demand demand \<noteq> []"
proof (cases "mw \<le> 0 \<or> demand = [] \<or> bucket_demand demand = []")
  case True
  then show thesis
    by (intro empty) (auto simp: build_spawn_plan_def Let_def bucket_demand_def)
next
  case False
  then show thesis
    by (intro loop) (auto simp: build_spawn_plan_def final_plan_def Let_def)
qed

lemma final_plan_inv:
  "plan_inv (initial_plan (bucket_demand d) running limits held ll hl cursors)
     (final_plan d running limits mw held ll hl cursors)"
  unfolding final_plan_def Let_def by (rule plan_inv_loop [OF plan_inv_initial])

subsection \<open>The plan leaves no room unused\<close>

lemma org_round_no_progress:
  assumes "org_round mw ordered orgs st False = (st', False)"
  shows "st' = st \<and> (int (length (ps_plan st)) < mw \<longrightarrow> (\<forall>org \<in> set orgs. eligible_units st org = []))"
  using assms
proof (induction orgs arbitrary: st)
  case Nil
  then show ?case by simp
next
  case (Cons org orgs)
  obtain s took where s: "org_turn ordered org st = (s, took)" by (cases "org_turn ordered org st")
  show ?case
  proof (cases "int (length (ps_plan st)) \<ge> mw")
    case True
    with Cons.prems show ?thesis by simp
  next
    case False
    with Cons.prems s have r: "org_round mw ordered orgs s took = (st', False)" by simp
    have "\<not> took"
    proof
      assume "took"
      have "snd (org_round mw ordered orgs s True)" for orgs s
        by (induction orgs arbitrary: s) (auto split: prod.splits)
      with r \<open>took\<close> show False by (metis snd_conv)
    qed
    with s have "s = st" "eligible_units st org = []"
      by (auto simp: org_turn_def Let_def split: if_splits)
    with r \<open>\<not> took\<close> Cons.IH show ?thesis by auto
  qed
qed

lemma plan_loop_exhausts:
  assumes "int (length (ps_plan (plan_loop mw ordered orgs st))) < mw" and "org \<in> set orgs"
  shows "eligible_units (plan_loop mw ordered orgs st) org = []"
  using assms
proof (induction mw ordered orgs st rule: plan_loop.induct)
  case (1 mw ordered orgs st)
  obtain s p where s: "org_round mw ordered orgs st False = (s, p)"
    by (cases "org_round mw ordered orgs st False")
  show ?case
  proof (cases "int (length (ps_plan st)) < mw")
    case True
    show ?thesis
    proof (cases p)
      case p: True
      with True s have eq: "plan_loop mw ordered orgs st = plan_loop mw ordered orgs s"
        by (subst plan_loop.simps) simp
      show ?thesis
        unfolding eq using "1.prems" True p by (intro "1.IH" [OF _ s [symmetric]]) (simp_all add: eq)
    next
      case False
      with True s have eq: "plan_loop mw ordered orgs st = s" by (subst plan_loop.simps) simp
      from s False have "org_round mw ordered orgs st False = (s, False)" by simp
      from org_round_no_progress [OF this] True "1.prems"(2) show ?thesis unfolding eq by simp
    qed
  next
    case False
    then have "plan_loop mw ordered orgs st = st" by (subst plan_loop.simps) simp
    with "1.prems" False show ?thesis by simp
  qed
qed

lemma ordered_orgs_set: "set (ordered_orgs b) = set (dict_keys b)"
  by (simp add: ordered_orgs_def)

lemma rotated_orgs_set [simp]: "set (rotated_orgs xs c) = set xs"
proof -
  have "set (drop n xs @ take n xs) = set xs" for n
    by (metis set_append Un_commute append_take_drop_id)
  then show ?thesis by (simp only: rotated_orgs_def Let_def)
qed

lemma rotated_orgs_distinct [simp]: "distinct (rotated_orgs xs c) = distinct xs"
proof -
  have "distinct (drop n xs @ take n xs) = distinct (take n xs @ drop n xs)" for n
    unfolding distinct_append by blast
  then show ?thesis by (simp add: rotated_orgs_def Let_def)
qed

lemma ordered_orgs_distinct: "distinct (ordered_orgs (bucket_demand d))"
  by (simp add: ordered_orgs_def bucket_demand_distinct)

subsection \<open>Turns are shared evenly\<close>

text \<open>\<open>shrinks st s\<close>: nothing became available between \<open>st\<close> and \<open>s\<close>.\<close>

definition shrinks :: "plan_state \<Rightarrow> plan_state \<Rightarrow> bool" where
  "shrinks st s \<longleftrightarrow> wf_plan s \<and> (\<forall>org u. left s org u \<le> left st org u) \<and> (\<forall>u. has_room s u \<longrightarrow> has_room st u)"

lemma shrinks_refl: "wf_plan st \<Longrightarrow> shrinks st st"
  by (simp add: shrinks_def)

lemma shrinks_trans: "shrinks a b \<Longrightarrow> shrinks b c \<Longrightarrow> shrinks a c"
  unfolding shrinks_def by (meson order_trans)

lemma shrinks_commit: "wf_plan st \<Longrightarrow> shrinks st (commit_unit ordered org cs st)"
  by (auto simp: shrinks_def has_room_def plan_simps split: if_splits)

lemma shrinks_eligible: "wf_plan st \<Longrightarrow> shrinks st s \<Longrightarrow>
    set (eligible_units s org) \<subseteq> set (eligible_units st org)"
proof
  fix u
  assume wf: "wf_plan st" and sh: "shrinks st s" and "u \<in> set (eligible_units s org)"
  then have "0 < left s org u" "has_room s u" using eligible_iff [of s u org] by (auto simp: shrinks_def)
  moreover have "left s org u \<le> left st org u" "has_room s u \<longrightarrow> has_room st u"
    using sh by (simp_all add: shrinks_def)
  ultimately show "u \<in> set (eligible_units st org)" using eligible_iff [OF wf, of u org] by simp
qed

lemma shrinks_step:
  assumes "shrinks st s"
  shows "shrinks st (commit_unit ordered org cs s)"
proof -
  have "wf_plan s" using assms by (simp add: shrinks_def)
  from shrinks_trans [OF assms shrinks_commit [OF this]] show ?thesis .
qed

lemma shrinks_round:
  assumes "wf_plan st"
  shows "shrinks st (fst (org_round mw ordered orgs st progressed))"
  using shrinks_refl [OF assms] subset_refl
  by (rule org_round_induct [where I = "shrinks st"]) (rule shrinks_step)

lemma shrinks_loop:
  assumes "wf_plan st"
  shows "shrinks st (plan_loop mw ordered orgs st)"
  using shrinks_refl [OF assms] subset_refl
  by (rule plan_loop_induct [where I = "shrinks st"]) (rule shrinks_step)

lemma shrinks_wf: "shrinks st s \<Longrightarrow> wf_plan s"
  by (simp add: shrinks_def)

lemma org_turn_taken:
  assumes "org_turn ordered org st = (s, took)"
  shows "org_taken (ps_plan s) o' = org_taken (ps_plan st) o' + (if took \<and> o' = org then 1 else 0)"
    and "took = (eligible_units st org \<noteq> [])"
  using assms by (auto simp: org_turn_def Let_def plan_simps split: if_splits)

lemma org_turn_shrinks: "wf_plan st \<Longrightarrow> org_turn ordered org st = (s, took) \<Longrightarrow> shrinks st s"
  by (auto simp: org_turn_def Let_def shrinks_refl shrinks_commit split: if_splits)

lemma org_round_taken:
  assumes "org_round mw ordered orgs st progressed = (st', p')" and "distinct orgs"
  shows "org_taken (ps_plan st') o'
           \<le> org_taken (ps_plan st) o' + (if o' \<in> set orgs then 1 else 0)
       \<and> org_taken (ps_plan st) o' \<le> org_taken (ps_plan st') o'"
  using assms
proof (induction orgs arbitrary: st progressed)
  case Nil
  then show ?case by simp
next
  case (Cons org orgs)
  obtain s took where s: "org_turn ordered org st = (s, took)" by (cases "org_turn ordered org st")
  show ?case
  proof (cases "int (length (ps_plan st)) \<ge> mw")
    case True
    with Cons.prems show ?thesis by simp
  next
    case False
    with Cons.prems s have "org_round mw ordered orgs s (progressed \<or> took) = (st', p')" by simp
    from Cons.IH [OF this] Cons.prems(2) org_turn_taken(1) [OF s, of o'] show ?thesis
      by (auto split: if_splits)
  qed
qed

lemma org_round_turn:
  assumes "org_round mw ordered orgs st progressed = (st', p')" and "distinct orgs" and "wf_plan st"
    and "org \<in> set orgs" and "eligible_units st' org \<noteq> []"
  shows "org_taken (ps_plan st) org < org_taken (ps_plan st') org \<or> mw \<le> int (length (ps_plan st'))"
  using assms
proof (induction orgs arbitrary: st progressed)
  case Nil
  then show ?case by simp
next
  case (Cons a orgs)
  obtain s took where s: "org_turn ordered a st = (s, took)" by (cases "org_turn ordered a st")
  show ?case
  proof (cases "int (length (ps_plan st)) \<ge> mw")
    case True
    with Cons.prems show ?thesis by simp
  next
    case False
    with Cons.prems s have r: "org_round mw ordered orgs s (progressed \<or> took) = (st', p')" by simp
    have sh: "shrinks st s" by (rule org_turn_shrinks [OF Cons.prems(3) s])
    note mono = org_round_taken [OF r, of org]
    show ?thesis
    proof (cases "a = org")
      case True
      have "shrinks s st'" using shrinks_round [OF shrinks_wf [OF sh]] r by (metis fst_conv)
      from shrinks_eligible [OF Cons.prems(3) shrinks_trans [OF sh this], of org] Cons.prems(5)
      have "eligible_units st org \<noteq> []" by auto
      with org_turn_taken(1) [OF s, of org] org_turn_taken(2) [OF s] mono Cons.prems(2) True
      show ?thesis by auto
    next
      case False
      with Cons.prems Cons.IH [OF r _ shrinks_wf [OF sh]] org_turn_taken(1) [OF s, of org]
      show ?thesis by auto
    qed
  qed
qed

lemma plan_loop_fair:
  assumes "distinct orgs" and "wf_plan st" and "org \<in> set orgs"
    and "eligible_units (plan_loop mw ordered orgs st) org \<noteq> []"
  shows "org_taken (ps_plan (plan_loop mw ordered orgs st)) o' - org_taken (ps_plan st) o'
    \<le> org_taken (ps_plan (plan_loop mw ordered orgs st)) org - org_taken (ps_plan st) org + 1"
  using assms
proof (induction mw ordered orgs st rule: plan_loop.induct)
  case (1 mw ordered orgs st)
  obtain s p where s: "org_round mw ordered orgs st False = (s, p)"
    by (cases "org_round mw ordered orgs st False")
  note gain = org_round_taken [OF s "1.prems"(1)]
  have wfs: "wf_plan s" using shrinks_round [OF "1.prems"(2)] s by (metis fst_conv shrinks_wf)
  show ?case
  proof (cases "int (length (ps_plan st)) < mw \<and> p")
    case True
    with s have eq: "plan_loop mw ordered orgs st = plan_loop mw ordered orgs s"
      by (subst plan_loop.simps) simp
    show ?thesis
    proof (cases "int (length (ps_plan s)) < mw")
      case more: True
      have IH: "org_taken (ps_plan (plan_loop mw ordered orgs s)) o' - org_taken (ps_plan s) o'
          \<le> org_taken (ps_plan (plan_loop mw ordered orgs s)) org - org_taken (ps_plan s) org + 1"
        using True "1.prems"(1,3,4) wfs by (intro "1.IH" [OF _ s [symmetric]]) (simp_all add: eq)
      have "eligible_units s org \<noteq> []"
        using shrinks_eligible [OF wfs shrinks_loop [OF wfs, of mw ordered orgs], of org] "1.prems"(4)
        unfolding eq by auto
      from org_round_turn [OF s "1.prems"(1-3) this] more
      have "org_taken (ps_plan st) org < org_taken (ps_plan s) org" by simp
      with IH gain [of o'] show ?thesis unfolding eq by (auto split: if_splits)
    next
      case False
      then have "plan_loop mw ordered orgs s = s" by (subst plan_loop.simps) simp
      with gain [of o'] gain [of org] show ?thesis unfolding eq by (auto split: if_splits)
    qed
  next
    case False
    then have "plan_loop mw ordered orgs st = s \<or> plan_loop mw ordered orgs st = st"
      using s by (subst (1 2) plan_loop.simps) auto
    with gain [of o'] gain [of org] show ?thesis by (auto split: if_splits)
  qed
qed

subsection \<open>The fairness cursors\<close>

lemma json_string_not_null: "json_string s \<noteq> ''null''" "''null'' \<noteq> json_string s"
  by (simp_all add: json_string_def)

lemma org_cursor_key_inject: "(org_cursor_key a = org_cursor_key b) = (a = b)"
  by (auto simp: org_cursor_key_def json_string_not_null split: option.splits)

lemma org_cursor_key_class: "org_cursor_key a \<noteq> class_cursor_key b c"
proof
  assume eq: "org_cursor_key a = class_cursor_key b c"
  show False
  proof (cases a; cases b)
    fix s t
    assume "a = Some s" "b = Some t"
    with eq have "json_string s @ [] = json_string t @ '':'' @ (if c then ''True'' else ''False'')"
      by (simp add: org_cursor_key_def class_cursor_key_def)
    from json_string_prefix_free [OF this] show False by simp
  qed (use eq in \<open>simp_all add: org_cursor_key_def class_cursor_key_def json_string_def\<close>)
qed

lemma org_cursor_key_offset: "org_cursor_key a \<noteq> ''org_offset''"
  by (simp add: org_cursor_key_def json_string_def split: option.splits)

lemma commit_turn_cursor [plan_simps]:
  "dict_get (ps_cursors (commit_unit ordered org cs st)) (org_cursor_key o') 0 =
     dict_get (ps_cursors st) (org_cursor_key o') 0 + (if o' = org then 1 else 0)"
  using org_cursor_key_class [of o' org] org_cursor_key_offset [of o']
  by (auto simp: commit_unit_def Let_def org_cursor_key_inject dest: sym)

definition both_classes :: "plan_state \<Rightarrow> org_id \<Rightarrow> bool" where
  "both_classes st org \<longleftrightarrow> (\<forall>c. \<exists>u \<in> set (eligible_units st org). uk_class u = c)"

definition class_pattern :: "int \<Rightarrow> nat \<Rightarrow> bool list" where
  "class_pattern c0 n = map (\<lambda>i. (c0 + int i) mod 4 \<noteq> 3) [0..<n]"

lemma class_pattern_length [simp]: "length (class_pattern c0 n) = n"
  by (simp add: class_pattern_def)

abbreviation org_classes :: "dispatch_unit list \<Rightarrow> org_id \<Rightarrow> bool list" where
  "org_classes plan org \<equiv> map du_priority_class (filter (\<lambda>d. du_org_id d = org) plan)"

lemma turn_candidates_class:
  assumes "both_classes st org"
  shows "turn_candidates st org \<noteq> []"
    and "u \<in> set (turn_candidates st org) \<Longrightarrow>
      uk_class u = (dict_get (ps_cursors st) (org_cursor_key org) 0 mod 4 \<noteq> 3)"
proof -
  from assms obtain v where "v \<in> set (eligible_units st org)"
    "uk_class v = (dict_get (ps_cursors st) (org_cursor_key org) 0 mod 4 \<noteq> 3)"
    unfolding both_classes_def by blast
  then have "filter (\<lambda>u. uk_class u = (dict_get (ps_cursors st) (org_cursor_key org) 0 mod 4 \<noteq> 3))
      (eligible_units st org) \<noteq> []"
    by (auto simp: filter_empty_conv)
  then show "turn_candidates st org \<noteq> []"
    and "u \<in> set (turn_candidates st org) \<Longrightarrow>
      uk_class u = (dict_get (ps_cursors st) (org_cursor_key org) 0 mod 4 \<noteq> 3)"
    by (auto simp: turn_candidates_def Let_def)
qed

text \<open>The cursor counts the organization's turns, and its classes follow the pattern.\<close>

definition class_inv :: "int \<Rightarrow> org_id \<Rightarrow> plan_state \<Rightarrow> bool" where
  "class_inv c0 org st \<longleftrightarrow> wf_plan st \<and>
     dict_get (ps_cursors st) (org_cursor_key org) 0 = c0 + org_taken (ps_plan st) org \<and>
     (both_classes st org \<longrightarrow>
        org_classes (ps_plan st) org = class_pattern c0 (length (org_classes (ps_plan st) org)))"

lemma class_inv_commit:
  assumes inv: "class_inv c0 org st" and cs: "turn_candidates st a \<noteq> []"
  shows "class_inv c0 org (commit_unit ordered a (turn_candidates st a) st)"
proof -
  let ?c = "commit_unit ordered a (turn_candidates st a) st"
  let ?n = "length (org_classes (ps_plan st) org)"
  have wf: "wf_plan st" using inv by (simp add: class_inv_def)
  have pat: "org_classes (ps_plan ?c) org = class_pattern c0 (length (org_classes (ps_plan ?c) org))"
    if both: "both_classes ?c org"
  proof -
    have b: "both_classes st org"
      using both shrinks_eligible [OF wf shrinks_commit [OF wf], of ordered a "turn_candidates st a" org]
      unfolding both_classes_def by blast
    with inv have IH: "org_classes (ps_plan st) org = class_pattern c0 ?n"
      unfolding class_inv_def by blast
    show ?thesis
    proof (cases "a = org")
      case True
      have "uk_class (picked_unit a (turn_candidates st a) st) = ((c0 + int ?n) mod 4 \<noteq> 3)"
        using turn_candidates_class(2) [OF b] picked_in [OF cs] inv True
        by (simp add: class_inv_def)
      with IH True show ?thesis by (simp add: commit_plan class_pattern_def)
    next
      case False
      with IH show ?thesis by (simp add: commit_plan)
    qed
  qed
  with inv show ?thesis
    unfolding class_inv_def by (simp add: commit_wf commit_turn_cursor commit_plan)
qed

subsection \<open>What could still be launched\<close>

text \<open>
  A unit of an organization's demand that the plan neither served in full nor was kept from
  serving by the queue's or the lane's capacity.
\<close>

definition unserved ::
  "(demand_key, int) dict \<Rightarrow> (run_key, int) dict \<Rightarrow> (string, int) dict \<Rightarrow> (string, int) dict \<Rightarrow>
   (string, int) dict \<Rightarrow> (string, int) dict \<Rightarrow> dispatch_unit list \<Rightarrow> org_id \<Rightarrow> unit_key \<Rightarrow> bool" where
  "unserved demand running limits held ll hl plan org u \<longleftrightarrow>
     taken_of plan org u < dict_get demand (org, u) 0 \<and>
     queue_taken plan (uk_queue u) < queue_capacity running limits held (uk_queue u) \<and>
     (case map_of ll (uk_lane u) of None \<Rightarrow> True
      | Some limit \<Rightarrow> lane_taken plan (uk_lane u) < lane_room running hl (uk_lane u) limit)"

lemma global_capacity_demanded:
  assumes "0 < dict_get (dict_get (bucket_demand d) org []) u 0"
  shows "dict_get (global_capacity (bucket_demand d) running limits held) (uk_queue u) 0
    = queue_capacity running limits held (uk_queue u)"
proof -
  let ?bk = "dict_get (bucket_demand d) org []"
  have o: "(org, ?bk) \<in> set (bucket_demand d)"
    using bucket_demand_pos_keys [OF assms] by (intro dict_has_in) (simp add: dict_has_keys)
  have "u \<in> set (dict_keys ?bk)"
    using assms dict_get_missing [of ?bk u 0] by (auto simp: dict_has_keys)
  with o have "uk_queue u \<in> set (concat (map (\<lambda>(org, bk). map uk_queue (dict_keys bk)) (bucket_demand d)))"
    by force
  then show ?thesis unfolding global_capacity_def dict_get_map_remdups by simp
qed

lemma unserved_eligible:
  assumes d: "distinct (dict_keys d)" and inv: "plan_inv
      (initial_plan (bucket_demand d) running limits held ll hl cursors) st"
    and un: "unserved d running limits held ll hl (ps_plan st) org u"
  shows "u \<in> set (eligible_units st org)" and "org \<in> set (dict_keys (bucket_demand d))"
proof -
  let ?s0 = "initial_plan (bucket_demand d) running limits held ll hl cursors"
  have wf: "wf_plan st" and dc: "demand_conserved ?s0 st" and gc: "global_conserved ?s0 st"
    and lc: "lane_conserved ?s0 st" using inv by (simp_all add: plan_inv_def)
  have s0: "left ?s0 org u = max 0 (dict_get d (org, u) 0)"
    using bucket_demand_get [OF d] by (simp add: left_def initial_plan_def)
  have eq: "left st org u + taken_of (ps_plan st) org u = left ?s0 org u"
    using dc by (simp add: demand_conserved_def)
  have pos: "0 < left st org u" using un eq unfolding s0 unserved_def by auto
  then have pos0: "0 < dict_get (dict_get (bucket_demand d) org []) u 0"
    using eq by (simp add: left_def initial_plan_def)
  then show "org \<in> set (dict_keys (bucket_demand d))" by (rule bucket_demand_pos_keys)
  have "dict_get (ps_global st) (uk_queue u) 0 + queue_taken (ps_plan st) (uk_queue u)
      = queue_capacity running limits held (uk_queue u)"
    using gc global_capacity_demanded [OF pos0, of running limits held]
    by (simp add: global_conserved_def initial_plan_def)
  then have g: "0 < dict_get (ps_global st) (uk_queue u) 0"
    using un by (simp add: unserved_def)
  have l: "0 < dict_get (ps_lane st) (uk_lane u) 1"
  proof (cases "map_of ll (uk_lane u)")
    case None
    then have "\<not> dict_has (ps_lane st) (uk_lane u)"
      using lc by (simp add: lane_conserved_def initial_plan_def lane_capacity_has dict_has_def lane_capacity_get)
    then show ?thesis by (simp add: dict_get_missing)
  next
    case (Some limit)
    then have "dict_get (ps_lane st) (uk_lane u) 1 + lane_taken (ps_plan st) (uk_lane u)
        = lane_room running hl (uk_lane u) limit"
      using lc by (simp add: lane_conserved_def initial_plan_def dict_has_def dict_get_def lane_capacity_get)
    then show ?thesis using un Some by (simp add: unserved_def)
  qed
  from pos g l show "u \<in> set (eligible_units st org)"
    by (simp add: eligible_iff [OF wf] has_room_def)
qed

lemma wf_initial_plan: "wf_plan (initial_plan (bucket_demand d) running limits held ll hl cursors)"
  using plan_inv_initial by (simp add: plan_inv_def)

lemma unserved_final:
  assumes "distinct (dict_keys d)"
    and "unserved d running limits held ll hl (ps_plan (final_plan d running limits mw held ll hl cursors)) org u"
  shows "u \<in> set (eligible_units (final_plan d running limits mw held ll hl cursors) org)"
    and "org \<in> set (rotated_orgs (ordered_orgs (bucket_demand d)) cursors)"
  using unserved_eligible [OF assms(1) final_plan_inv assms(2)] by (simp_all add: ordered_orgs_set)

lemma bucket_empty_unserved:
  assumes "distinct (dict_keys d)" and "bucket_demand d = []"
  shows "\<not> unserved d running limits held ll hl [] org u"
proof -
  have "dict_get d (org, u) 0 \<le> 0" using bucket_demand_get [OF assms(1), of org u] assms(2) by simp
  then show ?thesis by (simp add: unserved_def)
qed

lemma queue_capacity_bound:
  "queue_taken (fst (build_spawn_plan demand running limits mw held ll hl cursors)) qk
     \<le> queue_capacity running limits held qk"
proof (cases rule: build_spawn_plan_cases [of demand running limits mw held ll hl cursors])
  case empty
  then show ?thesis by (simp add: queue_capacity_def)
next
  case loop
  let ?st = "final_plan demand running limits mw held ll hl cursors"
  have "global_conserved (initial_plan (bucket_demand demand) running limits held ll hl cursors) ?st"
    using final_plan_inv by (simp add: plan_inv_def)
  from global_conservedD [OF this, of qk] have "queue_taken (ps_plan ?st) qk
      \<le> dict_get (global_capacity (bucket_demand demand) running limits held) qk 0"
    by (simp add: initial_plan_def)
  also note global_capacity_le
  finally show ?thesis using loop(1) by simp
qed

lemma lane_capacity_bound:
  assumes "map_of ll lane = Some limit"
  shows "lane_taken (fst (build_spawn_plan demand running limits mw held ll hl cursors)) lane
     \<le> lane_room running hl lane limit"
proof (cases rule: build_spawn_plan_cases [of demand running limits mw held ll hl cursors])
  case empty
  then show ?thesis by (simp add: lane_room_def)
next
  case loop
  let ?st = "final_plan demand running limits mw held ll hl cursors"
  have "lane_conserved (initial_plan (bucket_demand demand) running limits held ll hl cursors) ?st"
    using final_plan_inv by (simp add: plan_inv_def)
  from lane_conservedD [OF this, of lane] assms loop(1) show ?thesis
    by (simp add: initial_plan_def lane_capacity_has dict_has_def dict_get_def lane_capacity_get)
qed

lemma plan_length_bound:
  "int (length (fst (build_spawn_plan demand running limits mw held ll hl cursors))) \<le> max mw 0"
proof (cases rule: build_spawn_plan_cases [of demand running limits mw held ll hl cursors])
  case loop
  then show ?thesis
    using plan_loop_bound [of "initial_plan (bucket_demand demand) running limits held ll hl cursors" mw]
    by (simp add: final_plan_def Let_def initial_plan_def)
qed simp

subsection \<open>Properties of the planner\<close>

text \<open>
  C1. The shared model cap is never oversubscribed: the workers planned for a queue key are at
  most what its limit leaves over the larger of its running jobs and its held slot leases.
\<close>

theorem spawn_plan_queue_capacity:
  "queue_taken (fst (build_spawn_plan demand running limits mw held ll hl cursors)) qk
     \<le> max 0 (dict_get limits qk 0
        - max (sum_list (map snd (filter (\<lambda>(k, n). fst k = qk) running))) (dict_get held qk 0))"
  using queue_capacity_bound [where running = running and limits = limits and held = held and qk = qk]
  by (simp add: queue_capacity_def running_by_queue_key_def sum_by_get max.commute)

text \<open>
  A lane with a provider-wide limit is never oversubscribed: the workers planned for the
  lane are at most what the limit leaves over its running jobs and held capacity leases.
\<close>

theorem spawn_plan_lane_capacity:
  assumes "map_of ll lane = Some limit"
  shows "lane_taken (fst (build_spawn_plan demand running limits mw held ll hl cursors)) lane
     \<le> max 0 (limit
        - max (sum_list (map snd (filter (\<lambda>(k, n). snd (snd k) = lane) running))) (dict_get hl lane 0))"
  using lane_capacity_bound [OF assms, where demand = demand and running = running and hl = hl]
  by (simp add: lane_room_def running_by_lane_def sum_by_get max.commute)

theorem spawn_plan_lane_capacity_witness:
  "lane_taken (fst (build_spawn_plan [((None, ''q'', ''v'', ''ec2_trial'', True), 5)]
       [((''p'', ''v'', ''ec2_trial''), 1)] [(''q'', 9)] 9 [] [(''ec2_trial'', 3)] [] [])) ''ec2_trial''
     \<le> 2"
proof -
  have "map_of [(''ec2_trial'', 3)] ''ec2_trial'' = Some (3 :: int)" by simp
  from spawn_plan_lane_capacity [OF this, of "[((None, ''q'', ''v'', ''ec2_trial'', True), 5)]"
      "[((''p'', ''v'', ''ec2_trial''), 1)]" "[(''q'', 9)]" 9 "[]" "[]" "[]"]
  show ?thesis by simp
qed

text \<open>
  The plan never exceeds the poll's budget, and never launches more workers for a unit of
  an organization than it has queued jobs (the dictionary of demands has distinct keys).
\<close>

theorem spawn_plan_bounds:
  assumes "distinct (dict_keys demand)"
  shows "int (length (fst (build_spawn_plan demand running limits mw held ll hl cursors))) \<le> max mw 0 \<and>
    taken_of (fst (build_spawn_plan demand running limits mw held ll hl cursors)) org u
      \<le> max 0 (dict_get demand (org, u) 0)" (is "?len \<and> ?dem")
proof
  show ?len by (rule plan_length_bound)
  show ?dem
  proof (cases rule: build_spawn_plan_cases [of demand running limits mw held ll hl cursors])
    case loop
    let ?st = "final_plan demand running limits mw held ll hl cursors"
    have "demand_conserved (initial_plan (bucket_demand demand) running limits held ll hl cursors) ?st"
      using final_plan_inv by (simp add: plan_inv_def)
    from demand_conservedD [OF this, of org u] loop(1) bucket_demand_get [OF assms, of org u]
    show ?thesis by (simp add: left_def initial_plan_def)
  qed simp
qed

theorem spawn_plan_bounds_witness:
  "int (length (fst (build_spawn_plan [((Some ''o'', ''q'', ''v'', ''l'', True), 5)]
      [] [(''q'', 9)] 3 [] [] [] []))) \<le> max 3 0 \<and>
   taken_of (fst (build_spawn_plan [((Some ''o'', ''q'', ''v'', ''l'', True), 5)]
      [] [(''q'', 9)] 3 [] [] [] [])) (Some ''o'') (''q'', ''v'', ''l'', True) \<le> 5"
proof -
  have "distinct (dict_keys [((Some ''o'', ''q'', ''v'', ''l'', True), 5 :: int)])" by simp
  from spawn_plan_bounds [OF this, of "[]" "[(''q'', 9)]" 3 "[]" "[]" "[]" "[]" "Some ''o''"
      "(''q'', ''v'', ''l'', True)"]
  show ?thesis by (simp add: dict_get_def)
qed

text \<open>
  C12. The plan is work conserving: while some organization has a queued job whose model queue
  and lane still have capacity, the plan stops only because the poll's budget is used up.
\<close>

theorem spawn_plan_work_conserving:
  assumes "distinct (dict_keys demand)"
    and "unserved demand running limits held ll hl
      (fst (build_spawn_plan demand running limits mw held ll hl cursors)) org u"
  shows "mw \<le> int (length (fst (build_spawn_plan demand running limits mw held ll hl cursors)))"
proof (cases rule: build_spawn_plan_cases [of demand running limits mw held ll hl cursors])
  case empty
  from empty(1) assms(2) have "unserved demand running limits held ll hl [] org u" by simp
  with bucket_empty_unserved [OF assms(1)] empty show ?thesis by fastforce
next
  case loop
  with assms(2) have un: "unserved demand running limits held ll hl
      (ps_plan (final_plan demand running limits mw held ll hl cursors)) org u" by simp
  from unserved_final [OF assms(1) un] plan_loop_exhausts show ?thesis
    unfolding loop(1) final_plan_def Let_def fst_conv
    by (metis (no_types, lifting) empty_iff empty_set not_le)
qed

theorem spawn_plan_work_conserving_witness:
  "int (length (fst (build_spawn_plan [((Some ''o'', ''q'', ''v'', ''l'', True), 5)]
      [] [(''q'', 9)] 2 [] [] [] []))) \<ge> 2"
proof -
  let ?d = "[((Some ''o'', ''q'', ''v'', ''l'', True), 5 :: int)]"
  have d: "distinct (dict_keys ?d)" by simp
  have un: "unserved ?d [] [(''q'', 9)] [] [] []
      (fst (build_spawn_plan ?d [] [(''q'', 9)] 2 [] [] [] [])) (Some ''o'') (''q'', ''v'', ''l'', True)"
    by code_simp
  show ?thesis by (rule spawn_plan_work_conserving [OF d un])
qed

text \<open>
  C13. Organizations are served in turns: one that still has launchable work when the plan is
  full got at most one worker fewer than any other organization.
\<close>

theorem spawn_plan_fair:
  assumes "distinct (dict_keys demand)"
    and "unserved demand running limits held ll hl
      (fst (build_spawn_plan demand running limits mw held ll hl cursors)) org u"
  shows "org_taken (fst (build_spawn_plan demand running limits mw held ll hl cursors)) other
     \<le> org_taken (fst (build_spawn_plan demand running limits mw held ll hl cursors)) org + 1"
proof (cases rule: build_spawn_plan_cases [of demand running limits mw held ll hl cursors])
  case empty
  then show ?thesis by simp
next
  case loop
  let ?buckets = "bucket_demand demand"
  let ?st0 = "initial_plan ?buckets running limits held ll hl cursors"
  have dist: "distinct (rotated_orgs (ordered_orgs ?buckets) cursors)"
    by (simp add: ordered_orgs_distinct)
  from loop assms(2) have un: "unserved demand running limits held ll hl
      (ps_plan (final_plan demand running limits mw held ll hl cursors)) org u" by simp
  from unserved_final [OF assms(1) un]
  have "eligible_units (final_plan demand running limits mw held ll hl cursors) org \<noteq> []"
    and "org \<in> set (rotated_orgs (ordered_orgs ?buckets) cursors)" by auto
  from plan_loop_fair [where mw = mw and ordered = "ordered_orgs ?buckets" and o' = other,
      OF dist wf_initial_plan this(2)] this(1)
  show ?thesis unfolding loop(1) final_plan_def Let_def by (simp add: initial_plan_def)
qed

theorem spawn_plan_fair_witness:
  "org_taken (fst (build_spawn_plan [((Some ''a'', ''q'', ''v'', ''l'', True), 5),
       ((Some ''b'', ''q'', ''v'', ''l'', False), 1)] [] [(''q'', 9)] 3 [] [] [] [])) (Some ''b'')
   \<le> org_taken (fst (build_spawn_plan [((Some ''a'', ''q'', ''v'', ''l'', True), 5),
       ((Some ''b'', ''q'', ''v'', ''l'', False), 1)] [] [(''q'', 9)] 3 [] [] [] [])) (Some ''a'') + 1"
proof -
  let ?d = "[((Some ''a'', ''q'', ''v'', ''l'', True), 5 :: int), ((Some ''b'', ''q'', ''v'', ''l'', False), 1)]"
  have d: "distinct (dict_keys ?d)" by simp
  have un: "unserved ?d [] [(''q'', 9)] [] [] []
      (fst (build_spawn_plan ?d [] [(''q'', 9)] 3 [] [] [] [])) (Some ''a'') (''q'', ''v'', ''l'', True)"
    by code_simp
  show ?thesis by (rule spawn_plan_fair [OF d un])
qed

text \<open>
  Analysis and ordinary work of one organization share its turns three to one: while both
  classes have launchable work, the classes of the workers it is given follow the turn
  counter, three of the positive-priority class and then one ordinary, across polls.
\<close>

theorem spawn_plan_class_turns:
  assumes "distinct (dict_keys demand)"
    and "unserved demand running limits held ll hl
      (fst (build_spawn_plan demand running limits mw held ll hl cursors)) org u"
    and "unserved demand running limits held ll hl
      (fst (build_spawn_plan demand running limits mw held ll hl cursors)) org v"
    and "uk_class u" and "\<not> uk_class v"
  shows "org_classes (fst (build_spawn_plan demand running limits mw held ll hl cursors)) org =
    class_pattern (dict_get cursors (org_cursor_key org) 0)
      (length (org_classes (fst (build_spawn_plan demand running limits mw held ll hl cursors)) org))"
proof (cases rule: build_spawn_plan_cases [of demand running limits mw held ll hl cursors])
  case empty
  then show ?thesis by (simp add: class_pattern_def)
next
  case loop
  let ?st = "final_plan demand running limits mw held ll hl cursors"
  let ?c0 = "dict_get cursors (org_cursor_key org) 0"
  from loop assms(2,3) have "u \<in> set (eligible_units ?st org)" "v \<in> set (eligible_units ?st org)"
    by (auto intro!: unserved_final(1) [OF assms(1)])
  with assms(4,5) have both: "both_classes ?st org"
    unfolding both_classes_def by (metis (full_types))
  have "class_inv ?c0 org (initial_plan (bucket_demand demand) running limits held ll hl cursors)"
    using wf_initial_plan by (simp add: class_inv_def initial_plan_def class_pattern_def)
  then have "class_inv ?c0 org ?st"
    unfolding final_plan_def Let_def using subset_refl
    by (rule plan_loop_induct [where I = "class_inv ?c0 org"]) (rule class_inv_commit)
  with both show ?thesis unfolding loop(1) class_inv_def fst_conv by blast
qed

theorem spawn_plan_class_turns_witness:
  "org_classes (fst (build_spawn_plan [((None, ''q'', ''v'', ''l'', True), 5),
      ((None, ''q'', ''v'', ''l'', False), 5)] [] [(''q'', 9)] 5 [] [] [] [(''null'', 2)])) None
   = [True, False, True, True, True]"
proof -
  let ?d = "[((None, ''q'', ''v'', ''l'', True), 5 :: int), ((None, ''q'', ''v'', ''l'', False), 5)]"
  let ?plan = "fst (build_spawn_plan ?d [] [(''q'', 9)] 5 [] [] [] [(''null'', 2)])"
  have d: "distinct (dict_keys ?d)" by simp
  have u: "unserved ?d [] [(''q'', 9)] [] [] [] ?plan None (''q'', ''v'', ''l'', True)" by code_simp
  have v: "unserved ?d [] [(''q'', 9)] [] [] [] ?plan None (''q'', ''v'', ''l'', False)" by code_simp
  have n: "length (org_classes ?plan None) = 5" by code_simp
  from spawn_plan_class_turns [OF d u v] show ?thesis
    unfolding n by (simp add: org_cursor_key_def dict_get_def class_pattern_def upt_rec)
qed

end
