(* ===== verification/Dispatch_Cycle.thy ===== *)
theory Dispatch_Cycle
  imports Spawn_Plan "HOL-Library.Multiset"
begin

text \<open>
  The dispatch cycle of \<open>dispatch/cycle.py\<close>: admission of a spawn plan, the reasons for
  waiting, the shared planning step, one tick of the cycle with its telemetry record, the
  reattachment and reclamation of workers, and the wake-up trigger as a state machine. The
  readers of the database (\<open>_discover\<close>, \<open>_counts\<close>, \<open>_held\<close>, the limits) and the
  dispatcher are arguments, as they are in the code; each may raise.
\<close>

subsection \<open>Admission\<close>

record admission =
  ad_admitted :: bool
  ad_reason :: string

definition admit_all :: "string \<Rightarrow> admission" where
  "admit_all queue_key = \<lparr>ad_admitted = True, ad_reason = []\<rparr>"

fun admit_loop ::
  "(string \<Rightarrow> admission) \<Rightarrow> string list \<Rightarrow> string list \<Rightarrow> (string, string) dict \<Rightarrow>
   string list \<times> (string, string) dict" where
  "admit_loop admit [] admitted rejected = (admitted, rejected)"
| "admit_loop admit (k # ks) admitted rejected =
     (if dict_has rejected k then admit_loop admit ks admitted rejected
      else let decision = admit k in
        if ad_admitted decision then admit_loop admit ks (admitted @ [k]) rejected
        else admit_loop admit ks admitted (dict_set rejected k (ad_reason decision)))"

definition admit_spawn_plan ::
  "string list \<Rightarrow> (string \<Rightarrow> admission) \<Rightarrow> string list \<times> (string, string) dict" where
  "admit_spawn_plan spawn_plan admit = admit_loop admit spawn_plan [] []"

subsection \<open>Reasons for waiting\<close>

definition slot_reason :: "int \<Rightarrow> int \<Rightarrow> string" where
  "slot_reason limit running =
     ''waiting for slot (limit '' @ string_of_int limit @ '', running '' @ string_of_int running @ '')''"

definition cap_reason :: "int \<Rightarrow> string" where
  "cap_reason max_workers = ''spawn cap reached (max '' @ string_of_int max_workers @ '')''"

definition why_step ::
  "(string, int) dict \<Rightarrow> (string, int) dict \<Rightarrow> (string, int) dict \<Rightarrow> int \<Rightarrow>
   (string, string) dict \<Rightarrow> string \<times> int \<Rightarrow> (string, string) dict" where
  "why_step running limits spawned_counts max_workers why kq =
     (case kq of (queue_key, queued) \<Rightarrow>
        if queued \<le> 0 \<or> dict_get spawned_counts queue_key 0 \<ge> queued \<or> dict_has why queue_key
        then why
        else let limit = dict_get limits queue_key 0; run = dict_get running queue_key 0 in
          if limit - run \<le> 0 then dict_set why queue_key (slot_reason limit run)
          else dict_set why queue_key (cap_reason max_workers))"

definition compute_why_waiting ::
  "(string, int) dict \<Rightarrow> (string, int) dict \<Rightarrow> (string, int) dict \<Rightarrow> string list \<Rightarrow> int \<Rightarrow>
   (string, string) dict \<Rightarrow> (string, string) dict" where
  "compute_why_waiting queued running limits spawned_keys max_workers base_reasons =
     foldl (why_step running limits (counter spawned_keys) max_workers) base_reasons queued"

subsection \<open>The shared planning step\<close>

record dispatch_plan =
  dp_queue_units :: "run_key list"
  dp_queue_keys :: "string list"
  dp_queued_by_org_queue :: "(demand_key, int) dict"
  dp_running_by_queue :: "(run_key, int) dict"
  dp_queued_by_queue :: "(string, int) dict"
  dp_running_by_queue_key :: "(string, int) dict"
  dp_held_by_queue_key :: "(string, int) dict"
  dp_concurrency_limits :: "(string, int) dict"
  dp_unit_plan :: "dispatch_unit list"

record planner_inputs =
  pi_discover :: "exc + run_key list"
  pi_counts :: "string list \<Rightarrow> exc + (demand_key, int) dict \<times> (run_key, int) dict"
  pi_held :: "string list \<Rightarrow> exc + (string, int) dict"
  pi_limits :: "string list \<Rightarrow> exc + (string, int) dict"

abbreviation demand_queue :: "demand_key \<Rightarrow> string" where "demand_queue k \<equiv> fst (snd k)"

definition deduct_pending :: "(demand_key, int) dict \<Rightarrow> (demand_key, int) dict \<Rightarrow> (demand_key, int) dict" where
  "deduct_pending pending ready = map (\<lambda>(k, n). (k, max 0 (n - dict_get pending k 0))) ready"

definition build_dispatch_plan ::
  "planner_inputs \<Rightarrow> int \<Rightarrow> (string, int) dict \<Rightarrow> (string, int) dict \<Rightarrow> (string, int) dict \<Rightarrow>
   (demand_key, int) dict \<Rightarrow> exc + dispatch_plan \<times> (string, int) dict" where
  "build_dispatch_plan pi max_workers limits_lane held_lane cursors pending =
     bind_err (pi_discover pi) (\<lambda>units.
     let queue_keys = remdups (map fst units) in
     bind_err (pi_counts pi queue_keys) (\<lambda>(ready, running).
     let queued = deduct_pending pending ready in
     bind_err (pi_held pi queue_keys) (\<lambda>held.
     bind_err (pi_limits pi queue_keys) (\<lambda>limits.
     let (unit_plan, cursors') =
           build_spawn_plan queued running limits max_workers held limits_lane held_lane cursors
     in Inr (\<lparr>dp_queue_units = units, dp_queue_keys = queue_keys,
              dp_queued_by_org_queue = queued, dp_running_by_queue = running,
              dp_queued_by_queue = sum_by demand_queue ready,
              dp_running_by_queue_key = running_by_queue_key running,
              dp_held_by_queue_key = held, dp_concurrency_limits = limits,
              dp_unit_plan = unit_plan\<rparr>, cursors')))))"

definition inflight_by_queue_key :: "dispatch_plan \<Rightarrow> string list \<Rightarrow> (string, int) dict" where
  "inflight_by_queue_key plan spawned_keys =
     (let with_held = foldl (\<lambda>d (k, held). dict_set d k (max (dict_get d k 0) held))
            (dp_running_by_queue_key plan) (dp_held_by_queue_key plan)
      in foldl (\<lambda>d (k, spawned). dict_set d k (dict_get d k 0 + spawned))
            with_held (counter spawned_keys))"

definition compute_post_spawn_why_waiting ::
  "dispatch_plan \<Rightarrow> string list \<Rightarrow> int \<Rightarrow> (string, string) dict \<Rightarrow> (string, string) dict" where
  "compute_post_spawn_why_waiting plan spawned_keys max_workers base_reasons =
     compute_why_waiting (dp_queued_by_queue plan) (inflight_by_queue_key plan spawned_keys)
       (dp_concurrency_limits plan) spawned_keys max_workers base_reasons"

subsection \<open>Workers and dispatchers\<close>

record worker_handle =
  wh_provider :: string
  wh_queue_key :: string
  wh_id :: string
  wh_provisional :: bool
  wh_metadata :: "(string, string) dict"

text \<open>The mapping a handle is serialized to; every key but \<open>provider\<close> and \<open>queue_key\<close> may be absent.\<close>

record handle_data =
  hd_provider :: "string option"
  hd_queue_key :: "string option"
  hd_id :: "string option"
  hd_provisional :: "bool option"
  hd_metadata :: "(string, string) dict option"

definition serialize :: "worker_handle \<Rightarrow> handle_data" where
  "serialize h = \<lparr>hd_provider = Some (wh_provider h), hd_queue_key = Some (wh_queue_key h),
     hd_id = Some (wh_id h), hd_provisional = Some (wh_provisional h),
     hd_metadata = Some (wh_metadata h)\<rparr>"

definition deserialize :: "handle_data \<Rightarrow> exc + worker_handle" where
  "deserialize d =
     (case hd_provider d of
        None \<Rightarrow> Inl (OtherError ''KeyError: provider'')
      | Some p \<Rightarrow>
          (case hd_queue_key d of
             None \<Rightarrow> Inl (OtherError ''KeyError: queue_key'')
           | Some q \<Rightarrow>
               Inr \<lparr>wh_provider = p, wh_queue_key = q,
                 wh_id = (case hd_id d of None \<Rightarrow> [] | Some i \<Rightarrow> i),
                 wh_provisional = (case hd_provisional d of None \<Rightarrow> True | Some b \<Rightarrow> b),
                 wh_metadata = (case hd_metadata d of None \<Rightarrow> [] | Some m \<Rightarrow> m)\<rparr>))"

lemma serialize_roundtrip: "deserialize (serialize h) = Inr h"
  by (cases h) (simp add: serialize_def deserialize_def)

text \<open>A dispatcher: \<open>spawn\<close>, and \<open>spawn_units\<close> where the backend has that attribute.\<close>

record dispatcher =
  dr_name :: string
  dr_spawn :: "string list \<Rightarrow> exc + worker_handle list"
  dr_spawn_units :: "(run_key list \<Rightarrow> exc + worker_handle list) option"
  dr_recover :: "handle_data \<Rightarrow> exc + worker_handle option"

subsection \<open>One tick\<close>

datatype cycle_outcome = Cycle_success | Cycle_cancelled | Cycle_skipped | Cycle_error

record cycle_report =
  cr_workers_spawned :: nat
  cr_spawn_cap_reached :: bool
  cr_outcome :: cycle_outcome

record cycle_result =
  cy_queue_keys :: "string list"
  cy_spawn_plan :: "string list"
  cy_admitted :: "string list"
  cy_handles :: "worker_handle list"
  cy_why_waiting :: "(string, string) dict"
  cy_queued_total :: int
  cy_running_total :: int

fun outcome_of :: "exc \<Rightarrow> cycle_outcome" where
  "outcome_of CancelledError = Cycle_cancelled"
| "outcome_of OSError = Cycle_skipped"
| "outcome_of (OtherError m) = Cycle_error"

definition dict_sum :: "('k, int) dict \<Rightarrow> int" where
  "dict_sum d = sum_list (map snd d)"

definition spawn_step ::
  "dispatcher \<Rightarrow> dispatch_plan \<Rightarrow> string list \<Rightarrow> exc + worker_handle list" where
  "spawn_step dr plan admitted =
     (let units = map (\<lambda>d. (du_queue_key d, du_harbor_variant_id d, du_execution_lane d))
            (filter (\<lambda>d. du_queue_key d \<in> set admitted) (dp_unit_plan plan))
      in case dr_spawn_units dr of
           Some spawner \<Rightarrow> spawner units
         | None \<Rightarrow> dr_spawn dr admitted)"

text \<open>
  The body of the \<open>try\<close>, then the telemetry of the \<open>finally\<close>: the report counts the
  handles assigned before an exception left the body. A failure of the \<open>on_stage\<close> hook is
  swallowed unless it is a cancellation.
\<close>

definition run_dispatch_cycle ::
  "dispatcher \<Rightarrow> planner_inputs \<Rightarrow> int \<Rightarrow> (string \<Rightarrow> admission) \<Rightarrow>
   (string list \<Rightarrow> (string, string) dict \<Rightarrow> exc option) option \<Rightarrow>
   (exc + (string, int) dict \<times> (string, int) dict) option \<Rightarrow>
   (exc + cycle_result) \<times> cycle_report" where
  "run_dispatch_cycle dr pi max_workers admit on_stage capacity_by_lane =
     (let raising = (\<lambda>n cap e. (Inl e, \<lparr>cr_workers_spawned = n, cr_spawn_cap_reached = cap,
            cr_outcome = outcome_of e\<rparr>))
      in case (case capacity_by_lane of None \<Rightarrow> Inr ([], []) | Some c \<Rightarrow> c) of
        Inl e \<Rightarrow> raising 0 False e
      | Inr (limits_lane, held_lane) \<Rightarrow>
       (case build_dispatch_plan pi max_workers limits_lane held_lane [] [] of
          Inl e \<Rightarrow> raising 0 False e
        | Inr (plan, _) \<Rightarrow>
         (let spawn_plan = map du_queue_key (dp_unit_plan plan);
              cap = (int (length spawn_plan) \<ge> max_workers);
              (admitted, rejected) = admit_spawn_plan spawn_plan admit
          in case spawn_step dr plan admitted of
               Inl e \<Rightarrow> raising 0 cap e
             | Inr handles \<Rightarrow>
              (let spawned_keys = map wh_queue_key handles;
                   why = compute_post_spawn_why_waiting plan spawned_keys max_workers rejected;
                   result = \<lparr>cy_queue_keys = dp_queue_keys plan, cy_spawn_plan = spawn_plan,
                     cy_admitted = admitted, cy_handles = handles, cy_why_waiting = why,
                     cy_queued_total = dict_sum (dp_queued_by_queue plan),
                     cy_running_total = dict_sum (dp_running_by_queue plan)\<rparr>;
                   ok = (Inr result, \<lparr>cr_workers_spawned = length handles,
                     cr_spawn_cap_reached = cap, cr_outcome = Cycle_success\<rparr>)
               in case on_stage of
                    None \<Rightarrow> ok
                  | Some hook \<Rightarrow>
                      (case hook spawned_keys why of
                         None \<Rightarrow> ok
                       | Some e \<Rightarrow> if is_Exception e then ok else raising (length handles) cap e)))))"

subsection \<open>Reattachment and reclamation\<close>

fun reattach_in_flight_workers ::
  "dispatcher \<Rightarrow> (string \<times> string) list \<Rightarrow> exc + worker_handle list" where
  "reattach_in_flight_workers dr [] = Inr []"
| "reattach_in_flight_workers dr ((queue_key, handle_id) # rows) =
     bind_err (dr_recover dr (serialize
       \<lparr>wh_provider = dr_name dr, wh_queue_key = queue_key, wh_id = handle_id,
        wh_provisional = False, wh_metadata = []\<rparr>)) (\<lambda>handle.
     bind_err (reattach_in_flight_workers dr rows) (\<lambda>recovered.
     Inr (case handle of None \<Rightarrow> recovered | Some h \<Rightarrow> h # recovered)))"

text \<open>\<open>managed\<close> is \<open>None\<close> for a dispatcher without \<open>list_managed\<close>.\<close>

definition leaked_workers :: "worker_handle list option \<Rightarrow> string list \<Rightarrow> worker_handle list" where
  "leaked_workers managed alive =
     (case managed of
        None \<Rightarrow> []
      | Some hs \<Rightarrow> filter (\<lambda>h. wh_id h \<noteq> [] \<and> wh_id h \<notin> set alive) hs)"

definition reclaim_leaked_workers ::
  "worker_handle list option \<Rightarrow> string list \<Rightarrow> (worker_handle list \<Rightarrow> nat) \<Rightarrow> nat" where
  "reclaim_leaked_workers managed alive cancel =
     (let leaked = leaked_workers managed alive in if leaked = [] then 0 else cancel leaked)"

subsection \<open>The trigger\<close>

text \<open>
  The trigger's event is a flag. \<open>wait\<close> returns \<open>signal\<close> and clears the flag when it is set,
  at once or before the timeout, and \<open>fallback\<close> when the timeout passes first.
\<close>

datatype wait_result = Wait_signal | Wait_fallback

datatype trigger_event = Signal | Wait_returns wait_result

inductive trigger_step :: "bool \<Rightarrow> trigger_event \<Rightarrow> bool \<Rightarrow> bool" where
  signal: "trigger_step flag Signal True"
| woken: "trigger_step True (Wait_returns Wait_signal) False"
| timeout: "trigger_step False (Wait_returns Wait_fallback) False"

inductive_cases trigger_signalE: "trigger_step flag Signal flag'"
inductive_cases trigger_waitE: "trigger_step flag (Wait_returns r) flag'"
inductive_simps trigger_step_simps: "trigger_step flag e flag'"

inductive trigger_run :: "bool \<Rightarrow> trigger_event list \<Rightarrow> bool \<Rightarrow> bool" where
  nil: "trigger_run flag [] flag"
| snoc: "trigger_run flag es mid \<Longrightarrow> trigger_step mid e flag' \<Longrightarrow> trigger_run flag (es @ [e]) flag'"

subsection \<open>The loop\<close>

text \<open>
  One iteration as the script of what happens in it: whether \<open>_stop()\<close> holds before it, what
  the cycle does, and whether the wait after it is cancelled.
\<close>

record iteration =
  it_stop :: bool
  it_cycle :: "exc + cycle_result"
  it_wait_cancelled :: bool

datatype loop_end = Loop_running | Loop_stopped | Loop_raised exc

fun run_dispatch_loop :: "iteration list \<Rightarrow> nat \<times> loop_end" where
  "run_dispatch_loop [] = (0, Loop_running)"
| "run_dispatch_loop (i # is) =
     (if it_stop i then (0, Loop_stopped)
      else case it_cycle i of
        Inl CancelledError \<Rightarrow> (1, Loop_raised CancelledError)
      | _ \<Rightarrow>
          if it_wait_cancelled i then (1, Loop_raised CancelledError)
          else apfst Suc (run_dispatch_loop is))"

subsection \<open>The in-process dispatcher\<close>

text \<open>The tasks it owns, by worker id: \<open>True\<close> for a task that is done.\<close>

record inprocess =
  ip_prefix :: string
  ip_counter :: nat
  ip_tasks :: "(string, bool) dict"

definition ip_worker_id :: "inprocess \<Rightarrow> string \<Rightarrow> nat \<Rightarrow> string" where
  "ip_worker_id ip queue_key n = ip_prefix ip @ ''-'' @ queue_key @ ''-'' @ string_of_nat n"

fun inprocess_spawn_units ::
  "inprocess \<Rightarrow> run_key list \<Rightarrow> inprocess \<times> worker_handle list" where
  "inprocess_spawn_units ip [] = (ip, [])"
| "inprocess_spawn_units ip ((queue_key, variant, lane) # units) =
     (let n = Suc (ip_counter ip);
          worker_id = ip_worker_id ip queue_key n;
          handle = \<lparr>wh_provider = ''inprocess'', wh_queue_key = queue_key, wh_id = worker_id,
            wh_provisional = False,
            wh_metadata = [(''harbor_variant_id'', variant), (''execution_lane'', lane)]\<rparr>;
          (ip', handles) = inprocess_spawn_units
            (ip\<lparr>ip_counter := n, ip_tasks := dict_set (ip_tasks ip) worker_id False\<rparr>) units
      in (ip', handle # handles))"

definition inprocess_spawn :: "inprocess \<Rightarrow> string list \<Rightarrow> inprocess \<times> worker_handle list" where
  "inprocess_spawn ip spawn_plan =
     inprocess_spawn_units ip (map (\<lambda>k. (k, ''default'', ''default'')) spawn_plan)"

definition inprocess_check_active :: "inprocess \<Rightarrow> worker_handle list \<Rightarrow> worker_handle list" where
  "inprocess_check_active ip handles =
     filter (\<lambda>h. map_of (ip_tasks ip) (wh_id h) = Some False) handles"

fun inprocess_cancel :: "inprocess \<Rightarrow> worker_handle list \<Rightarrow> inprocess \<times> nat" where
  "inprocess_cancel ip [] = (ip, 0)"
| "inprocess_cancel ip (h # hs) =
     (let live = (map_of (ip_tasks ip) (wh_id h) = Some False);
          (ip', n) = inprocess_cancel
            (ip\<lparr>ip_tasks := AList.delete (wh_id h) (ip_tasks ip)\<rparr>) hs
      in (ip', if live then Suc n else n))"

definition inprocess_shutdown :: "inprocess \<Rightarrow> inprocess \<times> nat" where
  "inprocess_shutdown ip =
     (ip\<lparr>ip_tasks := []\<rparr>, length (filter (\<lambda>(k, finished). \<not> finished) (ip_tasks ip)))"

definition inprocess_recover :: "handle_data \<Rightarrow> exc + worker_handle option" where
  "inprocess_recover d = Inr None"

definition inprocess_dispatcher :: "inprocess \<Rightarrow> dispatcher" where
  "inprocess_dispatcher ip = \<lparr>dr_name = ''inprocess'',
     dr_spawn = (\<lambda>plan. Inr (snd (inprocess_spawn ip plan))),
     dr_spawn_units = Some (\<lambda>units. Inr (snd (inprocess_spawn_units ip units))),
     dr_recover = inprocess_recover\<rparr>"

subsection \<open>The Docker dispatcher's spawn\<close>

text \<open>
  The container runtime is an argument: for the unit it starts, the printed container id or
  an exception. A failure removes the containers started so far, which the second component
  names, and the exception passes on.
\<close>

definition docker_handle :: "run_key \<Rightarrow> string \<Rightarrow> worker_handle" where
  "docker_handle u container_id =
     (case u of (queue_key, variant, lane) \<Rightarrow>
        \<lparr>wh_provider = ''docker'', wh_queue_key = queue_key, wh_id = container_id,
          wh_provisional = False,
          wh_metadata = [(''harbor_variant_id'', variant), (''execution_lane'', lane)]\<rparr>)"

fun docker_spawn_loop ::
  "(run_key \<Rightarrow> exc + string) \<Rightarrow> run_key list \<Rightarrow> worker_handle list \<Rightarrow>
   (exc \<times> worker_handle list) + worker_handle list" where
  "docker_spawn_loop run [] handles = Inr handles"
| "docker_spawn_loop run (u # units) handles =
     (case run u of
        Inl e \<Rightarrow> Inl (e, if is_Exception e then handles else [])
      | Inr container_id \<Rightarrow> docker_spawn_loop run units (handles @ [docker_handle u container_id]))"

definition docker_spawn_units ::
  "(run_key \<Rightarrow> exc + string) \<Rightarrow> run_key list \<Rightarrow> exc + worker_handle list" where
  "docker_spawn_units run units =
     (case docker_spawn_loop run units [] of Inl (e, torn_down) \<Rightarrow> Inl e | Inr handles \<Rightarrow> Inr handles)"

definition docker_recover :: "(string \<Rightarrow> bool) \<Rightarrow> handle_data \<Rightarrow> exc + worker_handle option" where
  "docker_recover inspect_ok d =
     bind_err (deserialize d) (\<lambda>h.
       Inr (if wh_id h = [] then None else if inspect_ok (wh_id h) then Some h else None))"

definition docker_cancel :: "(string \<Rightarrow> bool) \<Rightarrow> worker_handle list \<Rightarrow> nat" where
  "docker_cancel rm_ok handles =
     length (filter (\<lambda>h. wh_id h \<noteq> [] \<and> rm_ok (wh_id h)) handles)"

definition docker_dispatcher :: "(run_key \<Rightarrow> exc + string) \<Rightarrow> (string \<Rightarrow> bool) \<Rightarrow> dispatcher" where
  "docker_dispatcher run inspect_ok = \<lparr>dr_name = ''docker'',
     dr_spawn = (\<lambda>plan. docker_spawn_units run (map (\<lambda>k. (k, ''default'', ''default'')) plan)),
     dr_spawn_units = Some (docker_spawn_units run),
     dr_recover = docker_recover inspect_ok\<rparr>"

subsection \<open>Lemmas: admission and reasons\<close>

lemma admit_loop_spec:
  assumes "\<And>k. dict_has rejected k \<Longrightarrow> \<not> ad_admitted (admit k) \<and> dict_get rejected k [] = ad_reason (admit k)"
  shows "admit_loop admit ks admitted rejected = (a, r) \<Longrightarrow>
    a = admitted @ filter (\<lambda>k. ad_admitted (admit k)) ks \<and>
    (\<forall>k. dict_has r k = (dict_has rejected k \<or> k \<in> set ks \<and> \<not> ad_admitted (admit k))) \<and>
    (\<forall>k. dict_has r k \<longrightarrow> dict_get r k [] = ad_reason (admit k))"
  using assms
proof (induction ks arbitrary: admitted rejected)
  case Nil
  then show ?case by auto
next
  case (Cons k ks)
  consider (seen) "dict_has rejected k" | (yes) "\<not> dict_has rejected k" "ad_admitted (admit k)"
    | (no) "\<not> dict_has rejected k" "\<not> ad_admitted (admit k)" by blast
  then show ?case
  proof cases
    case seen
    then have "admit_loop admit ks admitted rejected = (a, r)" using Cons.prems(1) by simp
    from Cons.IH [OF this Cons.prems(2)] seen Cons.prems(2) show ?thesis by auto
  next
    case yes
    then have "admit_loop admit ks (admitted @ [k]) rejected = (a, r)" using Cons.prems(1) by simp
    from Cons.IH [OF this Cons.prems(2)] yes show ?thesis by auto
  next
    case no
    then have e: "admit_loop admit ks admitted (dict_set rejected k (ad_reason (admit k))) = (a, r)"
      using Cons.prems(1) by simp
    have "\<And>j. dict_has (dict_set rejected k (ad_reason (admit k))) j \<Longrightarrow> \<not> ad_admitted (admit j) \<and>
        dict_get (dict_set rejected k (ad_reason (admit k))) j [] = ad_reason (admit j)"
      using no Cons.prems(2) by auto
    from Cons.IH [OF e this] no show ?thesis by auto
  qed
qed

lemma why_step_has:
  "dict_has (why_step running limits sc mw why (k, n)) j =
     (dict_has why j \<or> j = k \<and> 0 < n \<and> dict_get sc k 0 < n)"
  by (auto simp: why_step_def Let_def)

lemma why_foldl_has:
  "dict_has (foldl (why_step running limits sc mw) why queued) j =
     (dict_has why j \<or> (\<exists>n. (j, n) \<in> set queued \<and> 0 < n \<and> dict_get sc j 0 < n))"
  by (induction queued arbitrary: why) (auto simp: why_step_has)

lemma why_waiting_has:
  "dict_has (compute_why_waiting queued running limits spawned mw base) k =
     (dict_has base k \<or> (\<exists>n. (k, n) \<in> set queued \<and> 0 < n \<and> int (count_list spawned k) < n))"
  by (simp add: compute_why_waiting_def why_foldl_has counter_get)

lemma why_step_base: "dict_has why j \<Longrightarrow>
    dict_get (why_step running limits sc mw why kq) j v = dict_get why j v"
  by (cases kq) (auto simp: why_step_def Let_def)

lemma why_step_keeps: "dict_has why j \<Longrightarrow> dict_has (why_step running limits sc mw why kq) j"
  by (cases kq) (auto simp: why_step_def Let_def)

lemma why_foldl_base: "dict_has why j \<Longrightarrow>
    dict_get (foldl (why_step running limits sc mw) why queued) j v = dict_get why j v"
  by (induction queued arbitrary: why) (auto simp: why_step_base why_step_keeps)

lemma why_foldl_other:
  "j \<notin> fst ` set queued \<Longrightarrow>
    dict_get (foldl (why_step running limits sc mw) why queued) j v = dict_get why j v"
proof (induction queued arbitrary: why)
  case Nil
  then show ?case by simp
next
  case (Cons kq queued)
  then have "j \<noteq> fst kq" by auto
  then have "dict_get (why_step running limits sc mw why kq) j v = dict_get why j v"
    by (cases kq) (auto simp: why_step_def Let_def)
  with Cons show ?case by simp
qed

text \<open>Which of the two capacity reasons a waiting key is given.\<close>

lemma why_waiting_reason:
  assumes "distinct (dict_keys queued)" and "(k, n) \<in> set queued" and "0 < n"
    and "int (count_list spawned k) < n" and "\<not> dict_has base k"
  shows "dict_get (compute_why_waiting queued running limits spawned mw base) k [] =
    (if dict_get limits k 0 \<le> dict_get running k 0
     then slot_reason (dict_get limits k 0) (dict_get running k 0) else cap_reason mw)"
proof -
  from assms(2) obtain xs ys where q: "queued = xs @ (k, n) # ys" by (auto dest: split_list)
  let ?step = "why_step running limits (counter spawned) mw"
  have xs: "\<not> dict_has (foldl ?step base xs) k"
    using assms(1,5) unfolding q by (force simp: why_foldl_has)
  have ys: "k \<notin> fst ` set ys" using assms(1) unfolding q by auto
  from xs assms(3,4) have "dict_get (?step (foldl ?step base xs) (k, n)) k [] =
      (if dict_get limits k 0 \<le> dict_get running k 0
       then slot_reason (dict_get limits k 0) (dict_get running k 0) else cap_reason mw)"
    by (simp add: why_step_def Let_def counter_get)
  then show ?thesis unfolding compute_why_waiting_def q by (simp add: why_foldl_other [OF ys])
qed

subsection \<open>The spawner interface\<close>

text \<open>
  What the cycle relies on: a spawner starts at most one worker for each unit it is given,
  for that unit's queue key.
\<close>

locale worker_spawner =
  fixes spawner :: "run_key list \<Rightarrow> exc + worker_handle list"
  assumes spawned_for_units: "spawner units = Inr hs \<Longrightarrow>
    mset (map wh_queue_key hs) \<subseteq># mset (map fst units)"
begin

lemma spawned_for_plan:
  assumes "dr_spawn_units dr = Some spawner" and "spawn_step dr plan admitted = Inr hs"
  shows "mset (map wh_queue_key hs) \<subseteq># mset (map du_queue_key (dp_unit_plan plan))"
proof -
  let ?f = "filter (\<lambda>d. du_queue_key d \<in> set admitted) (dp_unit_plan plan)"
  from assms have "mset (map wh_queue_key hs) \<subseteq># mset (map du_queue_key ?f)"
    using spawned_for_units by (fastforce simp: spawn_step_def o_def)
  also have "mset (map du_queue_key ?f) \<subseteq># mset (map du_queue_key (dp_unit_plan plan))"
    by (simp add: image_mset_subseteq_mono multiset_filter_subset)
  finally show ?thesis .
qed

lemma spawned_counts:
  assumes "dr_spawn_units dr = Some spawner" and "spawn_step dr plan admitted = Inr hs"
  shows "length hs \<le> length (dp_unit_plan plan)"
    and "int (count_list (map wh_queue_key hs) k) \<le> queue_taken (dp_unit_plan plan) k"
proof -
  note sub = spawned_for_plan [OF assms]
  from size_mset_mono [OF sub] show "length hs \<le> length (dp_unit_plan plan)" by simp
  from mset_subset_eq_count [OF sub, of k]
  show "int (count_list (map wh_queue_key hs) k) \<le> queue_taken (dp_unit_plan plan) k"
    by (simp only: count_mset count_list_map_filter)
qed

end

lemma inprocess_spawn_keys:
  fixes ip :: inprocess
  shows "inprocess_spawn_units ip units = (ip', hs) \<Longrightarrow> map wh_queue_key hs = map fst units"
proof (induction ip units arbitrary: ip' hs rule: inprocess_spawn_units.induct)
  case (2 ip queue_key variant lane units)
  then show ?case by (auto simp: Let_def split: prod.splits)
qed simp

lemma docker_spawn_loop_Inr:
  "docker_spawn_loop run units acc = Inr hs \<Longrightarrow>
     map wh_queue_key hs = map wh_queue_key acc @ map fst units"
  by (induction run units acc rule: docker_spawn_loop.induct)
    (auto simp: docker_handle_def split: sum.splits)

interpretation inproc: worker_spawner
  "\<lambda>units. Inr (snd (inprocess_spawn_units (ip :: inprocess) units))" for ip
proof
  fix units hs
  assume "(Inr (snd (inprocess_spawn_units (ip :: inprocess) units)) :: exc + worker_handle list) = Inr hs"
  then have "map wh_queue_key hs = map fst units"
    by (cases "inprocess_spawn_units ip units") (auto dest: inprocess_spawn_keys)
  then show "mset (map wh_queue_key hs) \<subseteq># mset (map fst units)" by (simp only: subset_mset.order_refl)
qed

interpretation docker: worker_spawner "docker_spawn_units run"
proof
  fix units hs
  assume "docker_spawn_units run units = Inr hs"
  then have "docker_spawn_loop run units [] = Inr hs"
    by (auto simp: docker_spawn_units_def split: sum.splits prod.splits)
  from docker_spawn_loop_Inr [OF this]
  show "mset (map wh_queue_key hs) \<subseteq># mset (map fst units)" by (simp flip: mset_map)
qed

subsection \<open>Ids of in-process workers\<close>

text \<open>Every task the dispatcher owns was given its id by an earlier \<open>_spawn_one\<close>.\<close>

definition wf_inprocess :: "inprocess \<Rightarrow> bool" where
  "wf_inprocess ip \<longleftrightarrow>
     (\<forall>i \<in> set (dict_keys (ip_tasks ip)). \<exists>q m. i = ip_worker_id ip q m \<and> m \<le> ip_counter ip)"

lemma hyphen_not_in_nat: "CHR ''-'' \<notin> set (string_of_nat n)"
  using string_of_nat_digits by blast

lemma ip_worker_id_inject: "ip_worker_id ip q m = ip_worker_id ip q' m' \<Longrightarrow> m = m'"
  using hyphen_suffix [of "ip_prefix ip @ ''-'' @ q" "string_of_nat m" "ip_prefix ip @ ''-'' @ q'"
      "string_of_nat m'"] hyphen_not_in_nat by (simp add: ip_worker_id_def)

lemma inprocess_spawn_ids:
  fixes ip :: inprocess
  assumes "inprocess_spawn_units ip units = (ip', hs)"
  shows "ip_prefix ip' = ip_prefix ip" and "ip_counter ip \<le> ip_counter ip'"
    and "\<forall>h \<in> set hs. \<exists>q m. wh_id h = ip_worker_id ip q m \<and> ip_counter ip < m \<and> m \<le> ip_counter ip'"
    and "distinct (map wh_id hs)"
    and "map_of (ip_tasks ip') i = (if i \<in> wh_id ` set hs then Some False else map_of (ip_tasks ip) i)"
  using assms
proof (atomize (full), induction ip units arbitrary: ip' hs rule: inprocess_spawn_units.induct)
  case (1 ip)
  then show ?case by simp
next
  case (2 ip queue_key variant lane units)
  define n where "n = Suc (ip_counter ip)"
  define w where "w = ip_worker_id ip queue_key n"
  define mid where "mid = ip\<lparr>ip_counter := n, ip_tasks := dict_set (ip_tasks ip) w False\<rparr>"
  obtain ip'' hs' where rest: "inprocess_spawn_units mid units = (ip'', hs')"
    by (cases "inprocess_spawn_units mid units")
  have ids: "ip_worker_id mid = ip_worker_id ip" by (simp add: fun_eq_iff ip_worker_id_def mid_def)
  from "2.prems" rest obtain h where hs: "ip' = ip''" "hs = h # hs'" "wh_id h = w"
    by (auto simp: Let_def n_def [symmetric] w_def [symmetric] mid_def [symmetric])
  from "2.IH" [OF n_def w_def refl rest [unfolded mid_def]]
  have IH: "ip_prefix ip'' = ip_prefix ip" "n \<le> ip_counter ip''"
    "\<forall>h \<in> set hs'. \<exists>q m. wh_id h = ip_worker_id ip q m \<and> n < m \<and> m \<le> ip_counter ip''"
    "distinct (map wh_id hs')"
    "map_of (ip_tasks ip'') i = (if i \<in> wh_id ` set hs' then Some False else map_of (ip_tasks mid) i)"
    unfolding mid_def [symmetric] ids by (simp_all add: mid_def)
  have new: "w \<notin> wh_id ` set hs'"
    using IH(3) ip_worker_id_inject [of ip queue_key n] unfolding w_def by fastforce
  have "\<forall>h \<in> set hs. \<exists>q m. wh_id h = ip_worker_id ip q m \<and> ip_counter ip < m \<and> m \<le> ip_counter ip'"
    using IH(2,3) hs unfolding w_def n_def by (fastforce intro: Suc_lessD)
  moreover have "map_of (ip_tasks mid) = (map_of (ip_tasks ip))(w \<mapsto> False)"
    by (simp add: mid_def map_of_dict_set)
  ultimately show ?case using IH hs new by (simp add: n_def)
qed

subsection \<open>Inversion of a tick\<close>

lemma cycle_Inr:
  assumes "run_dispatch_cycle dr pi mw admit on_stage cap = (Inr r, rep)"
  obtains limits_lane held_lane plan cursors
  where "(case cap of None \<Rightarrow> Inr ([], []) | Some c \<Rightarrow> c) = Inr (limits_lane, held_lane)"
    and "build_dispatch_plan pi mw limits_lane held_lane [] [] = Inr (plan, cursors)"
    and "cy_spawn_plan r = map du_queue_key (dp_unit_plan plan)"
    and "cy_admitted r = fst (admit_spawn_plan (cy_spawn_plan r) admit)"
    and "spawn_step dr plan (cy_admitted r) = Inr (cy_handles r)"
    and "cy_why_waiting r = compute_post_spawn_why_waiting plan (map wh_queue_key (cy_handles r)) mw
          (snd (admit_spawn_plan (cy_spawn_plan r) admit))"
    and "rep = \<lparr>cr_workers_spawned = length (cy_handles r),
          cr_spawn_cap_reached = (int (length (cy_spawn_plan r)) \<ge> mw), cr_outcome = Cycle_success\<rparr>"
proof -
  from assms obtain ll hl where lanes: "(case cap of None \<Rightarrow> Inr ([], []) | Some c \<Rightarrow> c) = Inr (ll, hl)"
    by (cases "case cap of None \<Rightarrow> Inr ([], []) | Some c \<Rightarrow> c") (auto simp: run_dispatch_cycle_def Let_def)
  with assms obtain plan cursors where plan: "build_dispatch_plan pi mw ll hl [] [] = Inr (plan, cursors)"
    by (cases "build_dispatch_plan pi mw ll hl [] []") (auto simp: run_dispatch_cycle_def Let_def)
  obtain a rj where adm: "admit_spawn_plan (map du_queue_key (dp_unit_plan plan)) admit = (a, rj)"
    by (cases "admit_spawn_plan (map du_queue_key (dp_unit_plan plan)) admit")
  with assms lanes plan obtain hs where hs: "spawn_step dr plan a = Inr hs"
    by (cases "spawn_step dr plan a") (auto simp: run_dispatch_cycle_def Let_def)
  show thesis
    using assms lanes plan adm hs
    by (intro that [OF lanes plan])
      (auto simp: run_dispatch_cycle_def Let_def split: option.splits if_splits)
qed

lemma build_dispatch_plan_Inr:
  assumes "build_dispatch_plan pi mw ll hl cursors pending = Inr (plan, cursors')"
  obtains units ready running held limits
  where "pi_discover pi = Inr units"
    and "pi_counts pi (remdups (map fst units)) = Inr (ready, running)"
    and "pi_held pi (remdups (map fst units)) = Inr held"
    and "pi_limits pi (remdups (map fst units)) = Inr limits"
    and "(dp_unit_plan plan, cursors') =
      build_spawn_plan (deduct_pending pending ready) running limits mw held ll hl cursors"
    and "dp_queued_by_queue plan = sum_by demand_queue ready"
    and "dp_running_by_queue plan = running" and "dp_held_by_queue_key plan = held"
    and "dp_concurrency_limits plan = limits"
    and "dp_running_by_queue_key plan = running_by_queue_key running"
    and "dp_queue_keys plan = remdups (map fst units)"
    and "dp_queued_by_org_queue plan = deduct_pending pending ready"
proof -
  let ?q = "\<lambda>units. remdups (map fst units)"
  from assms obtain units where u: "pi_discover pi = Inr units"
    by (cases "pi_discover pi") (simp_all add: build_dispatch_plan_def)
  from assms obtain ready running where c: "pi_counts pi (?q units) = Inr (ready, running)"
    by (cases "pi_counts pi (?q units)") (auto simp add: build_dispatch_plan_def u Let_def)
  from assms obtain held where h: "pi_held pi (?q units) = Inr held"
    by (cases "pi_held pi (?q units)") (auto simp add: build_dispatch_plan_def u c Let_def)
  from assms obtain limits where l: "pi_limits pi (?q units) = Inr limits"
    by (cases "pi_limits pi (?q units)") (auto simp add: build_dispatch_plan_def u c h Let_def)
  obtain up cs where b: "build_spawn_plan (deduct_pending pending ready) running limits mw held ll hl
      cursors = (up, cs)" by (cases "build_spawn_plan (deduct_pending pending ready) running limits mw
      held ll hl cursors")
  from assms show thesis
    by (intro that [OF u c h l]) (auto simp add: build_dispatch_plan_def u c h l b Let_def)
qed

lemma plan_capacity:
  assumes "build_dispatch_plan pi mw ll hl cursors pending = Inr (plan, cursors')"
  shows "queue_taken (dp_unit_plan plan) k
      \<le> queue_capacity (dp_running_by_queue plan) (dp_concurrency_limits plan) (dp_held_by_queue_key plan) k"
    and "int (length (dp_unit_plan plan)) \<le> max mw 0"
proof -
  obtain ready where e: "dp_unit_plan plan = fst (build_spawn_plan (deduct_pending pending ready)
      (dp_running_by_queue plan) (dp_concurrency_limits plan) mw (dp_held_by_queue_key plan) ll hl cursors)"
    using assms by (rule build_dispatch_plan_Inr) (metis fst_conv)
  show "queue_taken (dp_unit_plan plan) k
      \<le> queue_capacity (dp_running_by_queue plan) (dp_concurrency_limits plan) (dp_held_by_queue_key plan) k"
    unfolding e by (rule queue_capacity_bound)
  show "int (length (dp_unit_plan plan)) \<le> max mw 0"
    unfolding e by (rule plan_length_bound)
qed

subsection \<open>Properties of the cycle\<close>

text \<open>
  Admission splits the spawn plan without loss: the admitted plan is the plan without the
  keys the gate refuses, in the same order and with the same multiplicities, and the rejected
  keys are exactly the refused keys of the plan, each with the gate's reason.
\<close>

theorem admit_spawn_plan_splits:
  "fst (admit_spawn_plan plan admit) = filter (\<lambda>k. ad_admitted (admit k)) plan \<and>
   (\<forall>k. dict_has (snd (admit_spawn_plan plan admit)) k
      \<longleftrightarrow> k \<in> set plan \<and> \<not> ad_admitted (admit k)) \<and>
   (\<forall>k. map_of (snd (admit_spawn_plan plan admit)) k
      = (if k \<in> set plan \<and> \<not> ad_admitted (admit k) then Some (ad_reason (admit k)) else None))"
proof -
  obtain a r where e: "admit_loop admit plan [] [] = (a, r)" by (cases "admit_loop admit plan [] []")
  have s: "a = filter (\<lambda>k. ad_admitted (admit k)) plan \<and>
      (\<forall>k. dict_has r k = (k \<in> set plan \<and> \<not> ad_admitted (admit k))) \<and>
      (\<forall>k. dict_has r k \<longrightarrow> dict_get r k [] = ad_reason (admit k))"
    using admit_loop_spec [OF _ e] by simp
  have "map_of r k = (if k \<in> set plan \<and> \<not> ad_admitted (admit k) then Some (ad_reason (admit k)) else None)"
    for k using s unfolding map_of_dict [of r k "[]"] by simp
  with s show ?thesis by (simp add: admit_spawn_plan_def e)
qed

text \<open>
  After a successful tick a queue key is given a reason for waiting exactly when the gate
  refused it or work of it is queued that no launched worker covers; every key with more queued
  trials than launched workers is thus explained.
\<close>

theorem cycle_explains_waiting:
  assumes "run_dispatch_cycle dr pi mw admit on_stage (Some (Inr (ll, hl))) = (Inr r, rep)"
    and "build_dispatch_plan pi mw ll hl [] [] = Inr (plan, cursors)"
  shows "dict_has (cy_why_waiting r) k \<longleftrightarrow>
    k \<in> set (cy_spawn_plan r) \<and> \<not> ad_admitted (admit k) \<or>
    0 < dict_get (dp_queued_by_queue plan) k 0 \<and>
    int (count_list (map wh_queue_key (cy_handles r)) k) < dict_get (dp_queued_by_queue plan) k 0"
  using assms(1)
proof (rule cycle_Inr)
  fix ll' hl' p cs
  assume lanes: "(case Some (Inr (ll, hl)) of None \<Rightarrow> Inr ([], []) | Some c \<Rightarrow> c) = Inr (ll', hl')"
    and p: "build_dispatch_plan pi mw ll' hl' [] [] = Inr (p, cs)"
    and why: "cy_why_waiting r = compute_post_spawn_why_waiting p (map wh_queue_key (cy_handles r)) mw
          (snd (admit_spawn_plan (cy_spawn_plan r) admit))"
  from lanes p assms(2) have plan: "p = plan" by simp
  have d: "distinct (dict_keys (dp_queued_by_queue plan))"
    using p unfolding plan by (rule build_dispatch_plan_Inr) (simp only: sum_by_distinct)
  let ?q = "dp_queued_by_queue plan"
  let ?n = "int (count_list (map wh_queue_key (cy_handles r)) k)"
  have in_q: "(\<exists>n. (k, n) \<in> set ?q \<and> 0 < n \<and> ?n < n) = (0 < dict_get ?q k 0 \<and> ?n < dict_get ?q k 0)"
    using dict_get_in [OF d] dict_has_in dict_get_missing by (metis less_irrefl)
  obtain a rj where adm: "admit_loop admit (cy_spawn_plan r) [] [] = (a, rj)"
    by (cases "admit_loop admit (cy_spawn_plan r) [] []")
  have "dict_has rj k = (k \<in> set (cy_spawn_plan r) \<and> \<not> ad_admitted (admit k))"
    using admit_loop_spec [OF _ adm] by simp
  then show ?thesis
    unfolding why plan compute_post_spawn_why_waiting_def why_waiting_has in_q
    by (simp add: admit_spawn_plan_def adm)
qed

text \<open>A tick on concrete inputs: two units, one of them gated, one of its slots taken.\<close>

definition sample_inputs :: planner_inputs where
  "sample_inputs = \<lparr>pi_discover = Inr [(''m1'', ''default'', ''default''), (''m2'', ''default'', ''default'')],
     pi_counts = (\<lambda>ks. Inr ([((Some ''o1'', ''m1'', ''default'', ''default'', False), 3),
       ((Some ''o2'', ''m2'', ''default'', ''default'', False), 1)], [])),
     pi_held = (\<lambda>ks. Inr [(''m1'', 1)]), pi_limits = (\<lambda>ks. Inr [(''m1'', 2), (''m2'', 4)])\<rparr>"

definition sample_admit :: "string \<Rightarrow> admission" where
  "sample_admit k = \<lparr>ad_admitted = (k \<noteq> ''m2''), ad_reason = ''gated''\<rparr>"

definition sample_docker :: dispatcher where
  "sample_docker = docker_dispatcher (\<lambda>u. Inr (fst u)) (\<lambda>i. True)"

definition sample_plan :: dispatch_plan where
  "sample_plan = fst (projr (build_dispatch_plan sample_inputs 5 [] [] [] []))"

lemma sample_plan_built:
  "build_dispatch_plan sample_inputs 5 [] [] [] [] =
     Inr (sample_plan, snd (projr (build_dispatch_plan sample_inputs 5 [] [] [] [])))"
  by code_simp

definition sample_cycle :: "(exc + cycle_result) \<times> cycle_report" where
  "sample_cycle = run_dispatch_cycle sample_docker sample_inputs 5 sample_admit None (Some (Inr ([], [])))"

lemma sample_cycle_runs:
  "run_dispatch_cycle sample_docker sample_inputs 5 sample_admit None (Some (Inr ([], []))) =
     (Inr (projr (fst sample_cycle)), snd sample_cycle)"
  by code_simp

theorem cycle_explains_waiting_witness:
  "dict_has (cy_why_waiting (projr (fst sample_cycle))) ''m1'' \<and>
   0 < dict_get (dp_queued_by_queue sample_plan) ''m1'' 0 \<and> cy_handles (projr (fst sample_cycle)) \<noteq> []"
proof -
  have q: "dict_get (dp_queued_by_queue sample_plan) ''m1'' 0 = 3" by code_simp
  have n: "count_list (map wh_queue_key (cy_handles (projr (fst sample_cycle)))) ''m1'' = 1" by code_simp
  then have "cy_handles (projr (fst sample_cycle)) \<noteq> []" by auto
  with cycle_explains_waiting [OF sample_cycle_runs sample_plan_built, of "''m1''"] q n show ?thesis by simp
qed

text \<open>
  C24. A tick of either shipped dispatcher respects the capacity end to end: it launches at most
  the poll's budget of workers, and for each queue key at most what the limit leaves over the
  larger of the running jobs and the held slot leases; the telemetry counts what it launched.
\<close>

theorem cycle_within_capacity:
  assumes "dr = inprocess_dispatcher ip \<or> dr = docker_dispatcher run inspect_ok"
    and "run_dispatch_cycle dr pi mw admit on_stage (Some (Inr (ll, hl))) = (Inr r, rep)"
    and "build_dispatch_plan pi mw ll hl [] [] = Inr (plan, cursors)"
  shows "int (length (cy_handles r)) \<le> max mw 0 \<and>
    cr_workers_spawned rep = length (cy_handles r) \<and>
    int (count_list (map wh_queue_key (cy_handles r)) k)
      \<le> max 0 (dict_get (dp_concurrency_limits plan) k 0
           - max (dict_get (running_by_queue_key (dp_running_by_queue plan)) k 0)
               (dict_get (dp_held_by_queue_key plan) k 0))"
  using assms(2)
proof (rule cycle_Inr)
  fix ll' hl' p cs
  assume lanes: "(case Some (Inr (ll, hl)) of None \<Rightarrow> Inr ([], []) | Some c \<Rightarrow> c) = Inr (ll', hl')"
    and p: "build_dispatch_plan pi mw ll' hl' [] [] = Inr (p, cs)"
    and spawn: "spawn_step dr p (cy_admitted r) = Inr (cy_handles r)"
    and rep: "rep = \<lparr>cr_workers_spawned = length (cy_handles r),
          cr_spawn_cap_reached = (int (length (cy_spawn_plan r)) \<ge> mw), cr_outcome = Cycle_success\<rparr>"
  from lanes p assms(3) have plan: "p = plan" by simp
  from assms(1) have "length (cy_handles r) \<le> length (dp_unit_plan plan) \<and>
      int (count_list (map wh_queue_key (cy_handles r)) k) \<le> queue_taken (dp_unit_plan plan) k"
    using inproc.spawned_counts [OF _ spawn [unfolded plan]]
      docker.spawned_counts [OF _ spawn [unfolded plan]]
    by (auto simp: inprocess_dispatcher_def docker_dispatcher_def)
  with plan_capacity(1) [OF assms(3), of k] plan_capacity(2) [OF assms(3)] rep show ?thesis
    by (simp add: queue_capacity_def max.commute)
qed

theorem cycle_within_capacity_witness:
  "int (count_list (map wh_queue_key (cy_handles (projr (fst sample_cycle)))) ''m1'') \<le> 1 \<and>
   cr_workers_spawned (snd sample_cycle) = 1"
proof -
  have "sample_docker = inprocess_dispatcher \<lparr>ip_prefix = [], ip_counter = 0, ip_tasks = []\<rparr> \<or>
      sample_docker = docker_dispatcher (\<lambda>u. Inr (fst u)) (\<lambda>i. True)"
    by (simp add: sample_docker_def)
  from cycle_within_capacity [OF this sample_cycle_runs sample_plan_built, of "''m1''"]
  have "int (count_list (map wh_queue_key (cy_handles (projr (fst sample_cycle)))) ''m1'')
      \<le> max 0 (dict_get (dp_concurrency_limits sample_plan) ''m1'' 0
           - max (dict_get (running_by_queue_key (dp_running_by_queue sample_plan)) ''m1'' 0)
               (dict_get (dp_held_by_queue_key sample_plan) ''m1'' 0))"
    and n: "cr_workers_spawned (snd sample_cycle) = length (cy_handles (projr (fst sample_cycle)))"
    by simp_all
  moreover have "dict_get (dp_concurrency_limits sample_plan) ''m1'' 0 = 2"
    and "dict_get (running_by_queue_key (dp_running_by_queue sample_plan)) ''m1'' 0 = 0"
    and "dict_get (dp_held_by_queue_key sample_plan) ''m1'' 0 = 1"
    and "length (cy_handles (projr (fst sample_cycle))) = 1"
    by code_simp+
  ultimately show ?thesis by simp
qed

text \<open>
  A batch of containers is all or nothing: without a failure there is one container per
  unit, in order; the first failing start is what the batch raises, and it removes exactly the
  containers of the units before it (a cancellation passes the \<open>except Exception\<close> and
  removes none); no later unit is started.
\<close>

theorem docker_batch_all_or_nothing:
  "docker_spawn_loop run units [] =
     (let ok = takeWhile (\<lambda>u. \<not> isl (run u)) units;
          handles = map (\<lambda>u. docker_handle u (projr (run u))) ok;
          e = projl (run (units ! length ok))
      in if ok = units then Inr handles else Inl (e, if is_Exception e then handles else []))"
proof -
  have all: "takeWhile P xs = xs \<longleftrightarrow> (\<forall>x \<in> set xs. P x)" for P :: "run_key \<Rightarrow> bool" and xs
    by (rule takeWhile_eq_all_conv)
  have "docker_spawn_loop run units acc =
     (let ok = takeWhile (\<lambda>u. \<not> isl (run u)) units;
          handles = acc @ map (\<lambda>u. docker_handle u (projr (run u))) ok;
          e = projl (run (units ! length ok))
      in if ok = units then Inr handles else Inl (e, if is_Exception e then handles else []))" for acc
    by (induction run units acc rule: docker_spawn_loop.induct)
      (auto simp: Let_def all takeWhile_eq_all_conv [THEN iffD2] split: sum.splits)
  from this [of "[]"] show ?thesis by simp
qed

text \<open>
  Worker ids of the in-process dispatcher are never reused: when the tasks it owns carry
  ids it gave out, a batch gets ids that differ from each other and from all of them, every
  worker of the batch is active, and the tasks it owned before are untouched.
\<close>

theorem inprocess_ids_fresh:
  assumes "wf_inprocess ip" and "inprocess_spawn_units ip units = (ip', hs)"
  shows "wf_inprocess ip' \<and> distinct (map wh_id hs) \<and>
    set (map wh_id hs) \<inter> set (dict_keys (ip_tasks ip)) = {} \<and>
    inprocess_check_active ip' hs = hs \<and>
    (\<forall>i. i \<notin> set (map wh_id hs) \<longrightarrow> map_of (ip_tasks ip') i = map_of (ip_tasks ip) i)"
proof -
  note spawn = inprocess_spawn_ids [OF assms(2)]
  have same: "ip_worker_id ip' = ip_worker_id ip" by (simp add: fun_eq_iff ip_worker_id_def spawn(1))
  have "wh_id h \<notin> set (dict_keys (ip_tasks ip))" if "h \<in> set hs" for h
  proof
    assume "wh_id h \<in> set (dict_keys (ip_tasks ip))"
    then obtain q m where old: "wh_id h = ip_worker_id ip q m" "m \<le> ip_counter ip"
      using assms(1) unfolding wf_inprocess_def by blast
    from spawn(3) that obtain q' m' where "wh_id h = ip_worker_id ip q' m'" "ip_counter ip < m'" by blast
    with old ip_worker_id_inject [of ip q m q' m'] show False by simp
  qed
  moreover have "wf_inprocess ip'"
    unfolding wf_inprocess_def same
  proof
    fix i
    assume "i \<in> set (dict_keys (ip_tasks ip'))"
    then have "map_of (ip_tasks ip') i \<noteq> None" by (simp add: map_of_eq_None_iff)
    then have "i \<in> wh_id ` set hs \<or> i \<in> set (dict_keys (ip_tasks ip))"
      unfolding spawn(5) by (metis map_of_eq_None_iff set_map)
    then show "\<exists>q m. i = ip_worker_id ip q m \<and> m \<le> ip_counter ip'"
    proof
      assume "i \<in> wh_id ` set hs"
      then obtain h where "h \<in> set hs" "i = wh_id h" by blast
      with spawn(3) show ?thesis by blast
    next
      assume "i \<in> set (dict_keys (ip_tasks ip))"
      with assms(1) spawn(2) show ?thesis unfolding wf_inprocess_def by (meson le_trans)
    qed
  qed
  moreover have "inprocess_check_active ip' hs = hs"
    by (simp add: inprocess_check_active_def spawn(5))
  ultimately show ?thesis using spawn(4) by (auto simp: spawn(5))
qed

theorem inprocess_ids_fresh_witness:
  "distinct (map wh_id (snd (inprocess_spawn \<lparr>ip_prefix = ''w'', ip_counter = 0, ip_tasks = []\<rparr> [''q'', ''q''])))"
proof -
  let ?ip = "\<lparr>ip_prefix = ''w'', ip_counter = 0, ip_tasks = []\<rparr>"
  have w: "wf_inprocess ?ip" by (simp add: wf_inprocess_def)
  show ?thesis
    unfolding inprocess_spawn_def
    using inprocess_ids_fresh [OF w surjective_pairing] by blast
qed

text \<open>
  No wake-up is lost: a wait that follows a signal with no wait in between returns
  \<open>signal\<close>, however many signals came, and over a whole run the waits that return \<open>signal\<close>
  are at most the signals sent.
\<close>

theorem trigger_no_lost_wakeup:
  assumes "trigger_run False es flag"
  shows "(\<forall>r flag'. trigger_step flag (Wait_returns r) flag' \<longrightarrow>
      (r = Wait_signal \<longleftrightarrow> Signal \<in> set (takeWhile (\<lambda>e. e = Signal) (rev es)))) \<and>
    count_list es (Wait_returns Wait_signal) \<le> count_list es Signal"
proof -
  from assms have "flag = (Signal \<in> set (takeWhile (\<lambda>e. e = Signal) (rev es))) \<and>
      count_list es (Wait_returns Wait_signal) + (if flag then 1 else 0) \<le> count_list es Signal"
  proof (induction False es flag rule: trigger_run.induct)
    case (snoc es mid e flag')
    from snoc(3) snoc(2) show ?case by cases auto
  qed simp
  then show ?thesis by (auto simp: trigger_step_simps split: if_splits)
qed

theorem trigger_no_lost_wakeup_witness:
  "\<not> trigger_step True (Wait_returns Wait_fallback) False"
proof -
  have "trigger_run False ([] @ [Signal]) True"
    by (rule trigger_run.snoc [OF trigger_run.nil trigger_step.signal])
  from trigger_no_lost_wakeup [OF this] show ?thesis by auto
qed

end
