(* ===== verification/Queue_Slots.thy ===== *)
theory Queue_Slots
  imports Db_Tables Dispatch_Cycle
begin

text \<open>
  The leases on the slots of a model queue, \<open>workers/queue/slots.py\<close>: acquiring, adopting and
  releasing a slot, counting the held ones, clearing the expired ones, and reserving slots for
  a spawn plan before its workers are launched. Every operation is one transaction; its
  \<open>NOW()\<close> and the rows another transaction has locked are arguments. The interface
  \<open>lease_rows\<close> states what both lease tables of the program share.
\<close>

subsection \<open>Rows\<close>

record launch_demand =
  ld_key :: demand_key
  ld_adopted :: bool

record queue_slot =
  qs_queue_key :: string
  qs_slot :: int
  qs_locked_by :: "string option"
  qs_locked_until :: "int option"
  qs_locked_at :: "int option"
  qs_launch_demand :: "launch_demand option"

definition slot_id :: "queue_slot \<Rightarrow> string \<times> int" where
  "slot_id r = (qs_queue_key r, qs_slot r)"

definition empty_slot :: "string \<Rightarrow> int \<Rightarrow> queue_slot" where
  "empty_slot key n = \<lparr>qs_queue_key = key, qs_slot = n, qs_locked_by = None,
     qs_locked_until = None, qs_locked_at = None, qs_launch_demand = None\<rparr>"

text \<open>\<open>locked_until IS NULL OR locked_until <= NOW()\<close>, and the test of a held lease.\<close>

definition slot_free :: "int \<Rightarrow> queue_slot \<Rightarrow> bool" where
  "slot_free now r = (case qs_locked_until r of None \<Rightarrow> True | Some u \<Rightarrow> u \<le> now)"

definition slot_held :: "int \<Rightarrow> queue_slot \<Rightarrow> bool" where
  "slot_held now r \<longleftrightarrow> qs_locked_by r \<noteq> None \<and>
     (case qs_locked_until r of None \<Rightarrow> True | Some u \<Rightarrow> now < u)"

definition unlock_slot :: "queue_slot \<Rightarrow> queue_slot" where
  "unlock_slot r = r\<lparr>qs_locked_by := None, qs_locked_until := None, qs_locked_at := None,
     qs_launch_demand := None\<rparr>"

subsection \<open>Operations of a worker\<close>

definition ensure_queue_slots :: "string \<Rightarrow> int \<Rightarrow> queue_slot list \<Rightarrow> queue_slot list" where
  "ensure_queue_slots key limit t =
     (if limit \<le> 0 then t else insert_missing slot_id (map (empty_slot key) [0..limit - 1]) t)"

definition held_count :: "int \<Rightarrow> string \<Rightarrow> queue_slot list \<Rightarrow> int" where
  "held_count now key t = count_by (\<lambda>r. qs_queue_key r = key \<and> slot_held now r) t"

definition adopt_slot :: "int \<Rightarrow> string \<Rightarrow> int \<Rightarrow> queue_slot \<Rightarrow> queue_slot" where
  "adopt_slot now worker_id lease_seconds r =
     r\<lparr>qs_locked_by := Some worker_id, qs_locked_until := Some (now + make_interval lease_seconds),
       qs_locked_at := Some now,
       qs_launch_demand := map_option (\<lambda>d. d\<lparr>ld_adopted := True\<rparr>) (qs_launch_demand r)\<rparr>"

definition adoptable :: "int \<Rightarrow> string \<Rightarrow> int \<Rightarrow> string \<Rightarrow> queue_slot \<Rightarrow> bool" where
  "adoptable now key limit token r \<longleftrightarrow>
     qs_queue_key r = key \<and> qs_slot r < limit \<and> qs_locked_by r = Some token \<and>
     (case qs_launch_demand r of None \<Rightarrow> False | Some d \<Rightarrow> \<not> ld_adopted d) \<and>
     (case qs_locked_until r of None \<Rightarrow> False | Some u \<Rightarrow> now < u)"

text \<open>
  The adoption of a reservation is an \<open>UPDATE .. RETURNING\<close>, of which the code reads the
  first row returned.
\<close>

definition adopt_reservation ::
  "int \<Rightarrow> string \<Rightarrow> int \<Rightarrow> string \<Rightarrow> int \<Rightarrow> string \<Rightarrow> queue_slot list \<Rightarrow>
   queue_slot list \<times> int option" where
  "adopt_reservation now key limit worker_id lease_seconds token t =
     (let P = adoptable now key limit token in
      (update_where P (adopt_slot now worker_id lease_seconds) t,
       case filter P t of [] \<Rightarrow> None | r # _ \<Rightarrow> Some (qs_slot r)))"

definition take_slot :: "int \<Rightarrow> string \<Rightarrow> int \<Rightarrow> queue_slot \<Rightarrow> queue_slot" where
  "take_slot now worker_id lease_seconds r =
     r\<lparr>qs_locked_by := Some worker_id, qs_locked_until := Some (now + make_interval lease_seconds),
       qs_locked_at := Some now, qs_launch_demand := None\<rparr>"

definition acquire_queue_slot ::
  "int \<Rightarrow> (queue_slot \<Rightarrow> bool) \<Rightarrow> string \<Rightarrow> int \<Rightarrow> string \<Rightarrow> int \<Rightarrow> string option \<Rightarrow>
   queue_slot list \<Rightarrow> queue_slot list \<times> int option" where
  "acquire_queue_slot now skip key limit worker_id lease_seconds reservation_token t =
     (if limit \<le> 0 then (t, None)
      else case reservation_token of
        Some token \<Rightarrow> adopt_reservation now key limit worker_id lease_seconds token t
      | None \<Rightarrow>
          (let t' = ensure_queue_slots key limit t;
               candidate = (\<lambda>r. qs_queue_key r = key \<and> qs_slot r < limit \<and>
                 held_count now key t' < limit \<and> slot_free now r \<and> \<not> skip r);
               (t'', row) = claim_first slot_id qs_slot candidate
                 (take_slot now worker_id lease_seconds) t'
           in (t'', map_option qs_slot row)))"

definition release_queue_slot :: "string \<Rightarrow> int \<Rightarrow> string \<Rightarrow> queue_slot list \<Rightarrow> queue_slot list" where
  "release_queue_slot key slot worker_id t =
     update_where (\<lambda>r. slot_id r = (key, slot) \<and> qs_locked_by r = Some worker_id) unlock_slot t"

definition count_held_queue_slots :: "int \<Rightarrow> string list \<Rightarrow> queue_slot list \<Rightarrow> (string, int) dict" where
  "count_held_queue_slots now queue_keys t =
     (if queue_keys = [] then []
      else counter (map qs_queue_key
        (filter (\<lambda>r. slot_held now r \<and> qs_queue_key r \<in> set queue_keys) t)))"

definition stale_slot :: "int \<Rightarrow> queue_slot \<Rightarrow> bool" where
  "stale_slot now r \<longleftrightarrow> qs_locked_by r \<noteq> None \<and>
     (case qs_locked_until r of None \<Rightarrow> False | Some u \<Rightarrow> u \<le> now)"

definition cleanup_stale_queue_slots :: "int \<Rightarrow> queue_slot list \<Rightarrow> queue_slot list \<times> nat" where
  "cleanup_stale_queue_slots now t =
     (update_where (stale_slot now) unlock_slot t, length (filter (stale_slot now) t))"

text \<open>
  \<open>_release_orphaned_slots\<close> of \<open>workers/queue/cleanup.py\<close>: \<open>live\<close> are the workers that
  own a running job.
\<close>

definition ORPHANED_SLOT_GRACE_MINUTES :: int where "ORPHANED_SLOT_GRACE_MINUTES = 2"

definition orphaned_slot :: "int \<Rightarrow> string list \<Rightarrow> queue_slot \<Rightarrow> bool" where
  "orphaned_slot now live r \<longleftrightarrow>
     (case qs_locked_by r of None \<Rightarrow> False | Some w \<Rightarrow> w \<notin> set live) \<and>
     (case qs_launch_demand r of None \<Rightarrow> True | Some d \<Rightarrow> ld_adopted d) \<and>
     (case qs_locked_at r of None \<Rightarrow> True
      | Some t \<Rightarrow> t < now - make_interval (60 * ORPHANED_SLOT_GRACE_MINUTES))"

definition release_orphaned_slots :: "int \<Rightarrow> string list \<Rightarrow> queue_slot list \<Rightarrow> queue_slot list \<times> nat" where
  "release_orphaned_slots now live t =
     (update_where (orphaned_slot now live) unlock_slot t, length (filter (orphaned_slot now live) t))"

subsection \<open>Reserving launches\<close>

definition LAUNCH_LEASE_SECONDS :: int where "LAUNCH_LEASE_SECONDS = 300"

record launch_reservation =
  lr_unit :: dispatch_unit
  lr_slot :: int
  lr_token :: string

definition unit_demand :: "dispatch_unit \<Rightarrow> demand_key" where
  "unit_demand u = (du_org_id u, du_queue_key u, du_harbor_variant_id u, du_execution_lane u,
     du_priority_class u)"

definition pending_launches :: "int \<Rightarrow> queue_slot list \<Rightarrow> (demand_key, int) dict" where
  "pending_launches now t = counter (concat (map (\<lambda>r.
     case (qs_launch_demand r, qs_locked_until r) of
       (Some d, Some u) \<Rightarrow> if now < u then [ld_key d] else []
     | _ \<Rightarrow> []) t))"

definition reservable ::
  "int \<Rightarrow> (queue_slot \<Rightarrow> bool) \<Rightarrow> string \<Rightarrow> int \<Rightarrow> nat \<Rightarrow> queue_slot list \<Rightarrow> queue_slot list" where
  "reservable now skip key limit n t =
     take n (sort_key qs_slot (filter (\<lambda>r. qs_queue_key r = key \<and> qs_slot r < limit \<and>
       slot_free now r \<and> \<not> skip r) t))"

text \<open>
  The body of the loop over \<open>by_queue\<close>; the \<open>i\<close>-th reservation of the transaction gets the
  \<open>i\<close>-th fresh token.
\<close>

definition reserve_queue ::
  "int \<Rightarrow> (queue_slot \<Rightarrow> bool) \<Rightarrow> (nat \<Rightarrow> string) \<Rightarrow> dispatch_plan \<Rightarrow> string \<Rightarrow>
   queue_slot list \<times> launch_reservation list \<Rightarrow> queue_slot list \<times> launch_reservation list" where
  "reserve_queue now skip token plan key st =
     (let (t, reserved) = st;
          limit = dict_get (dp_concurrency_limits plan) key 0;
          units = filter (\<lambda>u. du_queue_key u = key) (dp_unit_plan plan)
      in if limit \<le> 0 then st
         else let t' = ensure_queue_slots key limit t;
                  held = held_count now key t';
                  n = nat (max 0 (min (int (length units)) (limit - held)));
                  slots = reservable now skip key limit n t'
              in (t', reserved @ map (\<lambda>(i, u, r). \<lparr>lr_unit = u, lr_slot = qs_slot r,
                   lr_token = token (length reserved + i)\<rparr>) (enumerate 0 (zip units slots))))"

definition lock_reserved :: "int \<Rightarrow> launch_reservation \<Rightarrow> queue_slot \<Rightarrow> queue_slot" where
  "lock_reserved now res r =
     r\<lparr>qs_locked_by := Some (lr_token res), qs_locked_until := Some (now + make_interval LAUNCH_LEASE_SECONDS),
       qs_locked_at := Some now,
       qs_launch_demand := Some \<lparr>ld_key = unit_demand (lr_unit res), ld_adopted = False\<rparr>\<rparr>"

definition res_id :: "launch_reservation \<Rightarrow> string \<times> int" where
  "res_id res = (du_queue_key (lr_unit res), lr_slot res)"

definition store_reservations ::
  "int \<Rightarrow> launch_reservation list \<Rightarrow> queue_slot list \<Rightarrow> queue_slot list" where
  "store_reservations now reserved t =
     foldl (\<lambda>t res. update_where (\<lambda>r. slot_id r = res_id res) (lock_reserved now res) t) t reserved"

text \<open>
  The transaction: the state is the table of slots and the stored cursors. An exception of
  the planning callback rolls it back.
\<close>

definition reserve_queue_launches ::
  "int \<Rightarrow> (queue_slot \<Rightarrow> bool) \<Rightarrow> (nat \<Rightarrow> string) \<Rightarrow>
   ((string, int) dict \<Rightarrow> (demand_key, int) dict \<Rightarrow> exc + dispatch_plan \<times> (string, int) dict) \<Rightarrow>
   queue_slot list \<times> (string, int) dict \<Rightarrow>
   (queue_slot list \<times> (string, int) dict) \<times> (exc + dispatch_plan \<times> launch_reservation list)" where
  "reserve_queue_launches now skip token build_plan st =
     (let (t, cursors) = st in
      case build_plan cursors (pending_launches now t) of
        Inl e \<Rightarrow> (st, Inl e)
      | Inr (plan, cursors') \<Rightarrow>
          (let keys = sort (remdups (map du_queue_key (dp_unit_plan plan)));
               (t', reserved) = fold (reserve_queue now skip token plan) keys (t, [])
           in ((store_reservations now reserved t', cursors'), Inr (plan, reserved))))"

definition release_launch_reservations :: "string list \<Rightarrow> queue_slot list \<Rightarrow> queue_slot list" where
  "release_launch_reservations tokens t =
     update_where (\<lambda>r. (case qs_locked_by r of None \<Rightarrow> False | Some w \<Rightarrow> w \<in> set tokens) \<and>
       qs_launch_demand r \<noteq> None) unlock_slot t"

subsection \<open>The lease interface\<close>

interpretation slots: lease_rows slot_id qs_locked_by slot_held take_slot unlock_slot
  by unfold_locales
    (auto simp: slot_id_def take_slot_def unlock_slot_def slot_held_def split: option.splits)

interpretation slot_owners: owned_rows slot_id qs_locked_by slot_held take_slot unlock_slot
  by unfold_locales (simp add: unlock_slot_def)

text \<open>
  A well-formed table: slots are unique, a row with an owner has a deadline and the other way
  round, and only an owned row carries the demand it was reserved for.
\<close>

definition wf_slot :: "queue_slot \<Rightarrow> bool" where
  "wf_slot r \<longleftrightarrow> (qs_locked_by r = None \<longleftrightarrow> qs_locked_until r = None) \<and>
     (qs_launch_demand r \<noteq> None \<longrightarrow> qs_locked_by r \<noteq> None)"

definition wf_slots :: "queue_slot list \<Rightarrow> bool" where
  "wf_slots t \<longleftrightarrow> distinct (map slot_id t) \<and> (\<forall>r \<in> set t. wf_slot r)"

lemma wf_slots_update:
  assumes "wf_slots t" and "\<And>r. slot_id (f r) = slot_id r" and "\<And>r. wf_slot r \<Longrightarrow> wf_slot (f r)"
  shows "wf_slots (update_where P f t)"
  using assms by (auto simp: wf_slots_def update_where_map in_update_where)

lemma slot_updates [table_simps]:
  "slot_id (unlock_slot r) = slot_id r" "wf_slot (unlock_slot r)"
  "slot_id (take_slot now w s r) = slot_id r" "wf_slot (take_slot now w s r)"
  "slot_id (adopt_slot now w s r) = slot_id r" "wf_slot (adopt_slot now w s r)"
  "slot_id (lock_reserved now res r) = slot_id r" "wf_slot (lock_reserved now res r)"
  by (simp_all add: slot_id_def unlock_slot_def take_slot_def adopt_slot_def lock_reserved_def wf_slot_def)

lemma free_not_held: "wf_slot r \<Longrightarrow> slot_free now r \<Longrightarrow> \<not> slot_held now r"
  by (auto simp: wf_slot_def slot_free_def slot_held_def split: option.splits)

lemma empty_slot_unheld [simp]: "\<not> slot_held now (empty_slot key n)"
  by (simp add: slot_held_def empty_slot_def)

lemma ensure_wf: "wf_slots t \<Longrightarrow> wf_slots (ensure_queue_slots key limit t)"
proof -
  assume wf: "wf_slots t"
  have ids: "distinct (map slot_id (map (empty_slot key) [0..limit - 1]))"
    by (simp add: distinct_map inj_on_def slot_id_def empty_slot_def)
  have "wf_slot (empty_slot key n)" for n by (simp add: wf_slot_def empty_slot_def)
  then have "\<forall>r \<in> set (insert_missing slot_id (map (empty_slot key) [0..limit - 1]) t). wf_slot r"
    using wf unfolding wf_slots_def insert_missing_def by fastforce
  moreover have "distinct (map slot_id (insert_missing slot_id (map (empty_slot key) [0..limit - 1]) t))"
    using wf ids unfolding wf_slots_def by (intro insert_missing_distinct) simp_all
  ultimately show ?thesis using wf by (simp add: wf_slots_def ensure_queue_slots_def)
qed

lemma ensure_rows: "set t \<subseteq> set (ensure_queue_slots key limit t)"
  by (simp add: ensure_queue_slots_def insert_missing_rows)

lemma ensure_held [simp]: "held_count now k (ensure_queue_slots key limit t) = held_count now k t"
proof -
  have "length (filter (\<lambda>r. qs_queue_key r = k \<and> slot_held now r)
        (insert_missing slot_id (map (empty_slot key) [0..limit - 1]) t))
      = length (filter (\<lambda>r. qs_queue_key r = k \<and> slot_held now r) t)"
    by (rule insert_missing_count) auto
  then show ?thesis by (simp add: ensure_queue_slots_def held_count_def)
qed

lemma held_count_slots:
  "held_count now key t = count_by (\<lambda>r. fst (slot_id r) = key \<and> slot_held now r) t"
  by (simp add: held_count_def slot_id_def)

text \<open>What acquiring a slot does, in terms of the lease interface.\<close>

lemma acquire_claim:
  assumes "wf_slots t" and "acquire_queue_slot now skip key limit w secs None t = (t', Some n)"
  obtains r where "claim_first slot_id qs_slot (\<lambda>r. qs_queue_key r = key \<and> qs_slot r < limit \<and>
        held_count now key t < limit \<and> slot_free now r \<and> \<not> skip r) (take_slot now w secs)
        (ensure_queue_slots key limit t) = (t', Some r)"
    and "slot_id r = (key, n)" and "n < limit" and "held_count now key t < limit"
    and "\<not> slot_held now r"
proof -
  from assms(2) obtain r where c: "claim_first slot_id qs_slot (\<lambda>r. qs_queue_key r = key \<and> qs_slot r < limit \<and>
        held_count now key t < limit \<and> slot_free now r \<and> \<not> skip r) (take_slot now w secs)
        (ensure_queue_slots key limit t) = (t', Some r)" "n = qs_slot r"
    by (auto simp: acquire_queue_slot_def Let_def split: if_splits prod.splits)
  note s = claim_first_Some [OF c(1)]
  have "wf_slot r" using ensure_wf [OF assms(1)] s(1) by (auto simp: wf_slots_def)
  with s(2) have "\<not> slot_held now r" using free_not_held by blast
  with c s(2) show thesis by (intro that [OF c(1)]) (auto simp: slot_id_def)
qed

lemma acquire_wf:
  assumes "wf_slots t" and "acquire_queue_slot now skip key limit w secs tok t = (t', res)"
  shows "wf_slots t'"
proof (cases tok)
  case None
  have "wf_slots (ensure_queue_slots key limit t)" by (rule ensure_wf [OF assms(1)])
  with assms None show ?thesis
    by (auto simp: acquire_queue_slot_def Let_def claim_first_def slot_updates
      split: if_splits prod.splits list.splits intro!: wf_slots_update)
next
  case (Some a)
  with assms show ?thesis
    by (auto simp: acquire_queue_slot_def adopt_reservation_def Let_def slot_updates
      split: if_splits intro!: wf_slots_update)
qed

subsection \<open>Reservations\<close>

text \<open>
  The state of the loop over the planned queues: the table has grown by empty slots only, every
  reservation so far names a free row, reservations name different rows, and a queue has at most
  the reservations its limit leaves over the leases held before the transaction.
\<close>

definition queue_reservations :: "launch_reservation list \<Rightarrow> string \<Rightarrow> int" where
  "queue_reservations reserved key = count_by (\<lambda>res. fst (res_id res) = key) reserved"

definition reserving ::
  "int \<Rightarrow> dispatch_plan \<Rightarrow> queue_slot list \<Rightarrow> string set \<Rightarrow>
   queue_slot list \<times> launch_reservation list \<Rightarrow> bool" where
  "reserving now plan t0 seen st \<longleftrightarrow>
     wf_slots (fst st) \<and> set t0 \<subseteq> set (fst st) \<and>
     (\<forall>key. held_count now key (fst st) = held_count now key t0) \<and>
     (\<forall>res \<in> set (snd st). \<exists>r \<in> set (fst st). slot_id r = res_id res \<and> slot_free now r) \<and>
     distinct (map res_id (snd st)) \<and>
     (\<forall>key. 0 < queue_reservations (snd st) key \<longrightarrow> key \<in> seen \<and>
        held_count now key t0 + queue_reservations (snd st) key
          \<le> dict_get (dp_concurrency_limits plan) key 0)"

lemma reservable_rows:
  assumes "wf_slots t"
  shows "distinct (map qs_slot (reservable now skip key limit n t))"
    and "r \<in> set (reservable now skip key limit n t) \<Longrightarrow>
      r \<in> set t \<and> qs_queue_key r = key \<and> slot_free now r \<and> qs_slot r < limit"
    and "length (reservable now skip key limit n t) \<le> n"
proof -
  let ?P = "\<lambda>r. qs_queue_key r = key \<and> qs_slot r < limit \<and> slot_free now r \<and> \<not> skip r"
  have "distinct (map slot_id (filter ?P t))"
    using assms by (simp add: wf_slots_def distinct_map_filter)
  then have d: "distinct (filter ?P t)" "inj_on slot_id (set (filter ?P t))" by (simp_all only: distinct_map)
  have "inj_on qs_slot (set (filter ?P t))"
  proof (rule inj_onI)
    fix x y
    assume "x \<in> set (filter ?P t)" "y \<in> set (filter ?P t)" "qs_slot x = qs_slot y"
    then have "slot_id x = slot_id y" by (simp add: slot_id_def)
    with d(2) \<open>x \<in> set (filter ?P t)\<close> \<open>y \<in> set (filter ?P t)\<close> show "x = y" by (meson inj_onD)
  qed
  with d(1) have "distinct (map qs_slot (sort_key qs_slot (filter ?P t)))" by (simp add: distinct_map)
  then show "distinct (map qs_slot (reservable now skip key limit n t))"
    unfolding reservable_def take_map [symmetric] by (rule distinct_take)
  show "r \<in> set (reservable now skip key limit n t) \<Longrightarrow>
      r \<in> set t \<and> qs_queue_key r = key \<and> slot_free now r \<and> qs_slot r < limit"
    unfolding reservable_def by (auto dest: in_set_takeD)
  show "length (reservable now skip key limit n t) \<le> n" by (simp add: reservable_def)
qed

text \<open>The reservations one queue adds.\<close>

lemma reserve_queue_new:
  assumes "wf_slots t" and "0 < dict_get (dp_concurrency_limits plan) key 0"
  obtains new t' where "reserve_queue now skip token plan key (t, reserved) = (t', reserved @ new)"
    and "t' = ensure_queue_slots key (dict_get (dp_concurrency_limits plan) key 0) t"
    and "distinct (map res_id new)" and "\<forall>res \<in> set new. fst (res_id res) = key"
    and "\<forall>res \<in> set new. \<exists>r \<in> set t'. slot_id r = res_id res \<and> slot_free now r"
    and "int (length new) \<le> max 0 (dict_get (dp_concurrency_limits plan) key 0 - held_count now key t)"
proof -
  define limit where "limit = dict_get (dp_concurrency_limits plan) key 0"
  define t' where "t' = ensure_queue_slots key limit t"
  define units where "units = filter (\<lambda>u. du_queue_key u = key) (dp_unit_plan plan)"
  define n where "n = nat (max 0 (min (int (length units)) (limit - held_count now key t)))"
  define slots where "slots = reservable now skip key limit n t'"
  define new where "new = map (\<lambda>(i, u, r). \<lparr>lr_unit = u, lr_slot = qs_slot r,
      lr_token = token (length reserved + i)\<rparr>) (enumerate 0 (zip units slots))"
  have wf: "wf_slots t'" unfolding t'_def by (rule ensure_wf [OF assms(1)])
  note rows = reservable_rows [OF wf, where now = now and skip = skip and key = key
      and limit = limit and n = n, folded slots_def]
  have e: "reserve_queue now skip token plan key (t, reserved) = (t', reserved @ new)"
    using assms(2) unfolding reserve_queue_def Let_def limit_def [symmetric] t'_def [symmetric]
      units_def [symmetric]
    by (simp add: t'_def n_def [symmetric] new_def slots_def)
  have key: "\<forall>res \<in> set new. fst (res_id res) = key"
    by (auto simp: new_def res_id_def units_def in_set_zip enumerate_eq_zip)
      (metis (mono_tags, lifting) mem_Collect_eq nth_mem set_filter)
  have len: "length new \<le> n" using rows(3) by (simp add: new_def)
  have "map lr_slot new = map qs_slot (take (length new) slots)"
    by (rule nth_equalityI) (auto simp: new_def nth_enumerate_eq)
  then have slots: "map lr_slot new = take (length new) (map qs_slot slots)" by (simp add: take_map)
  have "distinct (map lr_slot new)" unfolding slots by (rule distinct_take) (rule rows(1))
  then have "distinct (map snd (map res_id new))" by (simp add: res_id_def o_def)
  then have d: "distinct (map res_id new)" by (metis distinct_map map_map)
  have "\<exists>r \<in> set t'. slot_id r = res_id res \<and> slot_free now r" if "res \<in> set new" for res
  proof -
    have "lr_slot res \<in> set (map lr_slot new)" using that by simp
    then have "lr_slot res \<in> set (map qs_slot slots)" unfolding slots by (rule in_set_takeD)
    then obtain r where r: "r \<in> set slots" "qs_slot r = lr_slot res" by auto
    have "slot_id r = res_id res"
      using key that r(2) rows(2) [OF r(1)] by (auto simp: slot_id_def res_id_def)
    with rows(2) [OF r(1)] show ?thesis by blast
  qed
  with e key len d show thesis by (intro that [OF e t'_def [unfolded limit_def]]) (auto simp: n_def limit_def)
qed

lemma reserve_queue_reserving:
  assumes "reserving now plan t0 seen st" and "key \<notin> seen"
  shows "reserving now plan t0 (insert key seen) (reserve_queue now skip token plan key st)"
proof (cases "dict_get (dp_concurrency_limits plan) key 0 \<le> 0")
  case True
  then have "reserve_queue now skip token plan key st = st" by (cases st) (simp add: reserve_queue_def)
  with assms(1) show ?thesis by (auto simp: reserving_def)
next
  case False
  obtain t reserved where st: "st = (t, reserved)" by (cases st)
  from assms(1) have inv: "wf_slots t" "set t0 \<subseteq> set t" "\<And>k. held_count now k t = held_count now k t0"
    "\<And>res. res \<in> set reserved \<Longrightarrow> \<exists>r \<in> set t. slot_id r = res_id res \<and> slot_free now r"
    "distinct (map res_id reserved)"
    "\<And>k. 0 < queue_reservations reserved k \<Longrightarrow> k \<in> seen \<and> held_count now k t0
      + queue_reservations reserved k \<le> dict_get (dp_concurrency_limits plan) k 0"
    unfolding st reserving_def by simp_all
  obtain new t' where new: "reserve_queue now skip token plan key (t, reserved) = (t', reserved @ new)"
    "t' = ensure_queue_slots key (dict_get (dp_concurrency_limits plan) key 0) t"
    "distinct (map res_id new)" "\<forall>res \<in> set new. fst (res_id res) = key"
    "\<forall>res \<in> set new. \<exists>r \<in> set t'. slot_id r = res_id res \<and> slot_free now r"
    "int (length new) \<le> max 0 (dict_get (dp_concurrency_limits plan) key 0 - held_count now key t)"
    by (rule reserve_queue_new [OF inv(1), of plan key now skip token reserved]) (use False in simp)
  have rows: "set t \<subseteq> set t'" unfolding new(2) by (rule ensure_rows)
  have old: "fst (res_id res) \<noteq> key" if "res \<in> set reserved" for res
  proof -
    have "0 < queue_reservations reserved (fst (res_id res))"
      using that by (auto simp: queue_reservations_def filter_empty_conv)
    with inv(6) assms(2) show ?thesis by blast
  qed
  have cnt: "queue_reservations (reserved @ new) k
      = (if k = key then int (length new) else queue_reservations reserved k)" for k
  proof -
    have "filter (\<lambda>res. fst (res_id res) = k) new = (if k = key then new else [])"
      using new(4) by (auto simp: filter_id_conv filter_empty_conv)
    moreover have "filter (\<lambda>res. fst (res_id res) = key) reserved = []"
      using old by (auto simp: filter_empty_conv)
    ultimately show ?thesis by (auto simp: queue_reservations_def)
  qed
  have "res_id ` set reserved \<inter> res_id ` set new = {}" using old new(4) by force
  with inv(5) new(3) have "distinct (map res_id (reserved @ new))" by simp
  moreover have "wf_slots t'" unfolding new(2) by (rule ensure_wf [OF inv(1)])
  moreover have "held_count now k t' = held_count now k t0" for k unfolding new(2) by (simp add: inv(3))
  moreover have "\<exists>r \<in> set t'. slot_id r = res_id res \<and> slot_free now r"
    if "res \<in> set (reserved @ new)" for res
  proof (cases "res \<in> set reserved")
    case True
    with inv(4) rows show ?thesis by blast
  next
    case False
    with that new(5) show ?thesis by simp
  qed
  moreover have "k \<in> insert key seen \<and> held_count now k t0 + queue_reservations (reserved @ new) k
      \<le> dict_get (dp_concurrency_limits plan) k 0" if "0 < queue_reservations (reserved @ new) k" for k
  proof (cases "k = key")
    case True
    with that have "0 < int (length new)" by (simp only: cnt simp_thms if_True)
    with new(6) inv(3) [of key]
    have "held_count now key t0 + int (length new) \<le> dict_get (dp_concurrency_limits plan) key 0"
      by linarith
    with True show ?thesis by (simp add: cnt)
  next
    case False
    with that inv(6) [of k] show ?thesis by (simp add: cnt)
  qed
  ultimately show ?thesis
    unfolding st new(1) reserving_def using inv(2) rows by auto
qed

lemma fold_reserving:
  assumes "reserving now plan t0 seen st" and "distinct keys" and "set keys \<inter> seen = {}"
  shows "reserving now plan t0 (set keys \<union> seen) (fold (reserve_queue now skip token plan) keys st)"
  using assms
proof (induction keys arbitrary: st seen)
  case (Cons key keys)
  from Cons.prems have "reserving now plan t0 (insert key seen) (reserve_queue now skip token plan key st)"
    by (intro reserve_queue_reserving) auto
  from Cons.IH [OF this] Cons.prems show ?case by simp
qed simp

text \<open>Storing the reservations.\<close>

lemma store_wf: "wf_slots t \<Longrightarrow> wf_slots (store_reservations now reserved t)"
  unfolding store_reservations_def
  by (induction reserved arbitrary: t) (simp_all add: wf_slots_update slot_updates)

lemma store_held:
  assumes "wf_slots t"
  shows "held_count now key (store_reservations now reserved t)
    \<le> held_count now key t + queue_reservations reserved key"
  using assms
proof (induction reserved arbitrary: t)
  case Nil
  then show ?case by (simp add: store_reservations_def queue_reservations_def)
next
  case (Cons res reserved)
  let ?t = "update_where (\<lambda>r. slot_id r = res_id res) (lock_reserved now res) t"
  have wf: "wf_slots ?t" using Cons.prems by (simp add: wf_slots_update slot_updates)
  have "held_count now key ?t \<le> held_count now key t + (if fst (res_id res) = key then 1 else 0)"
  proof (cases "fst (res_id res) = key")
    case True
    have "distinct (map slot_id t)" using Cons.prems by (simp add: wf_slots_def)
    from count_update_key_le [OF this, of "\<lambda>r. qs_queue_key r = key \<and> slot_held now r" "res_id res"
        "lock_reserved now res"] True
    show ?thesis by (simp only: held_count_def simp_thms if_True)
  next
    case False
    have "length (filter (\<lambda>r. qs_queue_key r = key \<and> slot_held now r) ?t)
        = length (filter (\<lambda>r. qs_queue_key r = key \<and> slot_held now r) t)"
    proof (rule count_update_where_eq)
      fix r
      assume "slot_id r = res_id res"
      then have "qs_queue_key r \<noteq> key" using False by (metis fst_conv slot_id_def)
      then show "(qs_queue_key (lock_reserved now res r) = key \<and> slot_held now (lock_reserved now res r))
          = (qs_queue_key r = key \<and> slot_held now r)"
        by (simp add: lock_reserved_def)
    qed
    with False show ?thesis by (simp add: held_count_def)
  qed
  with Cons.IH [OF wf] show ?case
    by (cases "fst (res_id res) = key") (simp_all add: store_reservations_def queue_reservations_def)
qed

lemma store_rows:
  assumes "wf_slots t" and "distinct (map res_id reserved)"
    and "\<And>res. res \<in> set reserved \<Longrightarrow> \<exists>r \<in> set t. slot_id r = res_id res"
  shows "res \<in> set reserved \<Longrightarrow> \<exists>r \<in> set (store_reservations now reserved t). slot_id r = res_id res \<and>
      qs_locked_by r = Some (lr_token res) \<and> qs_locked_until r = Some (now + make_interval LAUNCH_LEASE_SECONDS) \<and>
      qs_launch_demand r = Some \<lparr>ld_key = unit_demand (lr_unit res), ld_adopted = False\<rparr>"
    and "r \<in> set t \<Longrightarrow> slot_id r \<notin> res_id ` set reserved \<Longrightarrow> r \<in> set (store_reservations now reserved t)"
proof -
  have keep: "r \<in> set t \<Longrightarrow> slot_id r \<notin> res_id ` set reserved \<Longrightarrow> r \<in> set (store_reservations now reserved t)"
    for r t reserved
    unfolding store_reservations_def
    by (induction reserved arbitrary: t) (simp_all add: update_where_untouched)
  then show "r \<in> set t \<Longrightarrow> slot_id r \<notin> res_id ` set reserved \<Longrightarrow> r \<in> set (store_reservations now reserved t)"
    by blast
  assume "res \<in> set reserved"
  then obtain xs ys where split: "reserved = xs @ res # ys" by (auto dest: split_list)
  let ?t1 = "store_reservations now xs t"
  let ?t2 = "update_where (\<lambda>r. slot_id r = res_id res) (lock_reserved now res) ?t1"
  from split assms(2) have other: "res_id res \<notin> res_id ` set xs" "res_id res \<notin> res_id ` set ys" by auto
  obtain r where r: "r \<in> set t" "slot_id r = res_id res" using assms(3) split by auto
  then have "r \<in> set ?t1" using keep other(1) by simp
  with r have "lock_reserved now res r \<in> set ?t2" by (auto simp: in_update_where)
  moreover have "slot_id (lock_reserved now res r) = res_id res" using r(2) by (simp add: slot_updates)
  ultimately have "lock_reserved now res r \<in> set (store_reservations now ys ?t2)"
    using keep other(2) by simp
  moreover have "store_reservations now reserved t = store_reservations now ys ?t2"
    by (simp add: split store_reservations_def)
  ultimately show "\<exists>r \<in> set (store_reservations now reserved t). slot_id r = res_id res \<and>
      qs_locked_by r = Some (lr_token res) \<and> qs_locked_until r = Some (now + make_interval LAUNCH_LEASE_SECONDS) \<and>
      qs_launch_demand r = Some \<lparr>ld_key = unit_demand (lr_unit res), ld_adopted = False\<rparr>"
    using \<open>slot_id (lock_reserved now res r) = res_id res\<close>
    by (intro bexI [of _ "lock_reserved now res r"]) (simp_all add: lock_reserved_def)
qed

text \<open>The whole transaction, taken apart.\<close>

lemma reserve_cases:
  assumes "wf_slots t" and "reserve_queue_launches now skip token build_plan (t, cs) = ((t', cs'), Inr (plan, reserved))"
  obtains t1 where "reserving now plan t UNIV (t1, reserved)"
    and "t' = store_reservations now reserved t1" and "build_plan cs (pending_launches now t) = Inr (plan, cs')"
proof -
  from assms(2) have bp: "build_plan cs (pending_launches now t) = Inr (plan, cs')"
    by (auto simp: reserve_queue_launches_def Let_def split: sum.splits prod.splits)
  let ?keys = "sort (remdups (map du_queue_key (dp_unit_plan plan)))"
  obtain t1 where f: "fold (reserve_queue now skip token plan) ?keys (t, []) = (t1, reserved)"
    and t': "t' = store_reservations now reserved t1"
    using assms(2) bp by (auto simp: reserve_queue_launches_def Let_def split: prod.splits)
  have "reserving now plan t {} (t, [])"
    using assms(1) by (simp add: reserving_def queue_reservations_def)
  from fold_reserving [OF this, of ?keys skip token] f
  have "reserving now plan t (set ?keys) (t1, reserved)" by simp
  then have "reserving now plan t UNIV (t1, reserved)" by (simp add: reserving_def)
  then show thesis using t' bp by (rule that)
qed

subsection \<open>Reachable tables\<close>

text \<open>
  Everything that happens to the table: time passes, and the operations run, with limits that
  may change from call to call below a ceiling \<open>cap\<close>.
\<close>

inductive slot_step ::
  "(string \<Rightarrow> int) \<Rightarrow> int \<times> queue_slot list \<Rightarrow> int \<times> queue_slot list \<Rightarrow> bool" for cap where
  tick: "now \<le> now' \<Longrightarrow> slot_step cap (now, t) (now', t)"
| acquire: "limit \<le> cap key \<Longrightarrow> 0 < secs \<Longrightarrow>
    acquire_queue_slot now skip key limit w secs tok t = (t', res) \<Longrightarrow> slot_step cap (now, t) (now, t')"
| release: "slot_step cap (now, t) (now, release_queue_slot key slot w t)"
| cleanup: "slot_step cap (now, t) (now, fst (cleanup_stale_queue_slots now t))"
| reserve: "(\<And>c p plan c' key. build_plan c p = Inr (plan, c') \<Longrightarrow>
      dict_get (dp_concurrency_limits plan) key 0 \<le> cap key) \<Longrightarrow>
    reserve_queue_launches now skip token build_plan (t, cs) = ((t', cs'), res) \<Longrightarrow>
    slot_step cap (now, t) (now, t')"
| abandon: "slot_step cap (now, t) (now, release_launch_reservations tokens t)"
| orphans: "slot_step cap (now, t) (now, fst (release_orphaned_slots now live t))"

inductive slots_reachable :: "(string \<Rightarrow> int) \<Rightarrow> int \<times> queue_slot list \<Rightarrow> bool" for cap where
  init: "slots_reachable cap (now, [])"
| step: "slots_reachable cap s \<Longrightarrow> slot_step cap s s' \<Longrightarrow> slots_reachable cap s'"

definition slots_ok :: "(string \<Rightarrow> int) \<Rightarrow> int \<times> queue_slot list \<Rightarrow> bool" where
  "slots_ok cap s \<longleftrightarrow> wf_slots (snd s) \<and>
     (\<forall>key. held_count (fst s) key (snd s) \<le> max 0 (cap key))"

lemma acquire_held:
  assumes "wf_slots t" and "acquire_queue_slot now skip key limit w secs None t = (t', Some n)"
    and "0 < secs"
  shows "held_count now k t' = held_count now k t + (if k = key then 1 else 0)"
    and "held_count now key t < limit"
proof -
  obtain r where c: "claim_first slot_id qs_slot (\<lambda>r. qs_queue_key r = key \<and> qs_slot r < limit \<and>
        held_count now key t < limit \<and> slot_free now r \<and> \<not> skip r) (take_slot now w secs)
        (ensure_queue_slots key limit t) = (t', Some r)" "slot_id r = (key, n)" "held_count now key t < limit"
      "\<not> slot_held now r"
    by (rule acquire_claim [OF assms(1,2)])
  have d: "distinct (map slot_id (ensure_queue_slots key limit t))"
    using ensure_wf [OF assms(1)] by (simp add: wf_slots_def)
  have "held_count now k t' = held_count now k (ensure_queue_slots key limit t) + (if k = key then 1 else 0)"
    using slots.claim_counts [OF c(1) d c(4) assms(3), of "\<lambda>i. fst i = k"]
    unfolding held_count_slots c(2) by (simp add: eq_commute)
  then show "held_count now k t' = held_count now k t + (if k = key then 1 else 0)" by simp
  show "held_count now key t < limit" by (rule c(3))
qed

lemma adopt_held:
  assumes "0 < secs"
  shows "held_count now k (fst (adopt_reservation now key limit w secs tok t)) = held_count now k t"
proof -
  have "length (filter (\<lambda>r. qs_queue_key r = k \<and> slot_held now r)
      (update_where (adoptable now key limit tok) (adopt_slot now w secs) t))
      = length (filter (\<lambda>r. qs_queue_key r = k \<and> slot_held now r) t)"
    by (rule count_update_where_eq)
      (use assms in \<open>auto simp: adoptable_def adopt_slot_def slot_held_def split: option.splits\<close>)
  then show ?thesis by (simp add: adopt_reservation_def Let_def held_count_def)
qed

lemma unlock_held:
  "held_count now k (update_where P unlock_slot t) \<le> held_count now k t"
  unfolding held_count_slots using slots.unlock_counts [of "\<lambda>i. fst i = k"] by simp

lemma later_held: "now \<le> now' \<Longrightarrow> held_count now' k t \<le> held_count now k t"
  unfolding held_count_def using slots.later_counts [of now now' "\<lambda>r. qs_queue_key r = k"] by simp

lemma reserve_held:
  assumes "wf_slots t" and "reserve_queue_launches now skip token build_plan (t, cs) = ((t', cs'), Inr (plan, reserved))"
  shows "wf_slots t'"
    and "held_count now k t' \<le> held_count now k t + queue_reservations reserved k"
    and "0 < queue_reservations reserved k \<Longrightarrow>
      held_count now k t + queue_reservations reserved k \<le> dict_get (dp_concurrency_limits plan) k 0"
proof -
  obtain t1 where r: "reserving now plan t UNIV (t1, reserved)" and t': "t' = store_reservations now reserved t1"
    by (rule reserve_cases [OF assms])
  from r have wf: "wf_slots t1" by (simp add: reserving_def)
  then show "wf_slots t'" unfolding t' by (rule store_wf)
  from r have "held_count now k t1 = held_count now k t" by (simp add: reserving_def)
  with store_held [OF wf, of now k reserved]
  show "held_count now k t' \<le> held_count now k t + queue_reservations reserved k" unfolding t' by simp
  from r show "0 < queue_reservations reserved k \<Longrightarrow>
      held_count now k t + queue_reservations reserved k \<le> dict_get (dp_concurrency_limits plan) k 0"
    by (simp add: reserving_def)
qed

lemma queue_reservations_nonneg: "0 \<le> queue_reservations reserved k"
  by (simp add: queue_reservations_def)

lemma unlock_ok:
  assumes "slots_ok cap (now, t)"
  shows "slots_ok cap (now, update_where P unlock_slot t)"
proof -
  from assms have wf: "wf_slots t" and le: "\<And>k. held_count now k t \<le> max 0 (cap k)"
    by (simp_all add: slots_ok_def)
  have "held_count now k (update_where P unlock_slot t) \<le> max 0 (cap k)" for k
    using unlock_held [of now k _ t] le [of k] order_trans by blast
  moreover have "wf_slots (update_where P unlock_slot t)"
    using wf by (intro wf_slots_update) (simp_all add: slot_updates)
  ultimately show ?thesis by (simp add: slots_ok_def)
qed

lemma slot_step_ok:
  assumes "slot_step cap s s'" and "slots_ok cap s"
  shows "slots_ok cap s'"
  using assms
proof (induction rule: slot_step.induct)
  case (tick now now' t)
  then have wf: "wf_slots t" and le: "\<And>k. held_count now k t \<le> max 0 (cap k)"
    by (simp_all add: slots_ok_def)
  have "held_count now' k t \<le> max 0 (cap k)" for k
    using later_held [OF tick(1), of k t] le [of k] by linarith
  with wf show ?case by (simp add: slots_ok_def)
next
  case (acquire limit key secs now skip w tok t t' res)
  then have wf: "wf_slots t" and le: "\<And>k. held_count now k t \<le> max 0 (cap k)"
    by (simp_all add: slots_ok_def)
  have "held_count now k t' \<le> max 0 (cap k)" for k
  proof (cases "tok = None \<and> res \<noteq> None")
    case True
    then obtain n where "acquire_queue_slot now skip key limit w secs None t = (t', Some n)"
      using acquire(3) by auto
    from acquire_held(1) [OF wf this acquire(2), of k] acquire_held(2) [OF wf this acquire(2)]
      le [of k] acquire(1)
    show ?thesis by (cases "k = key") simp_all
  next
    case False
    have "held_count now k t' = held_count now k t"
    proof (cases tok)
      case None
      with False acquire(3) show ?thesis
        by (auto simp: acquire_queue_slot_def Let_def claim_first_None split: if_splits prod.splits)
    next
      case (Some token)
      with acquire(3) have "t' = t \<or> t' = fst (adopt_reservation now key limit w secs token t)"
        by (auto simp: acquire_queue_slot_def split: if_splits)
      with adopt_held [OF acquire(2)] show ?thesis by metis
    qed
    with le show ?thesis by simp
  qed
  with acquire_wf [OF wf acquire(3)] show ?case by (simp add: slots_ok_def)
next
  case (release now t key slot w)
  then show ?case by (simp add: release_queue_slot_def unlock_ok)
next
  case (cleanup now t)
  then show ?case by (simp add: cleanup_stale_queue_slots_def unlock_ok)
next
  case (reserve build_plan now skip token t cs t' cs' res)
  then have wf: "wf_slots t" and le: "\<And>k. held_count now k t \<le> max 0 (cap k)"
    by (simp_all add: slots_ok_def)
  show ?case
  proof (cases res)
    case (Inl e)
    with reserve show ?thesis
      by (auto simp: reserve_queue_launches_def Let_def split: sum.splits prod.splits)
  next
    case (Inr pr)
    obtain plan reserved where pr: "pr = (plan, reserved)" by (cases pr)
    have run: "reserve_queue_launches now skip token build_plan (t, cs) = ((t', cs'), Inr (plan, reserved))"
      using reserve(2) Inr pr by simp
    have limk: "dict_get (dp_concurrency_limits plan) k 0 \<le> cap k" for k
      using reserve(1) by (rule reserve_cases [OF wf run])
    have "held_count now k t' \<le> max 0 (cap k)" for k
      using reserve_held(2,3) [OF wf run, of k] le [of k] limk [of k] queue_reservations_nonneg [of reserved k]
      by linarith
    with reserve_held(1) [OF wf run] show ?thesis by (simp add: slots_ok_def)
  qed
next
  case (abandon now t tokens)
  then show ?case by (simp add: release_launch_reservations_def unlock_ok)
next
  case (orphans now t live)
  then show ?case by (simp add: release_orphaned_slots_def unlock_ok)
qed

lemma slots_reachable_ok: "slots_reachable cap s \<Longrightarrow> slots_ok cap s"
proof (induction rule: slots_reachable.induct)
  case (init now)
  then show ?case by (simp add: slots_ok_def wf_slots_def held_count_def)
next
  case (step s s')
  from slot_step_ok [OF step(2,3)] show ?case .
qed

subsection \<open>Properties of the leases\<close>

text \<open>
  C2. The model cap holds in every reachable table, whatever the order of the operations and
  the rows skipped: the leases held for a queue never exceed the highest limit it was given,
  and every table is well formed (unique slots, an owner exactly with a deadline).
\<close>

theorem queue_slots_never_oversubscribed:
  assumes "slots_reachable cap (now, t)"
  shows "int (length (filter (\<lambda>r. qs_queue_key r = key \<and> slot_held now r) t)) \<le> max 0 (cap key) \<and>
    distinct (map slot_id t) \<and>
    (\<forall>r \<in> set t. qs_locked_by r = None \<longleftrightarrow> qs_locked_until r = None)"
  using slots_reachable_ok [OF assms]
  by (simp add: slots_ok_def wf_slots_def wf_slot_def held_count_def)

theorem queue_slots_never_oversubscribed_witness:
  "int (length (filter (\<lambda>r. qs_queue_key r = ''q'' \<and> slot_held 0 r)
     (fst (acquire_queue_slot 0 (\<lambda>r. False) ''q'' 1 ''w'' 60 None [])))) \<le> 1"
proof -
  have "slot_step (\<lambda>k. 1) (0, []) (0, fst (acquire_queue_slot 0 (\<lambda>r. False) ''q'' 1 ''w'' 60 None []))"
    by (rule slot_step.acquire [where limit = 1 and key = "''q''" and secs = 60 and w = "''w''"
          and tok = None and skip = "\<lambda>r. False"
          and res = "snd (acquire_queue_slot 0 (\<lambda>r. False) ''q'' 1 ''w'' 60 None [])"]) simp_all
  with slots_reachable.init [of "\<lambda>k. 1" 0]
  have "slots_reachable (\<lambda>k. 1) (0, fst (acquire_queue_slot 0 (\<lambda>r. False) ''q'' 1 ''w'' 60 None []))"
    by (rule slots_reachable.step)
  from queue_slots_never_oversubscribed [OF this, of "''q''"] show ?thesis by simp
qed

text \<open>
  An acquired slot is the caller's alone: it was free, it is below the limit, it is now
  leased to the worker for the time asked, the count of held leases grows by one within the
  limit, and no lease that was held is touched.
\<close>

theorem acquire_queue_slot_exclusive:
  assumes "wf_slots t" and "0 < secs"
    and "acquire_queue_slot now skip key limit w secs None t = (t', Some n)"
  shows "n < limit \<and>
    (\<exists>r \<in> set t'. slot_id r = (key, n) \<and> qs_locked_by r = Some w \<and>
       qs_locked_until r = Some (now + make_interval secs) \<and> slot_held now r) \<and>
    (\<forall>r \<in> set t. slot_held now r \<longrightarrow> slot_id r \<noteq> (key, n) \<and> r \<in> set t') \<and>
    held_count now key t' = held_count now key t + 1 \<and> held_count now key t' \<le> limit"
proof -
  obtain r where c: "claim_first slot_id qs_slot (\<lambda>r. qs_queue_key r = key \<and> qs_slot r < limit \<and>
        held_count now key t < limit \<and> slot_free now r \<and> \<not> skip r) (take_slot now w secs)
        (ensure_queue_slots key limit t) = (t', Some r)" "slot_id r = (key, n)" "n < limit"
      "held_count now key t < limit" "\<not> slot_held now r"
    by (rule acquire_claim [OF assms(1,3)])
  have d: "distinct (map slot_id (ensure_queue_slots key limit t))"
    using ensure_wf [OF assms(1)] by (simp add: wf_slots_def)
  have "slot_id x \<noteq> (key, n) \<and> x \<in> set t'" if "x \<in> set t" "slot_held now x" for x
  proof -
    have x: "x \<in> set (ensure_queue_slots key limit t)" using that(1) ensure_rows by blast
    have "x \<noteq> r" using c(5) that(2) by blast
    with d x claim_first_Some(1) [OF c(1)] have "slot_id x \<noteq> slot_id r"
      by (meson distinct_map inj_onD)
    with slots.claim_keeps_held [OF c(1) d c(5) x that(2)] c(2) show ?thesis by simp
  qed
  moreover have "slot_id (take_slot now w secs r) = (key, n)" using c(2) by (simp add: slot_updates)
  moreover have "take_slot now w secs r \<in> set t'" by (rule slots.claim_owned(1) [OF c(1) d])
  moreover have "slot_held now (take_slot now w secs r)" by (rule slots.held_take [OF assms(2)])
  ultimately show ?thesis
    using c(3) acquire_held [OF assms(1,3,2)] by (auto simp: take_slot_def intro!: bexI [of _ "take_slot now w secs r"])
qed

definition sample_slots :: "queue_slot list" where
  "sample_slots = [(empty_slot ''q'' 0)\<lparr>qs_locked_by := Some ''old'', qs_locked_until := Some 9\<rparr>]"

theorem acquire_queue_slot_exclusive_witness:
  "held_count 5 ''q'' (fst (acquire_queue_slot 5 (\<lambda>r. False) ''q'' 2 ''w'' 60 None sample_slots)) \<le> 2"
proof -
  have wf: "wf_slots sample_slots" by (simp add: wf_slots_def wf_slot_def sample_slots_def empty_slot_def)
  have run: "acquire_queue_slot 5 (\<lambda>r. False) ''q'' 2 ''w'' 60 None sample_slots =
      (fst (acquire_queue_slot 5 (\<lambda>r. False) ''q'' 2 ''w'' 60 None sample_slots), Some 1)"
    by code_simp
  from acquire_queue_slot_exclusive [OF wf _ run] show ?thesis by simp
qed

text \<open>
  Reserving launches is safe: every reservation holds a different slot of its unit's queue
  under its own token for the launch lease, recording the demand it stands for; no lease that
  was held is touched; and a queue for which anything is reserved ends within its limit.
\<close>

theorem reserve_queue_launches_safe:
  assumes "wf_slots t"
    and "reserve_queue_launches now skip token build_plan (t, cs) = ((t', cs'), Inr (plan, reserved))"
  shows "distinct (map res_id reserved) \<and>
    (\<forall>res \<in> set reserved. \<exists>r \<in> set t'. slot_id r = res_id res \<and>
       qs_locked_by r = Some (lr_token res) \<and> qs_locked_until r = Some (now + make_interval LAUNCH_LEASE_SECONDS) \<and>
       qs_launch_demand r = Some \<lparr>ld_key = unit_demand (lr_unit res), ld_adopted = False\<rparr>) \<and>
    (\<forall>r \<in> set t. slot_held now r \<longrightarrow> r \<in> set t') \<and>
    (\<forall>res \<in> set reserved. held_count now (fst (res_id res)) t'
       \<le> dict_get (dp_concurrency_limits plan) (fst (res_id res)) 0)"
proof -
  obtain t1 where r: "reserving now plan t UNIV (t1, reserved)" and t': "t' = store_reservations now reserved t1"
    by (rule reserve_cases [OF assms])
  from r have wf: "wf_slots t1" and rows: "set t \<subseteq> set t1" and d: "distinct (map res_id reserved)"
    and free: "\<And>res. res \<in> set reserved \<Longrightarrow> \<exists>r \<in> set t1. slot_id r = res_id res \<and> slot_free now r"
    by (simp_all add: reserving_def)
  then have named: "\<And>res. res \<in> set reserved \<Longrightarrow> \<exists>r \<in> set t1. slot_id r = res_id res" by blast
  note store = store_rows [OF wf d named, where now = now, folded t']
  have "x \<in> set t'" if "x \<in> set t" "slot_held now x" for x
  proof (rule store(2))
    show x: "x \<in> set t1" using that(1) rows by blast
    show "slot_id x \<notin> res_id ` set reserved"
    proof
      assume "slot_id x \<in> res_id ` set reserved"
      then obtain res where "res \<in> set reserved" "slot_id x = res_id res" by blast
      with free obtain y where "y \<in> set t1" "slot_id y = slot_id x" "slot_free now y" by metis
      with wf x have "slot_free now x" by (metis distinct_map inj_onD wf_slots_def)
      with that(2) wf x free_not_held show False unfolding wf_slots_def by blast
    qed
  qed
  moreover have "held_count now (fst (res_id res)) t' \<le> dict_get (dp_concurrency_limits plan) (fst (res_id res)) 0"
    if "res \<in> set reserved" for res
  proof -
    have "0 < queue_reservations reserved (fst (res_id res))"
      using that by (auto simp: queue_reservations_def filter_empty_conv)
    with reserve_held(2,3) [OF assms, of "fst (res_id res)"] show ?thesis by linarith
  qed
  ultimately show ?thesis using d store(1) by blast
qed

definition sample_launch_plan :: dispatch_plan where
  "sample_launch_plan = \<lparr>dp_queue_units = [], dp_queue_keys = [''q''], dp_queued_by_org_queue = [],
     dp_running_by_queue = [], dp_queued_by_queue = [], dp_running_by_queue_key = [],
     dp_held_by_queue_key = [], dp_concurrency_limits = [(''q'', 2)],
     dp_unit_plan = [dispatch_unit_of (''q'', ''default'', ''default'', True) None,
       dispatch_unit_of (''q'', ''default'', ''default'', True) None]\<rparr>"

theorem reserve_queue_launches_safe_witness:
  "held_count 5 ''q'' (fst (fst (reserve_queue_launches 5 (\<lambda>r. False) string_of_nat
     (\<lambda>c p. Inr (sample_launch_plan, c)) (sample_slots, [])))) \<le> 2"
proof -
  let ?run = "reserve_queue_launches 5 (\<lambda>r. False) string_of_nat
     (\<lambda>c p. Inr (sample_launch_plan, c)) (sample_slots, [])"
  define res where "res = \<lparr>lr_unit = dispatch_unit_of (''q'', ''default'', ''default'', True) None,
     lr_slot = 1, lr_token = ''0''\<rparr>"
  have wf: "wf_slots sample_slots" by (simp add: wf_slots_def wf_slot_def sample_slots_def empty_slot_def)
  have run: "?run = ((fst (fst ?run), snd (fst ?run)), Inr (sample_launch_plan, [res]))"
    unfolding res_def by code_simp
  have "res \<in> set [res]" by simp
  with reserve_queue_launches_safe [OF wf run]
  have "held_count 5 (fst (res_id res)) (fst (fst ?run))
      \<le> dict_get (dp_concurrency_limits sample_launch_plan) (fst (res_id res)) 0" by blast
  then show ?thesis by (simp add: res_def res_id_def dispatch_unit_of_def sample_launch_plan_def dict_get_def)
qed



end
