(* ===== verification/Sandbox_Capacity.thy ===== *)
theory Sandbox_Capacity
  imports Db_Tables
begin

text \<open>
  The provider-wide capacity leases of \<open>workers/queue/sandbox_capacity.py\<close>: a worker takes one
  before it claims a job of a provider lane, and the lease outlives its deadline while the job
  it is bound to still runs or the sandbox of the job may still exist. The tables
  \<open>worker_jobs\<close> and \<open>sandbox_runs\<close>, which the statements consult, are arguments.
\<close>

subsection \<open>Operations\<close>

definition SANDBOX_CAPACITY_LEASE_SECONDS :: int where "SANDBOX_CAPACITY_LEASE_SECONDS = 120"

record capacity_settings =
  cs_ec2_enabled :: bool
  cs_ec2_max_concurrent_instances :: int
  cs_thunder_enabled :: bool
  cs_thunder_max_capacity :: int

definition configured_sandbox_capacity_limit :: "capacity_settings \<Rightarrow> string \<Rightarrow> exc + int" where
  "configured_sandbox_capacity_limit cfg provider =
     (if provider = ''ec2'' then Inr (if cs_ec2_enabled cfg then cs_ec2_max_concurrent_instances cfg else 0)
      else if provider = ''thunder'' then Inr (if cs_thunder_enabled cfg then cs_thunder_max_capacity cfg else 0)
      else Inl (OtherError ''unsupported sandbox capacity provider''))"

definition lease_id :: "capacity_lease \<Rightarrow> string \<times> int" where
  "lease_id l = (cl_provider l, cl_slot l)"

definition empty_lease :: "string \<Rightarrow> int \<Rightarrow> capacity_lease" where
  "empty_lease provider n = \<lparr>cl_provider = provider, cl_slot = n, cl_locked_by = None,
     cl_worker_job_id = None, cl_locked_at = None, cl_locked_until = None\<rparr>"

definition unlock_lease :: "capacity_lease \<Rightarrow> capacity_lease" where
  "unlock_lease l = l\<lparr>cl_locked_by := None, cl_worker_job_id := None, cl_locked_at := None,
     cl_locked_until := None\<rparr>"

definition take_lease :: "int \<Rightarrow> string \<Rightarrow> int \<Rightarrow> capacity_lease \<Rightarrow> capacity_lease" where
  "take_lease now worker_id secs l = l\<lparr>cl_locked_by := Some worker_id, cl_worker_job_id := None,
     cl_locked_at := Some now, cl_locked_until := Some (now + make_interval secs)\<rparr>"

text \<open>The two subqueries: the bound job still runs under the holder, its sandbox may exist.\<close>

definition job_running_under :: "worker_job list \<Rightarrow> capacity_lease \<Rightarrow> bool" where
  "job_running_under jobs l \<longleftrightarrow>
     (\<exists>j \<in> set jobs. cl_worker_job_id l = Some (wj_id j) \<and> wj_status j = RUNNING \<and>
        wj_current_worker_id j \<noteq> None \<and> wj_current_worker_id j = cl_locked_by l)"

definition sandbox_may_exist :: "sandbox_run list \<Rightarrow> capacity_lease \<Rightarrow> bool" where
  "sandbox_may_exist runs l \<longleftrightarrow>
     (\<exists>run \<in> set runs. cl_worker_job_id l = Some (sr_worker_job_id run) \<and>
        sr_deleted_at run = None \<and> sr_terminated_at run = None \<and>
        (sr_state run \<noteq> Run_failed \<or> sr_external_id run \<noteq> None))"

definition lease_available :: "worker_job list \<Rightarrow> sandbox_run list \<Rightarrow> int \<Rightarrow> capacity_lease \<Rightarrow> bool" where
  "lease_available jobs runs now l \<longleftrightarrow>
     cl_locked_by l = None \<or>
     (case cl_locked_until l of None \<Rightarrow> True
      | Some u \<Rightarrow> u \<le> now \<and> \<not> job_running_under jobs l \<and> \<not> sandbox_may_exist runs l)"

definition acquire_sandbox_capacity_lease ::
  "worker_job list \<Rightarrow> sandbox_run list \<Rightarrow> int \<Rightarrow> (capacity_lease \<Rightarrow> bool) \<Rightarrow> string \<Rightarrow> int \<Rightarrow>
   string \<Rightarrow> int \<Rightarrow> capacity_lease list \<Rightarrow> capacity_lease list \<times> int option" where
  "acquire_sandbox_capacity_lease jobs runs now skip provider limit worker_id secs t =
     (if limit \<le> 0 then (t, None)
      else let t' = insert_missing lease_id (map (empty_lease provider) [0..limit - 1]) t;
               available = (\<lambda>l. cl_provider l = provider \<and> cl_slot l < limit \<and>
                 lease_available jobs runs now l \<and> \<not> skip l);
               (t'', row) = claim_first lease_id cl_slot available (take_lease now worker_id secs) t'
           in (t'', map_option cl_slot row))"

definition releasable :: "sandbox_run list \<Rightarrow> string \<Rightarrow> int \<Rightarrow> string \<Rightarrow> capacity_lease \<Rightarrow> bool" where
  "releasable runs provider slot worker_id l \<longleftrightarrow>
     lease_id l = (provider, slot) \<and> cl_locked_by l = Some worker_id \<and> \<not> sandbox_may_exist runs l"

definition release_sandbox_capacity_lease ::
  "sandbox_run list \<Rightarrow> string \<Rightarrow> int \<Rightarrow> string \<Rightarrow> capacity_lease list \<Rightarrow> capacity_lease list \<times> bool" where
  "release_sandbox_capacity_lease runs provider slot worker_id t =
     (let P = releasable runs provider slot worker_id in
      (update_where P unlock_lease t, length (filter P t) = 1))"

definition lease_held :: "worker_job list \<Rightarrow> sandbox_run list \<Rightarrow> int \<Rightarrow> capacity_lease \<Rightarrow> bool" where
  "lease_held jobs runs now l \<longleftrightarrow> cl_locked_by l \<noteq> None \<and>
     ((case cl_locked_until l of None \<Rightarrow> False | Some u \<Rightarrow> now < u) \<or>
      job_running_under jobs l \<or> sandbox_may_exist runs l)"

definition count_held_sandbox_capacity_leases ::
  "worker_job list \<Rightarrow> sandbox_run list \<Rightarrow> int \<Rightarrow> string \<Rightarrow> capacity_lease list \<Rightarrow> int" where
  "count_held_sandbox_capacity_leases jobs runs now provider t =
     count_by (\<lambda>l. cl_provider l = provider \<and> lease_held jobs runs now l) t"

definition lease_abandoned :: "worker_job list \<Rightarrow> sandbox_run list \<Rightarrow> int \<Rightarrow> int \<Rightarrow> capacity_lease \<Rightarrow> bool" where
  "lease_abandoned jobs runs now grace l \<longleftrightarrow> cl_locked_by l \<noteq> None \<and>
     \<not> job_running_under jobs l \<and> \<not> sandbox_may_exist runs l \<and>
     ((case cl_locked_until l of None \<Rightarrow> False | Some u \<Rightarrow> u \<le> now) \<or>
      (case cl_locked_at l of None \<Rightarrow> False | Some a \<Rightarrow> a \<le> now - make_interval grace))"

definition cleanup_sandbox_capacity_leases ::
  "worker_job list \<Rightarrow> sandbox_run list \<Rightarrow> int \<Rightarrow> int \<Rightarrow> capacity_lease list \<Rightarrow> capacity_lease list \<times> nat" where
  "cleanup_sandbox_capacity_leases jobs runs now grace t =
     (let P = lease_abandoned jobs runs now grace in
      (update_where P unlock_lease t, length (filter P t)))"

text \<open>\<open>load_sandbox_capacity_by_lane\<close> of \<open>dispatch/cycle.py\<close>: the limits and the held leases of the two lanes.\<close>

definition load_sandbox_capacity_by_lane ::
  "capacity_settings \<Rightarrow> worker_job list \<Rightarrow> sandbox_run list \<Rightarrow> int \<Rightarrow> capacity_lease list \<Rightarrow>
   exc + (string, int) dict \<times> (string, int) dict" where
  "load_sandbox_capacity_by_lane cfg jobs runs now t =
     bind_err (configured_sandbox_capacity_limit cfg ''ec2'') (\<lambda>ec2.
     bind_err (configured_sandbox_capacity_limit cfg ''thunder'') (\<lambda>thunder.
     let held = (\<lambda>limit provider. if limit > 0
           then count_held_sandbox_capacity_leases jobs runs now provider t else 0)
     in Inr ([(''ec2_trial'', ec2), (''thunder_trial'', thunder)],
             [(''ec2_trial'', held ec2 ''ec2''), (''thunder_trial'', held thunder ''thunder'')])))"

subsection \<open>The lease interface\<close>

interpretation capacity: lease_rows lease_id cl_locked_by "lease_held jobs runs" take_lease unlock_lease
  for jobs runs
  by unfold_locales
    (auto simp: lease_id_def take_lease_def unlock_lease_def lease_held_def split: option.splits)

interpretation lease_owners: owned_rows lease_id cl_locked_by "lease_held jobs runs" take_lease unlock_lease
  for jobs runs
  by unfold_locales (simp add: unlock_lease_def)

text \<open>The constraints of the table: \<open>ck_sandbox_capacity_lock_shape\<close>, the slots and the key.\<close>

definition wf_lease :: "capacity_lease \<Rightarrow> bool" where
  "wf_lease l \<longleftrightarrow> 0 \<le> cl_slot l \<and>
     (cl_locked_by l = None \<and> cl_worker_job_id l = None \<and> cl_locked_at l = None \<and> cl_locked_until l = None \<or>
      cl_locked_by l \<noteq> None \<and> cl_locked_at l \<noteq> None \<and> cl_locked_until l \<noteq> None)"

definition wf_leases :: "capacity_lease list \<Rightarrow> bool" where
  "wf_leases t \<longleftrightarrow> distinct (map lease_id t) \<and> (\<forall>l \<in> set t. wf_lease l)"

lemma lease_updates [table_simps]:
  "lease_id (unlock_lease l) = lease_id l" "wf_lease l \<Longrightarrow> wf_lease (unlock_lease l)"
  "lease_id (take_lease now w s l) = lease_id l" "wf_lease l \<Longrightarrow> wf_lease (take_lease now w s l)"
  by (simp_all add: lease_id_def unlock_lease_def take_lease_def wf_lease_def)

lemma wf_leases_update:
  assumes "wf_leases t" and "\<And>l. lease_id (f l) = lease_id l" and "\<And>l. wf_lease l \<Longrightarrow> wf_lease (f l)"
  shows "wf_leases (update_where P f t)"
  using assms by (auto simp: wf_leases_def update_where_map in_update_where)

text \<open>Under the constraints, a lease can be taken exactly when it is not counted as held.\<close>

lemma available_not_held: "wf_lease l \<Longrightarrow> lease_available jobs runs now l = (\<not> lease_held jobs runs now l)"
  by (auto simp: wf_lease_def lease_available_def lease_held_def split: option.splits)

lemma new_leases_wf:
  assumes "wf_leases t"
  shows "wf_leases (insert_missing lease_id (map (empty_lease provider) [0..limit - 1]) t)"
proof -
  have ids: "distinct (map lease_id (map (empty_lease provider) [0..limit - 1]))"
    by (simp add: distinct_map inj_on_def lease_id_def empty_lease_def)
  have "wf_lease l" if "l \<in> set (map (empty_lease provider) [0..limit - 1])" for l
    using that by (auto simp: wf_lease_def empty_lease_def)
  with assms have "\<forall>l \<in> set (insert_missing lease_id (map (empty_lease provider) [0..limit - 1]) t). wf_lease l"
    unfolding wf_leases_def insert_missing_def by fastforce
  with insert_missing_distinct [OF _ ids] assms show ?thesis by (simp add: wf_leases_def)
qed

lemma new_leases_held [simp]:
  "length (filter (\<lambda>l. Q (lease_id l) \<and> lease_held jobs runs now l)
     (insert_missing lease_id (map (empty_lease provider) [0..limit - 1]) t))
   = length (filter (\<lambda>l. Q (lease_id l) \<and> lease_held jobs runs now l) t)"
  by (rule insert_missing_count) (auto simp: lease_held_def empty_lease_def)

lemma acquire_lease_claim:
  assumes "wf_leases t" and "acquire_sandbox_capacity_lease jobs runs now skip provider limit w secs t = (t', Some n)"
  obtains l t1 where "wf_leases t1" and "set t \<subseteq> set t1"
    and "claim_first lease_id cl_slot (\<lambda>l. cl_provider l = provider \<and> cl_slot l < limit \<and>
        lease_available jobs runs now l \<and> \<not> skip l) (take_lease now w secs) t1 = (t', Some l)"
    and "t1 = insert_missing lease_id (map (empty_lease provider) [0..limit - 1]) t"
    and "lease_id l = (provider, n)" and "0 \<le> n" and "n < limit" and "\<not> lease_held jobs runs now l"
proof -
  define t1 where "t1 = insert_missing lease_id (map (empty_lease provider) [0..limit - 1]) t"
  from assms(2) obtain l where c: "claim_first lease_id cl_slot (\<lambda>l. cl_provider l = provider \<and> cl_slot l < limit \<and>
        lease_available jobs runs now l \<and> \<not> skip l) (take_lease now w secs) t1 = (t', Some l)" "n = cl_slot l"
    by (auto simp: acquire_sandbox_capacity_lease_def Let_def t1_def split: if_splits prod.splits)
  note s = claim_first_Some [OF c(1)]
  have wf: "wf_leases t1" unfolding t1_def by (rule new_leases_wf [OF assms(1)])
  then have "wf_lease l" using s(1) by (simp add: wf_leases_def)
  then have "\<not> lease_held jobs runs now l" and "0 \<le> n"
    using s(2) c(2) available_not_held by (auto simp: wf_lease_def)
  moreover have "lease_id l = (provider, n)" "n < limit" using s(2) c(2) by (auto simp: lease_id_def)
  moreover have "set t \<subseteq> set t1" unfolding t1_def by (rule insert_missing_rows)
  ultimately show thesis using wf c(1) t1_def by (intro that) auto
qed

subsection \<open>Properties\<close>

text \<open>
  A capacity lease is exclusive and outlives its deadline while it protects something:
  acquiring hands out a lease below the limit that nobody holds and increases the count of held
  leases by one, and neither acquiring, releasing nor the cleanup ever touches a lease whose
  sandbox may still exist; acquiring and the cleanup spare a lease whose job still runs too.
\<close>

theorem capacity_lease_exclusive:
  assumes "wf_leases t" and "0 < secs"
    and "acquire_sandbox_capacity_lease jobs runs now skip provider limit w secs t = (t', Some n)"
  shows "0 \<le> n \<and> n < limit \<and>
    (\<exists>l \<in> set t'. lease_id l = (provider, n) \<and> cl_locked_by l = Some w \<and> cl_locked_until l = Some (now + make_interval secs)) \<and>
    (\<forall>l \<in> set t. lease_held jobs runs now l \<longrightarrow> lease_id l \<noteq> (provider, n) \<and> l \<in> set t') \<and>
    count_held_sandbox_capacity_leases jobs runs now provider t'
      = count_held_sandbox_capacity_leases jobs runs now provider t + 1 \<and>
    wf_leases t'"
proof -
  obtain l t1 where c: "wf_leases t1" "set t \<subseteq> set t1"
      "claim_first lease_id cl_slot (\<lambda>l. cl_provider l = provider \<and> cl_slot l < limit \<and>
        lease_available jobs runs now l \<and> \<not> skip l) (take_lease now w secs) t1 = (t', Some l)"
      "t1 = insert_missing lease_id (map (empty_lease provider) [0..limit - 1]) t"
      "lease_id l = (provider, n)" "0 \<le> n" "n < limit" "\<not> lease_held jobs runs now l"
    by (rule acquire_lease_claim [OF assms(1,3)])
  have d: "distinct (map lease_id t1)" using c(1) by (simp add: wf_leases_def)
  have keep: "lease_id x \<noteq> (provider, n) \<and> x \<in> set t'" if "x \<in> set t" "lease_held jobs runs now x" for x
  proof -
    have x: "x \<in> set t1" using that(1) c(2) by blast
    have "x \<noteq> l" using c(8) that(2) by blast
    with d x claim_first_Some(1) [OF c(3)] have "lease_id x \<noteq> lease_id l"
      by (meson distinct_map inj_onD)
    with capacity.claim_keeps_held [OF c(3) d c(8) x that(2)] c(5) show ?thesis by simp
  qed
  have count: "count_held_sandbox_capacity_leases jobs runs now provider t'
      = count_held_sandbox_capacity_leases jobs runs now provider t + 1"
    using capacity.claim_counts [OF c(3) d c(8) assms(2), of "\<lambda>i. fst i = provider"]
      new_leases_held [of "\<lambda>i. fst i = provider" jobs runs now provider limit t] c(5)
    unfolding c(4) by (simp add: count_held_sandbox_capacity_leases_def lease_id_def)
  have "t' = update_where (\<lambda>x. lease_id x = lease_id l) (take_lease now w secs) t1"
    by (rule claim_first_Some(3) [OF c(3)])
  then have "wf_leases t'" using c(1) by (simp add: wf_leases_update lease_updates)
  moreover have "take_lease now w secs l \<in> set t'" by (rule capacity.claim_owned(1) [OF c(3) d])
  moreover have "lease_id (take_lease now w secs l) = (provider, n)" using c(5) by (simp add: lease_updates)
  ultimately show ?thesis
    using keep count c(6,7) by (auto simp: take_lease_def intro!: bexI [of _ "take_lease now w secs l"])
qed

definition sample_leases :: "capacity_lease list" where
  "sample_leases = [(empty_lease ''ec2'' 0)\<lparr>cl_locked_by := Some ''w0'', cl_worker_job_id := Some ''j0'',
     cl_locked_at := Some 0, cl_locked_until := Some 1\<rparr>]"

definition sample_run :: sandbox_run where
  "sample_run = \<lparr>sr_id = ''r0'', sr_worker_job_id = ''j0'', sr_worker_job_attempt = 1, sr_trial_id = ''t0'',
     sr_provider = ''ec2'', sr_deployment = ''d'', sr_aws_account_id = ''a'', sr_region = ''r'',
     sr_state = TERMINATING, sr_launch_token = ''tok'', sr_external_id = Some ''x'', sr_provisioned_at = Some 0,
     sr_termination_requested_at = None, sr_terminated_at = None, sr_deleted_at = None, sr_last_error = None\<rparr>"

theorem capacity_lease_exclusive_witness:
  "count_held_sandbox_capacity_leases [] [sample_run] 9 ''ec2''
     (fst (acquire_sandbox_capacity_lease [] [sample_run] 9 (\<lambda>l. False) ''ec2'' 2 ''w'' 120 sample_leases)) = 2"
proof -
  let ?run = "acquire_sandbox_capacity_lease [] [sample_run] 9 (\<lambda>l. False) ''ec2'' 2 ''w'' 120 sample_leases"
  have wf: "wf_leases sample_leases" by (simp add: wf_leases_def wf_lease_def sample_leases_def empty_lease_def)
  have run: "?run = (fst ?run, Some 1)" by code_simp
  have "count_held_sandbox_capacity_leases [] [sample_run] 9 ''ec2'' sample_leases = 1" by code_simp
  with capacity_lease_exclusive [OF wf _ run] show ?thesis by simp
qed

text \<open>
  The reaper and a releasing worker cannot free capacity that is in use: a lease whose
  sandbox may still exist survives the cleanup and its holder's release unchanged, one whose
  job still runs survives the cleanup, and what the cleanup frees was not held by a live worker
  for longer than the grace period.
\<close>

theorem capacity_lease_protected:
  "(\<forall>l \<in> set t. sandbox_may_exist runs l \<or> job_running_under jobs l \<longrightarrow>
      l \<in> set (fst (cleanup_sandbox_capacity_leases jobs runs now grace t))) \<and>
   (\<forall>l \<in> set t. sandbox_may_exist runs l \<or> cl_locked_by l \<noteq> Some w \<longrightarrow>
      l \<in> set (fst (release_sandbox_capacity_lease runs provider slot w t))) \<and>
   count_held_sandbox_capacity_leases jobs runs now' p (fst (cleanup_sandbox_capacity_leases jobs runs now grace t))
     \<le> count_held_sandbox_capacity_leases jobs runs now' p t"
proof -
  have "l \<in> set (fst (cleanup_sandbox_capacity_leases jobs runs now grace t))"
    if "l \<in> set t" "sandbox_may_exist runs l \<or> job_running_under jobs l" for l
    using that by (auto simp: cleanup_sandbox_capacity_leases_def Let_def lease_abandoned_def
      intro!: update_where_untouched)
  moreover have "l \<in> set (fst (release_sandbox_capacity_lease runs provider slot w t))"
    if "l \<in> set t" "sandbox_may_exist runs l \<or> cl_locked_by l \<noteq> Some w" for l
    using that by (auto simp: release_sandbox_capacity_lease_def Let_def releasable_def
      intro!: update_where_untouched)
  moreover have "count_held_sandbox_capacity_leases jobs runs now' p
      (fst (cleanup_sandbox_capacity_leases jobs runs now grace t))
     \<le> count_held_sandbox_capacity_leases jobs runs now' p t"
    using capacity.unlock_counts [of "\<lambda>i. fst i = p" jobs runs now' "lease_abandoned jobs runs now grace" t]
    by (simp add: count_held_sandbox_capacity_leases_def cleanup_sandbox_capacity_leases_def Let_def lease_id_def)
  ultimately show ?thesis by blast
qed


theorem capacity_lease_protected_witness:
  "sample_leases ! 0 \<in> set (fst (cleanup_sandbox_capacity_leases [] [sample_run] 500 120 sample_leases))"
proof -
  have "sample_leases ! 0 \<in> set sample_leases" "sandbox_may_exist [sample_run] (sample_leases ! 0)"
    by code_simp+
  with capacity_lease_protected [of sample_leases "[sample_run]" "[]" 500 120] show ?thesis by blast
qed

end
