(* ===== verification/Job_Table.thy ===== *)
theory Job_Table
  imports Queue_Slots Sandbox_Capacity
begin

text \<open>
  The tables of the queue together, the dispatcher's statements on \<open>worker_jobs\<close>
  (\<open>workers/queue/worker_job_dispatcher.py\<close>), and the enqueueing of jobs
  (\<open>workers/jobs/enqueue.py\<close>). What the handlers put into a job's payload is opaque: a
  dictionary from keys to JSON texts.
\<close>

record queue_db =
  db_jobs :: "worker_job list"
  db_slots :: "queue_slot list"
  db_leases :: "capacity_lease list"
  db_runs :: "sandbox_run list"
  db_trials :: "trial_row list"
  db_tasks :: "task_row list"
  db_versions :: "task_version_row list"
  db_experiments :: "experiment_row list"
  db_task_experiments :: "task_experiment_row list"

text \<open>Writes to a trial or task by its key; the session hides deleted rows.\<close>

abbreviation with_trial :: "string \<Rightarrow> (trial_row \<Rightarrow> trial_row) \<Rightarrow> queue_db \<Rightarrow> queue_db" where
  "with_trial i f db \<equiv> db\<lparr>db_trials := update_where (\<lambda>tr. tr_id tr = i \<and> tr_deleted_at tr = None) f (db_trials db)\<rparr>"

abbreviation with_task :: "string \<Rightarrow> (task_row \<Rightarrow> task_row) \<Rightarrow> queue_db \<Rightarrow> queue_db" where
  "with_task i f db \<equiv> db\<lparr>db_tasks := update_where (\<lambda>tk. tk_id tk = i \<and> tk_deleted_at tk = None) f (db_tasks db)\<rparr>"

subsection \<open>Readers\<close>

definition waiting_status :: "worker_job_status \<Rightarrow> bool" where
  "waiting_status s \<longleftrightarrow> s = QUEUED \<or> s = RETRYING"

definition active_kind :: "worker_job \<Rightarrow> bool" where
  "active_kind j \<longleftrightarrow> wj_kind j \<in> set ACTIVE_WORKER_JOB_KINDS"

definition or_default :: "string \<Rightarrow> string" where
  "or_default s = (if s = [] then ''default'' else s)"

definition fetch_running_worker_handles :: "worker_job list \<Rightarrow> (string \<times> string) list" where
  "fetch_running_worker_handles jobs =
     concat (map (\<lambda>j. case (wj_status j, wj_modal_function_call_id j) of
       (RUNNING, Some h) \<Rightarrow> if h = [] then [] else [(wj_queue_key j, h)]
     | _ \<Rightarrow> []) jobs)"

definition raw_queue_key :: "string \<Rightarrow> string" where
  "raw_queue_key s = map (\<lambda>c. if c = CHR '' '' then CHR ''_'' else c) (str_lower (str_strip s))"

text \<open>\<open>settings.normalize_queue_key\<close> is an argument; the result is a sorted tuple of a set.\<close>

definition discover_active_worker_job_queue_keys ::
  "(string \<Rightarrow> string) \<Rightarrow> int \<Rightarrow> worker_job list \<Rightarrow> run_key list" where
  "discover_active_worker_job_queue_keys norm_key now jobs =
     sort (remdups (concat (map (\<lambda>j.
       let raw_key = raw_queue_key (wj_queue_key j);
           variant = or_default (wj_harbor_variant_id j);
           lane = or_default (wj_execution_lane j)
       in if raw_key = [] then [] else [(raw_key, variant, lane), (norm_key raw_key, variant, lane)])
       (filter (\<lambda>j. wj_status j \<in> {QUEUED, RETRYING, RUNNING} \<and> \<not> wj_reroute_pending_teardown j \<and>
          wj_available_after j \<le> now \<and> active_kind j) jobs))))"

definition queued_group :: "worker_job \<Rightarrow> demand_key" where
  "queued_group j = (wj_org_id j, wj_queue_key j, wj_harbor_variant_id j, wj_execution_lane j,
     0 < wj_priority j)"

definition normalize_group :: "demand_key \<Rightarrow> demand_key" where
  "normalize_group k = (case k of (org, q, v, l, p) \<Rightarrow> (org, q, or_default v, or_default l, p))"

definition claimable_row :: "int \<Rightarrow> worker_job \<Rightarrow> bool" where
  "claimable_row now j \<longleftrightarrow> waiting_status (wj_status j) \<and> \<not> wj_reroute_pending_teardown j \<and>
     wj_available_after j \<le> now"

text \<open>A \<open>GROUP BY\<close> with \<open>COUNT(*)\<close> is a counter over the group keys; later groups overwrite.\<close>

definition get_worker_job_org_queue_counts ::
  "int \<Rightarrow> worker_job list \<Rightarrow> string list \<Rightarrow> (demand_key, int) dict \<times> (run_key, int) dict" where
  "get_worker_job_org_queue_counts now jobs queue_keys =
     (if queue_keys = [] then ([], [])
      else
       (foldl (\<lambda>d (k, n). if n \<le> 0 then d else dict_set d (normalize_group k) n) []
          (counter (map queued_group (filter (\<lambda>j. wj_queue_key j \<in> set queue_keys \<and>
             claimable_row now j \<and> active_kind j) jobs))),
        foldl (\<lambda>d ((q, v, l), n). dict_set d (q, or_default v, or_default l) n) []
          (counter (map (\<lambda>j. (wj_queue_key j, wj_harbor_variant_id j, wj_execution_lane j))
             (filter (\<lambda>j. wj_queue_key j \<in> set queue_keys \<and> wj_status j = RUNNING \<and> active_kind j) jobs)))))"

subsection \<open>The dispatch stage of a job\<close>

definition stampable :: "string \<Rightarrow> worker_job \<Rightarrow> bool" where
  "stampable queue_key j \<longleftrightarrow> wj_queue_key j = queue_key \<and> waiting_status (wj_status j) \<and>
     \<not> wj_reroute_pending_teardown j \<and> active_kind j"

definition stamp_reason :: "string \<times> string \<Rightarrow> worker_job list \<Rightarrow> worker_job list" where
  "stamp_reason kr jobs =
     update_where (stampable (fst kr)) (\<lambda>j. j\<lparr>wj_admission_reason := Some (snd kr)\<rparr>) jobs"

definition stamp_order :: "worker_job \<Rightarrow> int \<times> int" where
  "stamp_order j = (- wj_priority j, wj_created_at j)"

definition stamp_spawned :: "int \<Rightarrow> string \<times> int \<Rightarrow> worker_job list \<Rightarrow> worker_job list" where
  "stamp_spawned now ks jobs =
     (let (queue_key, spawned) = ks in
      if spawned \<le> 0 then jobs
      else let to_stamp = map wj_id (take (nat spawned) (sort_key stamp_order
             (filter (\<lambda>j. stampable queue_key j \<and> wj_spawned_at j = None) jobs)))
        in update_where (\<lambda>j. wj_id j \<in> set to_stamp)
             (\<lambda>j. j\<lparr>wj_spawned_at := Some now, wj_admission_reason := None\<rparr>) jobs)"

definition stamp_dispatch_stage ::
  "int \<Rightarrow> string list \<Rightarrow> (string, string) dict \<Rightarrow> worker_job list \<Rightarrow> worker_job list" where
  "stamp_dispatch_stage now spawned_keys why_waiting jobs =
     fold (stamp_spawned now) (counter spawned_keys) (fold stamp_reason why_waiting jobs)"

subsection \<open>The worker function of a unit\<close>

record 'f worker_functions =
  wf_default :: 'f
  wf_variants :: "(string, 'f) dict"
  wf_ec2 :: "'f option"
  wf_ec2_variants :: "(string, 'f) dict"
  wf_thunder :: "'f option"
  wf_thunder_variants :: "(string, 'f) dict"

definition select_job_function :: "'f worker_functions \<Rightarrow> dispatch_unit \<Rightarrow> exc + 'f \<times> dispatch_unit" where
  "select_job_function fns d =
     (let pick = (\<lambda>variants f. Inr (dict_get variants (du_harbor_variant_id d) f, d)) in
      if du_execution_lane d = ''ec2_trial'' then
        (case wf_ec2 fns of
           None \<Rightarrow> Inl (OtherError ''EC2 dispatch unit has no EC2 worker Function'')
         | Some f \<Rightarrow> pick (wf_ec2_variants fns) f)
      else if du_execution_lane d = ''thunder_trial'' then
        (case wf_thunder fns of
           None \<Rightarrow> Inl (OtherError ''Thunder dispatch unit has no Thunder worker Function'')
         | Some f \<Rightarrow> pick (wf_thunder_variants fns) f)
      else pick (wf_variants fns) (wf_default fns))"

subsection \<open>Enqueueing\<close>

record enqueue_request =
  er_kind :: worker_job_kind
  er_queue_key :: string
  er_payload :: "(string, string) dict"
  er_subject_table :: "string option"
  er_subject_id :: "string option"
  er_priority :: int
  er_max_attempts :: int
  er_org_id :: "string option"
  er_parent_job_id :: "string option"
  er_status :: worker_job_status
  er_harbor_variant_id :: string
  er_execution_lane :: string

type_synonym payload_hook = "(string, string) dict \<Rightarrow> exc + (string, string) dict"

definition validated_payload ::
  "(worker_job_kind \<Rightarrow> payload_hook option) \<Rightarrow> enqueue_request \<Rightarrow> bool \<Rightarrow> exc + (string, string) dict" where
  "validated_payload handler request validate =
     (if validate then
        (case handler (er_kind request) of None \<Rightarrow> Inr (er_payload request) | Some v \<Rightarrow> v (er_payload request))
      else Inr (er_payload request))"

definition job_row ::
  "string \<Rightarrow> int \<Rightarrow> enqueue_request \<Rightarrow> (string, string) dict \<Rightarrow> worker_job" where
  "job_row i now r payload = \<lparr>wj_id = i, wj_kind = er_kind r, wj_status = er_status r,
     wj_harbor_variant_id = er_harbor_variant_id r, wj_execution_lane = er_execution_lane r,
     wj_queue_key = er_queue_key r, wj_priority = er_priority r, wj_subject_table = er_subject_table r,
     wj_subject_id = er_subject_id r, wj_parent_job_id = er_parent_job_id r, wj_payload = payload,
     wj_attempts = 0, wj_max_attempts = er_max_attempts r, wj_next_retry_at = None,
     wj_available_after = now, wj_current_worker_id = None, wj_current_queue_slot = None,
     wj_modal_function_call_id = None, wj_claimed_at = None, wj_heartbeat_at = None,
     wj_stale_reaped_at = None, wj_heartbeat_failure_count = 0, wj_last_heartbeat_error = None,
     wj_last_heartbeat_error_at = None,
     wj_error_message = None, wj_result_summary = None, wj_started_at = None, wj_finished_at = None,
     wj_created_at = now, wj_org_id = er_org_id r, wj_provider = None, wj_external_id = None,
     wj_reroute_from_environment = None, wj_reroute_reason = None, wj_reroute_pending_teardown = False,
     wj_spawned_at = None, wj_admission_reason = None, wj_sandbox_creating_at = None,
     wj_deleted_at = None\<rparr>"

definition enqueue_worker_job ::
  "(worker_job_kind \<Rightarrow> payload_hook option) \<Rightarrow> bool \<Rightarrow> string \<Rightarrow> int \<Rightarrow> enqueue_request \<Rightarrow>
   worker_job list \<Rightarrow> exc + worker_job list" where
  "enqueue_worker_job handler validate i now request jobs =
     bind_err (validated_payload handler request validate)
       (\<lambda>payload. Inr (jobs @ [job_row i now request payload]))"

fun validated_payloads ::
  "(worker_job_kind \<Rightarrow> payload_hook option) \<Rightarrow> bool \<Rightarrow> enqueue_request list \<Rightarrow>
   exc + (string, string) dict list" where
  "validated_payloads handler validate [] = Inr []"
| "validated_payloads handler validate (r # rs) =
     bind_err (validated_payload handler r validate) (\<lambda>p.
     bind_err (validated_payloads handler validate rs) (\<lambda>ps. Inr (p # ps)))"

definition bulk_enqueue_worker_jobs ::
  "(worker_job_kind \<Rightarrow> payload_hook option) \<Rightarrow> bool \<Rightarrow> (nat \<Rightarrow> string) \<Rightarrow> int \<Rightarrow> enqueue_request list \<Rightarrow>
   worker_job list \<Rightarrow> exc + worker_job list \<times> string list" where
  "bulk_enqueue_worker_jobs handler validate new_id now requests jobs =
     (if requests = [] then Inr (jobs, [])
      else let ids = map new_id [0..<length requests] in
        bind_err (validated_payloads handler validate requests) (\<lambda>payloads.
          Inr (jobs @ map (\<lambda>(i, r, p). job_row i now r p) (zip ids (zip requests payloads)), ids)))"

subsection \<open>Lemmas: counts\<close>

lemma foldl_set_get:
  assumes "distinct (dict_keys d)"
  shows "dict_get (foldl (\<lambda>e (k, n). dict_set e k n) acc d) k v
    = (if dict_has d k then dict_get d k v else dict_get acc k v)"
  using assms
proof (induction d arbitrary: acc)
  case (Cons kn d)
  obtain j n where kn: "kn = (j, n)" by (cases kn)
  with Cons.prems have "\<not> dict_has d j" by (simp add: dict_has_keys)
  with Cons kn show ?case by (auto simp: dict_has_def dict_get_def map_of_dict_set)
qed simp

lemma counter_distinct: "distinct (dict_keys (counter xs))"
  by (simp add: counter_def sum_by_distinct)

lemma counter_in: "(k, n) \<in> set (counter xs) \<Longrightarrow> k \<in> set xs \<and> n = int (count_list xs k) \<and> 0 < n"
proof -
  assume in_c: "(k, n) \<in> set (counter xs)"
  then have "k \<in> set (dict_keys (counter xs))" by force
  then have k: "k \<in> set xs" unfolding counter_keys .
  from dict_get_in [OF counter_distinct in_c, of 0] have n: "n = int (count_list xs k)"
    by (simp add: counter_get)
  from k have "0 < count_list xs k" by (metis count_list_0_iff gr0I)
  with k n show ?thesis by simp
qed

lemma counter_has: "dict_has (counter xs) k = (k \<in> set xs)"
  by (simp add: dict_has_keys counter_keys del: set_map)

lemma regrouped_counter_get:
  assumes "\<And>x. x \<in> set xs \<Longrightarrow> g x = x"
  shows "dict_get (foldl (\<lambda>d (k, n). if n \<le> 0 then d else dict_set d (g k) n) [] (counter xs)) k 0
    = int (count_list xs k)"
proof -
  have "foldl (\<lambda>d (k, n). if n \<le> 0 then d else dict_set d (g k) n) [] (counter xs)
      = foldl (\<lambda>e (k, n). dict_set e k n) [] (counter xs)"
  proof (rule foldl_cong)
    fix d and x :: "'a \<times> int"
    assume x: "x \<in> set (counter xs)"
    obtain k n where "x = (k, n)" by (cases x)
    with x show "(case x of (k, n) \<Rightarrow> if n \<le> 0 then d else dict_set d (g k) n) = (case x of (k, n) \<Rightarrow> dict_set d k n)"
      using assms counter_in [of k n xs] by simp
  qed simp_all
  moreover have "dict_get (counter xs) k 0 = int (count_list xs k)" by (rule counter_get)
  ultimately show ?thesis
    using foldl_set_get [OF counter_distinct, of "[]" xs k 0]
    by (cases "k \<in> set xs") (simp_all add: counter_has)
qed

definition labelled :: "worker_job \<Rightarrow> bool" where
  "labelled j \<longleftrightarrow> wj_harbor_variant_id j \<noteq> [] \<and> wj_execution_lane j \<noteq> []"

subsection \<open>Properties\<close>

text \<open>
  The counts the planner reads are exact: for rows that carry a variant and a lane, as the
  enqueue surface writes them, the demand of a group is the number of its claimable jobs of the
  asked queues, and the running count is the number of its running jobs; jobs of retired kinds
  and jobs whose reroute is not finished are in neither the demand nor, for the kind, the count.
\<close>

theorem queue_counts_exact:
  assumes "queue_keys \<noteq> []" and "\<forall>j \<in> set jobs. labelled j"
  shows "dict_get (fst (get_worker_job_org_queue_counts now jobs queue_keys)) (org, q, v, l, p) 0
      = count_by (\<lambda>j. wj_org_id j = org \<and> wj_queue_key j = q \<and> wj_harbor_variant_id j = v \<and>
          wj_execution_lane j = l \<and> (0 < wj_priority j) = p \<and> q \<in> set queue_keys \<and>
          wj_status j \<in> {QUEUED, RETRYING} \<and> \<not> wj_reroute_pending_teardown j \<and>
          wj_available_after j \<le> now \<and> wj_kind j \<in> set ACTIVE_WORKER_JOB_KINDS) jobs \<and>
    dict_get (snd (get_worker_job_org_queue_counts now jobs queue_keys)) (q, v, l) 0
      = count_by (\<lambda>j. wj_queue_key j = q \<and> wj_harbor_variant_id j = v \<and> wj_execution_lane j = l \<and>
          q \<in> set queue_keys \<and> wj_status j = RUNNING \<and> wj_kind j \<in> set ACTIVE_WORKER_JOB_KINDS) jobs"
proof -
  let ?waiting = "filter (\<lambda>j. wj_queue_key j \<in> set queue_keys \<and> claimable_row now j \<and> active_kind j) jobs"
  let ?running = "filter (\<lambda>j. wj_queue_key j \<in> set queue_keys \<and> wj_status j = RUNNING \<and> active_kind j) jobs"
  let ?key = "\<lambda>j. (wj_queue_key j, wj_harbor_variant_id j, wj_execution_lane j)"
  have norm: "normalize_group x = x" if "x \<in> set (map queued_group ?waiting)" for x
    using that assms(2) by (auto simp: queued_group_def normalize_group_def or_default_def labelled_def)
  have run: "(\<lambda>(q, v, l). (q, or_default v, or_default l)) x = x" if "x \<in> set (map ?key ?running)" for x
    using that assms(2) by (auto simp: or_default_def labelled_def)
  have drop: "foldl (\<lambda>d ((q, v, l), n). dict_set d (q, or_default v, or_default l) n) []
        (counter (map ?key ?running))
      = foldl (\<lambda>d (k, n). if n \<le> 0 then d else
          dict_set d ((\<lambda>(q, v, l). (q, or_default v, or_default l)) k) n) [] (counter (map ?key ?running))"
    by (rule foldl_cong) (auto dest!: counter_in)
  have "dict_get (fst (get_worker_job_org_queue_counts now jobs queue_keys)) (org, q, v, l, p) 0
      = int (count_list (map queued_group ?waiting) (org, q, v, l, p))"
    unfolding get_worker_job_org_queue_counts_def if_not_P [OF assms(1)] fst_conv
    by (rule regrouped_counter_get [OF norm])
  moreover have "dict_get (snd (get_worker_job_org_queue_counts now jobs queue_keys)) (q, v, l) 0
      = int (count_list (map ?key ?running) (q, v, l))"
    unfolding get_worker_job_org_queue_counts_def if_not_P [OF assms(1)] snd_conv drop
    by (rule regrouped_counter_get [OF run])
  ultimately show ?thesis
    by (auto simp: count_list_map_filter queued_group_def claimable_row_def waiting_status_def active_kind_def
      intro!: arg_cong [where f = length] filter_cong)
qed

definition sample_counted :: "worker_job list" where
  "sample_counted = map (\<lambda>(i, p). job_row i 0
     \<lparr>er_kind = Kind_trial, er_queue_key = ''m'', er_payload = [], er_subject_table = None, er_subject_id = None,
      er_priority = p, er_max_attempts = 3, er_org_id = Some ''o'', er_parent_job_id = None, er_status = QUEUED,
      er_harbor_variant_id = ''default'', er_execution_lane = ''default''\<rparr> [])
     [(''a'', 0), (''b'', 5), (''c'', 0)]"

theorem queue_counts_exact_witness:
  "dict_get (fst (get_worker_job_org_queue_counts 1 sample_counted [''m'']))
     (Some ''o'', ''m'', ''default'', ''default'', False) 0 = 2"
proof -
  have "\<forall>j \<in> set sample_counted. labelled j" by (simp add: sample_counted_def job_row_def labelled_def)
  from queue_counts_exact [OF _ this, of "[''m'']" 1 "Some ''o''" "''m''" "''default''" "''default''" False]
  show ?thesis
    by (simp add: sample_counted_def job_row_def ACTIVE_WORKER_JOB_KINDS_def)
qed

text \<open>
  Bulk enqueueing is enqueueing one by one: when every payload validates it inserts the
  rows that as many single calls at the same instant insert, and returns their ids in order;
  when one payload is refused it inserts nothing and raises that refusal.
\<close>

theorem bulk_enqueue_equivalent:
  "bulk_enqueue_worker_jobs handler validate new_id now requests jobs =
     bind_err (fold (\<lambda>(i, r) acc. bind_err acc (enqueue_worker_job handler validate i now r))
         (zip (map new_id [0..<length requests]) requests) (Inr jobs))
       (\<lambda>jobs'. Inr (jobs', map new_id [0..<length requests]))"
proof -
  have fold_err: "fold (\<lambda>(i, r) acc. bind_err acc (enqueue_worker_job handler validate i now r)) irs (Inl e) = Inl e"
    for irs e by (induction irs) auto
  have "bind_err (validated_payloads handler validate rs)
        (\<lambda>ps. Inr (jobs @ map (\<lambda>(i, r, p). job_row i now r p) (zip ids (zip rs ps))))
      = fold (\<lambda>(i, r) acc. bind_err acc (enqueue_worker_job handler validate i now r)) (zip ids rs) (Inr jobs)"
    if "length ids = length rs" for ids rs jobs
    using that
  proof (induction rs arbitrary: ids jobs)
    case (Cons r rs)
    then obtain i ids' where ids: "ids = i # ids'" "length ids' = length rs" by (cases ids) auto
    show ?case
    proof (cases "validated_payload handler r validate")
      case (Inl e)
      then have "enqueue_worker_job handler validate i now r jobs = Inl e"
        by (simp add: enqueue_worker_job_def)
      with Inl show ?thesis by (simp add: ids fold_err)
    next
      case (Inr p)
      then have "enqueue_worker_job handler validate i now r jobs = Inr (jobs @ [job_row i now r p])"
        by (simp add: enqueue_worker_job_def)
      with Inr Cons.IH [OF ids(2), of "jobs @ [job_row i now r p]"] show ?thesis
        by (cases "validated_payloads handler validate rs") (auto simp: ids)
    qed
  qed simp
  from this [of "map new_id [0..<length requests]" requests jobs] show ?thesis
    by (cases "validated_payloads handler validate requests")
      (auto simp: bulk_enqueue_worker_jobs_def Let_def dest: sym)
qed

subsection \<open>A sample request and the empty database\<close>

definition sample_request :: enqueue_request where
  "sample_request = \<lparr>er_kind = Kind_trial, er_queue_key = ''q'', er_payload = [], er_subject_table = Some ''trials'',
     er_subject_id = Some ''t1'', er_priority = 0, er_max_attempts = 2, er_org_id = None, er_parent_job_id = None,
     er_status = QUEUED, er_harbor_variant_id = ''default'', er_execution_lane = ''default''\<rparr>"

definition empty_db :: queue_db where
  "empty_db = \<lparr>db_jobs = [], db_slots = [], db_leases = [], db_runs = [], db_trials = [], db_tasks = [],
     db_versions = [], db_experiments = [], db_task_experiments = []\<rparr>"

end
