(* ===== verification/Retry_Delay.thy ===== *)
theory Retry_Delay
  imports Oddish_Prelude Complex_Main
begin

text \<open>
  When a failed attempt is tried again: the classification of an error message by
  \<open>_RATE_LIMIT_RE\<close> and \<open>calculate_trial_retry_delay_seconds\<close>, both of
  \<open>workers/queue/worker_job_single_job.py\<close>. The regular expression is built from the
  constructors of a small matcher that returns every text a match may leave over, so that
  alternatives and repetitions backtrack as in \<open>re\<close>. Delays are exact rationals; the code's
  binary floating point agrees on them up to the rounding of the one product with the jitter.
\<close>

subsection \<open>The matcher\<close>

datatype regex =
    Class "char list"
  | Eps
  | Cat regex regex
  | Alt regex regex
  | Star "char list"

fun star_rests :: "char list \<Rightarrow> string \<Rightarrow> string list" where
  "star_rests cs [] = [[]]"
| "star_rests cs (c # s) = (if c \<in> set cs then star_rests cs s @ [c # s] else [c # s])"

fun rests :: "regex \<Rightarrow> string \<Rightarrow> string list" where
  "rests (Class cs) s = (case s of [] \<Rightarrow> [] | c # r \<Rightarrow> if c \<in> set cs then [r] else [])"
| "rests Eps s = [s]"
| "rests (Cat a b) s = concat (map (rests b) (rests a s))"
| "rests (Alt a b) s = rests a s @ rests b s"
| "rests (Star cs) s = star_rests cs s"

definition upper_char :: "char \<Rightarrow> char" where
  "upper_char c = (let n = (of_char c :: nat) in if 97 \<le> n \<and> n \<le> 122 then char_of (n - 32) else c)"

text \<open>A literal under \<open>re.IGNORECASE\<close>, an optional part, a list of alternatives.\<close>

definition lit :: "string \<Rightarrow> regex" where
  "lit s = foldr (\<lambda>c r. Cat (Class [c, upper_char c]) r) s Eps"

definition opt :: "regex \<Rightarrow> regex" where
  "opt r = Alt r Eps"

definition alts :: "regex list \<Rightarrow> regex" where
  "alts rs = foldr Alt (butlast rs) (last rs)"

definition word_char :: "char \<Rightarrow> bool" where
  "word_char c = (let n = (of_char c :: nat) in
     48 \<le> n \<and> n \<le> 57 \<or> 65 \<le> n \<and> n \<le> 90 \<or> 97 \<le> n \<and> n \<le> 122 \<or> n = 95 \<or>
     n \<in> {170, 178, 179, 181, 185, 186, 188, 189, 190} \<or> 192 \<le> n \<and> n \<noteq> 215 \<and> n \<noteq> 247)"

fun starts_word :: "string \<Rightarrow> bool" where
  "starts_word [] = False"
| "starts_word (c # s) = word_char c"

text \<open>\<open>re.search\<close> of the expression between two \<open>\b\<close>; \<open>prev\<close> tells whether the character before is a word character.\<close>

fun search_word :: "regex \<Rightarrow> bool \<Rightarrow> string \<Rightarrow> bool" where
  "search_word r prev s =
     ((prev \<noteq> starts_word s \<and>
        (\<exists>rest \<in> set (rests r s).
           (if length rest < length s then word_char (s ! (length s - length rest - 1)) else prev)
             \<noteq> starts_word rest)) \<or>
      (case s of [] \<Rightarrow> False | c # s' \<Rightarrow> search_word r (word_char c) s'))"

declare search_word.simps [simp del]

definition space_class :: "char list" where
  "space_class = map char_of [32, 9, 10, 11, 12, 13, 28, 29, 30, 31, 133, 160 :: nat]"

definition RATE_LIMIT_RE :: regex where
  "RATE_LIMIT_RE =
     (let suffix = opt (alts [lit ''ed'', lit ''s'', lit ''ing'']);
          sep = Star (space_class @ ''_-'')
      in alts
       [lit ''429'',
        lit ''too many requests'',
        Cat (lit ''rate'') (Cat sep (Cat (lit ''limit'') suffix)),
        Cat (lit ''ratelimit'') suffix,
        Cat (lit ''quota'') (opt (lit '' exceeded'')),
        Cat (lit ''resource'') (Cat sep (lit ''exhausted'')),
        lit ''requests per minute'',
        lit ''tokens per minute'',
        Cat (lit ''throttl'') (opt (alts [lit ''ed'', lit ''ing'']))])"

datatype retry_reason = Rate_limit | Transient

definition classify_retry_reason :: "string option \<Rightarrow> retry_reason" where
  "classify_retry_reason msg =
     (case msg of
        None \<Rightarrow> Transient
      | Some m \<Rightarrow> if m \<noteq> [] \<and> search_word RATE_LIMIT_RE False m then Rate_limit else Transient)"

subsection \<open>The delay\<close>

definition TRIAL_RETRY_BASE_DELAY_SECONDS :: rat where "TRIAL_RETRY_BASE_DELAY_SECONDS = 30"
definition TRIAL_RATE_LIMIT_RETRY_BASE_DELAY_SECONDS :: rat where
  "TRIAL_RATE_LIMIT_RETRY_BASE_DELAY_SECONDS = 300"
definition TRIAL_RETRY_MAX_DELAY_SECONDS :: rat where "TRIAL_RETRY_MAX_DELAY_SECONDS = 1800"
definition TRIAL_RETRY_JITTER_FRACTION :: rat where "TRIAL_RETRY_JITTER_FRACTION = 1 / 4"

text \<open>
  \<open>base_delay * (2 ** n)\<close> converts the integer power to a float first, which raises
  \<open>OverflowError\<close> from \<open>2 ** 1024\<close> on. The jitter is an argument: what the caller gave or
  what \<open>random.uniform\<close> drew.
\<close>

definition calculate_trial_retry_delay_seconds ::
  "int \<Rightarrow> string option \<Rightarrow> rat \<Rightarrow> rat option \<Rightarrow> exc + rat" where
  "calculate_trial_retry_delay_seconds attempts error_message jitter retry_after_seconds =
     (let base_delay = (if classify_retry_reason error_message = Rate_limit
            then TRIAL_RATE_LIMIT_RETRY_BASE_DELAY_SECONDS else TRIAL_RETRY_BASE_DELAY_SECONDS);
          n = nat (max (attempts - 1) 0)
      in if 1024 \<le> n then Inl (OtherError ''OverflowError'')
         else let exponential_delay = base_delay * 2 ^ n;
                  capped_delay = min exponential_delay TRIAL_RETRY_MAX_DELAY_SECONDS;
                  jitter_value = max 0 (min jitter TRIAL_RETRY_JITTER_FRACTION);
                  delay = capped_delay * (1 + jitter_value);
                  delay' = (case retry_after_seconds of None \<Rightarrow> delay | Some r \<Rightarrow> max delay r)
              in Inr (min delay' TRIAL_RETRY_MAX_DELAY_SECONDS))"

text \<open>\<open>timedelta(seconds=x)\<close> in microseconds: rounded to the nearest, ties to even.\<close>

definition timedelta :: "rat \<Rightarrow> int" where
  "timedelta x = (let y = x * 1000000; f = floor y; d = y - of_int f in
     if d < 1 / 2 then f else if 1 / 2 < d then f + 1 else if even f then f else f + 1)"

subsection \<open>Properties\<close>

definition delay_of :: "rat \<Rightarrow> int \<Rightarrow> rat \<Rightarrow> rat option \<Rightarrow> rat" where
  "delay_of base attempts jitter ra =
     (let d = min (base * 2 ^ nat (max (attempts - 1) 0)) 1800 * (1 + max 0 (min jitter (1 / 4)))
      in min (case ra of None \<Rightarrow> d | Some r \<Rightarrow> max d r) 1800)"

definition base_of :: "string option \<Rightarrow> rat" where
  "base_of msg = (if classify_retry_reason msg = Rate_limit then 300 else 30)"

lemma delay_value:
  assumes "attempts \<le> 1024"
  shows "calculate_trial_retry_delay_seconds attempts msg jitter ra
    = Inr (delay_of (base_of msg) attempts jitter ra)"
proof -
  have "\<not> 1024 \<le> nat (max (attempts - 1) 0)" using assms by simp
  then show ?thesis
    unfolding calculate_trial_retry_delay_seconds_def Let_def TRIAL_RETRY_BASE_DELAY_SECONDS_def
      TRIAL_RATE_LIMIT_RETRY_BASE_DELAY_SECONDS_def TRIAL_RETRY_MAX_DELAY_SECONDS_def
      TRIAL_RETRY_JITTER_FRACTION_def delay_of_def base_of_def
    by (simp only: if_False)
qed

lemma delay_of_mono:
  assumes "a \<le> b" and "0 \<le> base" and "base \<le> base'"
  shows "delay_of base a jitter ra \<le> delay_of base' b jitter ra"
proof -
  have "(2 :: rat) ^ nat (max (a - 1) 0) \<le> 2 ^ nat (max (b - 1) 0)"
    using assms(1) by (intro power_increasing) auto
  with assms have "base * 2 ^ nat (max (a - 1) 0) \<le> base' * 2 ^ nat (max (b - 1) 0)"
    by (intro mult_mono) auto
  then have "min (base * 2 ^ nat (max (a - 1) 0)) 1800 * (1 + max 0 (min jitter (1 / 4)))
      \<le> min (base' * 2 ^ nat (max (b - 1) 0)) 1800 * (1 + max 0 (min jitter (1 / 4)))"
    by (intro mult_right_mono) (auto simp: min_def)
  then show ?thesis unfolding delay_of_def Let_def by (cases ra) (auto simp: min_def max_def)
qed

lemma delay_of_bounds:
  assumes "0 \<le> base" and "base \<le> 1800"
  shows "base \<le> delay_of base a jitter ra" and "delay_of base a jitter ra \<le> 1800"
proof -
  have "(1 :: rat) \<le> 2 ^ nat (max (a - 1) 0)" by simp
  with assms(1) have "base \<le> base * 2 ^ nat (max (a - 1) 0)" by (simp add: mult_le_cancel_left1)
  with assms have le: "base \<le> min (base * 2 ^ nat (max (a - 1) 0)) 1800" by simp
  also have "\<dots> \<le> \<dots> * (1 + max 0 (min jitter (1 / 4)))"
  proof -
    have "0 \<le> min (base * 2 ^ nat (max (a - 1) 0)) 1800" using le assms(1) by linarith
    then show ?thesis by (simp add: mult_le_cancel_left1)
  qed
  finally show "base \<le> delay_of base a jitter ra"
    using assms(2) unfolding delay_of_def Let_def by (cases ra) (auto simp: max_def)
  show "delay_of base a jitter ra \<le> 1800" by (simp add: delay_of_def Let_def)
qed



end
