(* ===== verification/Worker_Jobs.thy ===== *)
theory Worker_Jobs
  imports Job_Table Retry_Delay
begin

text \<open>
  The life of a row of \<open>worker_jobs\<close> under a worker: the claim, the heartbeat and the recording
  of an outcome, from \<open>workers/queue/worker_job_single_job.py\<close>. A statement or a transaction is
  a function on \<open>queue_db\<close>; an exception inside a transaction leaves the database as it was.
\<close>

subsection \<open>Outcomes\<close>

text \<open>
  \<open>JobOutcome\<close> of \<open>workers/jobs/registry.py\<close>: the constructor checks that exactly one of the
  three dispositions is set, but a handler may change the fields afterwards.
\<close>

record job_failure =
  jf_error_message :: string
  jf_retryable :: bool
  jf_retry_after_seconds :: "rat option"

record job_reroute =
  jr_target_environment :: string
  jr_target_execution_lane :: string
  jr_reason :: string
  jr_retry_after_seconds :: "rat option"
  jr_subject_attempt :: "int option"

record job_outcome =
  oc_success :: "string option option"
  oc_failure :: "job_failure option"
  oc_reroute :: "job_reroute option"

definition disposition_count :: "job_outcome \<Rightarrow> nat" where
  "disposition_count oc = (if oc_success oc \<noteq> None then 1 else 0) + (if oc_failure oc \<noteq> None then 1 else 0)
     + (if oc_reroute oc \<noteq> None then 1 else 0)"

definition job_outcome_init ::
  "string option option \<Rightarrow> job_failure option \<Rightarrow> job_reroute option \<Rightarrow> exc + job_outcome" where
  "job_outcome_init s f r =
     (let oc = \<lparr>oc_success = s, oc_failure = f, oc_reroute = r\<rparr> in
      if disposition_count oc \<noteq> 1
      then Inl (OtherError ''JobOutcome requires exactly one of success / failure / reroute to be set'')
      else Inr oc)"

definition outcome_ok :: "string option \<Rightarrow> job_outcome" where
  "outcome_ok summary = \<lparr>oc_success = Some summary, oc_failure = None, oc_reroute = None\<rparr>"

definition outcome_fail :: "string \<Rightarrow> bool \<Rightarrow> rat option \<Rightarrow> job_outcome" where
  "outcome_fail msg retryable ra = \<lparr>oc_success = None,
     oc_failure = Some \<lparr>jf_error_message = msg, jf_retryable = retryable, jf_retry_after_seconds = ra\<rparr>,
     oc_reroute = None\<rparr>"

definition outcome_reroute :: "job_reroute \<Rightarrow> job_outcome" where
  "outcome_reroute r = \<lparr>oc_success = None, oc_failure = None, oc_reroute = Some r\<rparr>"

subsection \<open>The registry of handlers\<close>

text \<open>Handlers are compared by identity; the registry maps a kind to its handler.\<close>

record handler =
  ha_kind :: worker_job_kind
  ha_identity :: nat

definition register_handler ::
  "handler \<Rightarrow> bool \<Rightarrow> (worker_job_kind, handler) dict \<Rightarrow> exc + (worker_job_kind, handler) dict" where
  "register_handler h override reg =
     (case map_of reg (ha_kind h) of
        None \<Rightarrow> Inr (dict_set reg (ha_kind h) h)
      | Some existing \<Rightarrow>
          if existing = h then Inr reg
          else if \<not> override then Inl (OtherError ''HandlerAlreadyRegisteredError'')
          else Inr (dict_set reg (ha_kind h) h))"

definition get_handler :: "(worker_job_kind, handler) dict \<Rightarrow> worker_job_kind \<Rightarrow> exc + handler" where
  "get_handler reg kind =
     (case map_of reg kind of None \<Rightarrow> Inl (OtherError ''NoHandlerRegisteredError'') | Some h \<Rightarrow> Inr h)"

subsection \<open>Lanes\<close>

definition execution_lane_for_environment :: "string option \<Rightarrow> string" where
  "execution_lane_for_environment env =
     (let normalized = str_lower_strip (case env of None \<Rightarrow> [] | Some e \<Rightarrow> e) in
      if normalized = ''ec2'' then ''ec2_trial''
      else if normalized = ''thunder'' then ''thunder_trial'' else ''default'')"

definition capacity_provider_for_execution_lane :: "string option \<Rightarrow> string option" where
  "capacity_provider_for_execution_lane lane =
     (if lane = Some ''ec2_trial'' then Some ''ec2''
      else if lane = Some ''thunder_trial'' then Some ''thunder'' else None)"

subsection \<open>The claim\<close>

record claim_args =
  ca_queue_key :: string
  ca_worker_id :: string
  ca_queue_slot :: int
  ca_modal_function_call_id :: "string option"
  ca_harbor_variant_id :: "string option"
  ca_execution_lane :: "string option"
  ca_priority_class :: "bool option"
  ca_org_id :: "string option"
  ca_capacity_provider :: "string option"
  ca_capacity_slot :: "int option"

definition job_trial :: "queue_db \<Rightarrow> worker_job \<Rightarrow> trial_row option" where
  "job_trial db j =
     (if wj_kind j = Kind_trial \<and> wj_subject_table j = Some ''trials''
      then find (\<lambda>tr. wj_subject_id j = Some (tr_id tr)) (db_trials db) else None)"

definition trial_task :: "queue_db \<Rightarrow> trial_row \<Rightarrow> task_row option" where
  "trial_task db tr = find (\<lambda>tk. tk_id tk = tr_task_id tr) (db_tasks db)"

definition job_task :: "queue_db \<Rightarrow> worker_job \<Rightarrow> task_row option" where
  "job_task db j = Option.bind (job_trial db j) (trial_task db)"

definition task_fairness_key :: "task_row \<Rightarrow> string option" where
  "task_fairness_key tk = (case tk_created_by_user_id tk of Some u \<Rightarrow> Some u | None \<Rightarrow> tk_user tk)"

definition matches_opt :: "'a option \<Rightarrow> 'a \<Rightarrow> bool" where
  "matches_opt p x = (case p of None \<Rightarrow> True | Some y \<Rightarrow> x = y)"

text \<open>The subquery \<open>rpg\<close>: how many trials of a user run on this queue, variant and lane.\<close>

definition user_running :: "queue_db \<Rightarrow> claim_args \<Rightarrow> string \<Rightarrow> int" where
  "user_running db ca user = count_by (\<lambda>j. wj_kind j = Kind_trial \<and> wj_status j = RUNNING \<and>
     wj_queue_key j = ca_queue_key ca \<and> matches_opt (ca_harbor_variant_id ca) (wj_harbor_variant_id j) \<and>
     matches_opt (ca_execution_lane ca) (wj_execution_lane j) \<and>
     (\<exists>tr \<in> set (db_trials db). wj_subject_id j = Some (tr_id tr) \<and> tr_deleted_at tr = None \<and>
       (\<exists>tk \<in> set (db_tasks db). tk_id tk = tr_task_id tr \<and> tk_deleted_at tk = None \<and>
          task_fairness_key tk = Some user))) (db_jobs db)"

definition running_count :: "queue_db \<Rightarrow> claim_args \<Rightarrow> worker_job \<Rightarrow> int" where
  "running_count db ca j =
     (case Option.bind (job_task db j) task_fairness_key of None \<Rightarrow> 0 | Some user \<Rightarrow> user_running db ca user)"

definition claim_order :: "queue_db \<Rightarrow> claim_args \<Rightarrow> worker_job \<Rightarrow> int \<times> int \<times> int" where
  "claim_order db ca j = (- wj_priority j, running_count db ca j, wj_created_at j)"

definition capacity_row :: "int \<Rightarrow> claim_args \<Rightarrow> capacity_lease \<Rightarrow> bool" where
  "capacity_row now ca l \<longleftrightarrow> ca_capacity_provider ca = Some (cl_provider l) \<and>
     ca_capacity_slot ca = Some (cl_slot l) \<and> cl_locked_by l = Some (ca_worker_id ca) \<and>
     cl_worker_job_id l = None \<and> (case cl_locked_until l of None \<Rightarrow> False | Some u \<Rightarrow> now < u)"

definition claim_candidate ::
  "int \<Rightarrow> (worker_job \<Rightarrow> bool) \<Rightarrow> worker_job_kind list \<Rightarrow> queue_db \<Rightarrow> claim_args \<Rightarrow> worker_job \<Rightarrow> bool" where
  "claim_candidate now skip kinds db ca j \<longleftrightarrow>
     wj_queue_key j = ca_queue_key ca \<and>
     matches_opt (ca_harbor_variant_id ca) (wj_harbor_variant_id j) \<and>
     matches_opt (ca_execution_lane ca) (wj_execution_lane j) \<and>
     (ca_capacity_provider ca = None \<or> (\<exists>l \<in> set (db_leases db). capacity_row now ca l)) \<and>
     wj_kind j \<in> set kinds \<and> claimable_row now j \<and>
     (case ca_priority_class ca of None \<Rightarrow> True
      | Some c \<Rightarrow> (0 < wj_priority j) = c \<and> wj_org_id j = ca_org_id ca) \<and>
     (case job_trial db j of None \<Rightarrow> True | Some tr \<Rightarrow> tr_deleted_at tr = None) \<and>
     (case job_task db j of None \<Rightarrow> True | Some tk \<Rightarrow> tk_deleted_at tk = None) \<and>
     \<not> skip j"

definition claim_job :: "int \<Rightarrow> claim_args \<Rightarrow> worker_job \<Rightarrow> worker_job" where
  "claim_job now ca j = j\<lparr>wj_status := RUNNING, wj_claimed_at := Some now, wj_heartbeat_at := Some now,
     wj_attempts := wj_attempts j + 1, wj_current_worker_id := Some (ca_worker_id ca),
     wj_current_queue_slot := Some (ca_queue_slot ca),
     wj_modal_function_call_id := ca_modal_function_call_id ca,
     wj_started_at := (case wj_started_at j of None \<Rightarrow> Some now | Some s \<Rightarrow> Some s),
     wj_finished_at := None, wj_next_retry_at := None\<rparr>"

definition clear_launch :: "claim_args \<Rightarrow> queue_slot list \<Rightarrow> queue_slot list" where
  "clear_launch ca = update_where
     (\<lambda>r. slot_id r = (ca_queue_key ca, ca_queue_slot ca) \<and> qs_locked_by r = Some (ca_worker_id ca) \<and>
        qs_launch_demand r \<noteq> None) (\<lambda>r. r\<lparr>qs_launch_demand := None\<rparr>)"

definition bindable_lease :: "claim_args \<Rightarrow> capacity_lease \<Rightarrow> bool" where
  "bindable_lease ca l \<longleftrightarrow> ca_capacity_provider ca = Some (cl_provider l) \<and>
     ca_capacity_slot ca = Some (cl_slot l) \<and> cl_locked_by l = Some (ca_worker_id ca) \<and>
     cl_worker_job_id l = None"

definition bind_lease :: "int \<Rightarrow> string \<Rightarrow> capacity_lease \<Rightarrow> capacity_lease" where
  "bind_lease now job_id l = l\<lparr>cl_worker_job_id := Some job_id,
     cl_locked_until := Some (now + make_interval SANDBOX_CAPACITY_LEASE_SECONDS)\<rparr>"

text \<open>
  The statement \<open>_CLAIM_WORKER_JOB_SQL\<close>. Its parts see the same snapshot; the last
  \<open>SELECT\<close> returns the claimed row when no capacity was asked for or a lease was bound.
\<close>

definition claim_worker_job_sql ::
  "int \<Rightarrow> (worker_job \<Rightarrow> bool) \<Rightarrow> worker_job_kind list \<Rightarrow> claim_args \<Rightarrow> queue_db \<Rightarrow>
   queue_db \<times> worker_job option" where
  "claim_worker_job_sql now skip kinds ca db =
     (case claim_first wj_id (claim_order db ca) (claim_candidate now skip kinds db ca)
        (claim_job now ca) (db_jobs db) of
        (jobs, None) \<Rightarrow> (db, None)
      | (jobs, Some j) \<Rightarrow>
          (db\<lparr>db_jobs := jobs, db_slots := clear_launch ca (db_slots db),
              db_leases := update_where (bindable_lease ca) (bind_lease now (wj_id j)) (db_leases db)\<rparr>,
           if ca_capacity_provider ca = None \<or> (\<exists>l \<in> set (db_leases db). bindable_lease ca l)
           then Some (claim_job now ca j) else None))"

definition claim_single_worker_job ::
  "int \<Rightarrow> (worker_job \<Rightarrow> bool) \<Rightarrow> worker_job_kind list \<Rightarrow> claim_args \<Rightarrow> queue_db \<Rightarrow>
   queue_db \<times> (exc + worker_job option)" where
  "claim_single_worker_job now skip kinds ca db =
     (case capacity_provider_for_execution_lane (ca_execution_lane ca) of
        Some expected \<Rightarrow>
          if ca_capacity_provider ca \<noteq> Some expected \<or> ca_capacity_slot ca = None
          then (db, Inl (OtherError ''trial claims require a pre-acquired capacity lease''))
          else apsnd Inr (claim_worker_job_sql now skip kinds ca db)
      | None \<Rightarrow>
          if ca_capacity_provider ca \<noteq> None \<or> ca_capacity_slot ca \<noteq> None
          then (db, Inl (OtherError ''sandbox capacity lease cannot be attached to an unbounded claim''))
          else apsnd Inr (claim_worker_job_sql now skip kinds ca db))"

subsection \<open>The heartbeat\<close>

definition owned_running :: "string \<Rightarrow> string option \<Rightarrow> worker_job \<Rightarrow> bool" where
  "owned_running job_id worker j \<longleftrightarrow> wj_id j = job_id \<and> wj_status j = RUNNING \<and>
     (case worker of None \<Rightarrow> True | Some w \<Rightarrow> wj_current_worker_id j = Some w)"

definition beat :: "int \<Rightarrow> int \<Rightarrow> string option \<Rightarrow> worker_job \<Rightarrow> worker_job" where
  "beat now pending last_error j =
     (if 0 < pending
      then j\<lparr>wj_heartbeat_at := Some now, wj_heartbeat_failure_count := wj_heartbeat_failure_count j + pending,
             wj_last_heartbeat_error := (case last_error of None \<Rightarrow> None
               | Some e \<Rightarrow> if e = [] then None else Some (take 500 e)),
             wj_last_heartbeat_error_at := Some now\<rparr>
      else j\<lparr>wj_heartbeat_at := Some now\<rparr>)"

definition heartbeat_worker_job ::
  "int \<Rightarrow> string \<Rightarrow> string option \<Rightarrow> int \<Rightarrow> string option \<Rightarrow> queue_db \<Rightarrow> queue_db \<times> (exc + bool)" where
  "heartbeat_worker_job now job_id worker pending last_error db =
     (let jobs = update_where (owned_running job_id worker) (beat now pending last_error) (db_jobs db);
          running_job = find (owned_running job_id worker) jobs;
          renewed = (\<lambda>l. case running_job of None \<Rightarrow> False
            | Some j \<Rightarrow> cl_worker_job_id l = Some (wj_id j) \<and> cl_locked_by l \<noteq> None \<and>
                cl_locked_by l = wj_current_worker_id j);
          db' = db\<lparr>db_jobs := jobs, db_leases := update_where renewed
            (\<lambda>l. l\<lparr>cl_locked_until := Some (now + make_interval SANDBOX_CAPACITY_LEASE_SECONDS)\<rparr>) (db_leases db)\<rparr>;
          lane = map_option wj_execution_lane running_job
      in (db',
          if capacity_provider_for_execution_lane lane \<noteq> None \<and> \<not> (\<exists>l \<in> set (db_leases db). renewed l)
          then Inl (OtherError ''SandboxCapacityLeaseLostError'')
          else Inr (running_job \<noteq> None)))"

subsection \<open>Recording an outcome\<close>

definition drop_registry_auth :: "(string, string) dict \<Rightarrow> (string, string) dict" where
  "drop_registry_auth payload = AList.delete ''registry_auth_enc'' payload"

definition mark_success :: "int \<Rightarrow> string option \<Rightarrow> worker_job \<Rightarrow> worker_job" where
  "mark_success now summary j = j\<lparr>wj_status := SUCCESS, wj_result_summary := summary,
     wj_finished_at := Some now, wj_heartbeat_at := Some now, wj_next_retry_at := None,
     wj_error_message := None, wj_payload := drop_registry_auth (wj_payload j)\<rparr>"

definition mark_failed :: "int \<Rightarrow> string \<Rightarrow> worker_job \<Rightarrow> worker_job" where
  "mark_failed now msg j = j\<lparr>wj_status := FAILED, wj_error_message := Some msg,
     wj_finished_at := Some now, wj_next_retry_at := None,
     wj_payload := drop_registry_auth (wj_payload j)\<rparr>"

definition mark_retrying :: "int \<Rightarrow> string \<Rightarrow> int option \<Rightarrow> worker_job \<Rightarrow> worker_job" where
  "mark_retrying now msg retry_at j = j\<lparr>wj_status := RETRYING, wj_error_message := Some msg,
     wj_next_retry_at := retry_at,
     wj_available_after := (case retry_at of None \<Rightarrow> now | Some t \<Rightarrow> t),
     wj_current_worker_id := None, wj_current_queue_slot := None, wj_modal_function_call_id := None,
     wj_external_id := None, wj_provider := None\<rparr>"

definition owned_row :: "string \<Rightarrow> string \<Rightarrow> worker_job \<Rightarrow> bool" where
  "owned_row job_id worker j \<longleftrightarrow>
     wj_id j = job_id \<and> wj_status j = RUNNING \<and> wj_current_worker_id j = Some worker"

definition record_status ::
  "worker_job_status \<Rightarrow> string \<Rightarrow> string \<Rightarrow> (worker_job \<Rightarrow> worker_job) \<Rightarrow> queue_db \<Rightarrow>
   queue_db \<times> worker_job_status option" where
  "record_status status job_id worker f db =
     (db\<lparr>db_jobs := update_where (owned_row job_id worker) f (db_jobs db)\<rparr>,
      if length (filter (owned_row job_id worker) (db_jobs db)) = 1 then Some status else None)"

definition trial_retrying :: "int \<Rightarrow> string \<Rightarrow> int \<Rightarrow> trial_row \<Rightarrow> trial_row" where
  "trial_retrying now msg retry_at tr = tr\<lparr>tr_status := Trial_retrying, tr_error_message := Some msg,
     tr_next_retry_at := Some retry_at, tr_current_worker_id := None, tr_current_queue_slot := None,
     tr_heartbeat_at := Some now\<rparr>"

text \<open>
  The claimed projection of a row the runner passes on; attempts and their limit are those of
  the claim, and the decision to retry reads them again from the current row.
\<close>

record claimed_job =
  cj_id :: string
  cj_kind :: worker_job_kind
  cj_subject_table :: "string option"
  cj_subject_id :: "string option"
  cj_attempts :: int
  cj_max_attempts :: int

definition retry_decision :: "claimed_job \<Rightarrow> queue_db \<Rightarrow> int \<times> int" where
  "retry_decision cj db =
     (case find (\<lambda>j. wj_id j = cj_id cj) (db_jobs db) of
        None \<Rightarrow> (cj_attempts cj, cj_max_attempts cj)
      | Some j \<Rightarrow> (wj_attempts j, wj_max_attempts j))"

definition failure_retry_at ::
  "int \<Rightarrow> rat \<Rightarrow> claimed_job \<Rightarrow> int \<Rightarrow> job_failure \<Rightarrow> exc + int option" where
  "failure_retry_at now jitter cj attempts f =
     (if cj_kind cj = Kind_trial
      then bind_err (calculate_trial_retry_delay_seconds attempts (Some (jf_error_message f)) jitter
             (jf_retry_after_seconds f)) (\<lambda>delay. Inr (Some (now + timedelta delay)))
      else Inr None)"

definition mirror_retry ::
  "int \<Rightarrow> string \<Rightarrow> claimed_job \<Rightarrow> int option \<Rightarrow> trial_row list \<Rightarrow> trial_row list" where
  "mirror_retry now msg cj retry_at trials =
     (case (cj_subject_id cj, retry_at) of
        (Some subject, Some t) \<Rightarrow>
          if cj_kind cj = Kind_trial \<and> cj_subject_table cj = Some ''trials'' \<and> subject \<noteq> []
          then update_where (\<lambda>tr. tr_id tr = subject \<and> tr_deleted_at tr = None \<and>
                 tr_superseded_by_trial_id tr = None) (trial_retrying now msg t) trials
          else trials
      | _ \<Rightarrow> trials)"

definition record_failure ::
  "int \<Rightarrow> rat \<Rightarrow> string \<Rightarrow> claimed_job \<Rightarrow> job_failure \<Rightarrow> queue_db \<Rightarrow>
   queue_db \<times> (exc + worker_job_status option)" where
  "record_failure now jitter worker cj f db =
     (let (attempts, max_attempts) = retry_decision cj db;
          msg = jf_error_message f
      in if jf_retryable f \<and> attempts < max_attempts then
           (case failure_retry_at now jitter cj attempts f of
              Inl e \<Rightarrow> (db, Inl e)
            | Inr retry_at \<Rightarrow>
                (let (db', status) = record_status RETRYING (cj_id cj) worker (mark_retrying now msg retry_at) db
                 in (if status = None then db'
                     else db'\<lparr>db_trials := mirror_retry now msg cj retry_at (db_trials db')\<rparr>, Inr status)))
         else apsnd Inr (record_status FAILED (cj_id cj) worker (mark_failed now msg) db))"

subsection \<open>Rerouting a job to another provider\<close>

record reroute_settings =
  rs_thunder_capacity_fallback :: bool
  rs_thunder_fallback_provider :: string

definition THUNDER_CAPACITY_UNAVAILABLE_CODE :: string where
  "THUNDER_CAPACITY_UNAVAILABLE_CODE = ''sandbox_capacity_unavailable''"

definition reroute_supported :: "reroute_settings \<Rightarrow> claimed_job \<Rightarrow> job_reroute \<Rightarrow> bool" where
  "reroute_supported cfg cj r \<longleftrightarrow> rs_thunder_capacity_fallback cfg \<and>
     jr_target_environment r = rs_thunder_fallback_provider cfg \<and> cj_kind cj = Kind_trial \<and>
     cj_subject_table cj = Some ''trials'' \<and>
     (case cj_subject_id cj of None \<Rightarrow> False | Some i \<Rightarrow> i \<noteq> []) \<and>
     jr_target_execution_lane r = ''default'' \<and> jr_reason r = THUNDER_CAPACITY_UNAVAILABLE_CODE \<and>
     jr_subject_attempt r \<noteq> None"

definition reroute_job_ok :: "claimed_job \<Rightarrow> string \<Rightarrow> worker_job \<Rightarrow> bool" where
  "reroute_job_ok cj worker j \<longleftrightarrow> wj_kind j = Kind_trial \<and> wj_status j = RUNNING \<and>
     wj_subject_table j = Some ''trials'' \<and> wj_subject_id j = cj_subject_id cj \<and>
     wj_attempts j = cj_attempts cj \<and> wj_current_worker_id j = Some worker \<and>
     wj_execution_lane j = ''thunder_trial''"

definition reroute_trial_ok :: "job_reroute \<Rightarrow> string \<Rightarrow> trial_row \<Rightarrow> bool" where
  "reroute_trial_ok r worker tr \<longleftrightarrow> tr_status tr = Trial_running \<and>
     str_lower_strip (case tr_environment tr of None \<Rightarrow> [] | Some e \<Rightarrow> e) = ''thunder'' \<and>
     Some (tr_attempts tr) = jr_subject_attempt r \<and> tr_current_worker_id tr = Some worker \<and>
     tr_deleted_at tr = None \<and> tr_superseded_by_trial_id tr = None"

definition reroute_run_ok :: "claimed_job \<Rightarrow> sandbox_run \<Rightarrow> bool" where
  "reroute_run_ok cj run \<longleftrightarrow> sr_provider run = ''thunder'' \<and> sr_worker_job_attempt run = cj_attempts cj \<and>
     Some (sr_trial_id run) = cj_subject_id cj \<and> sr_deleted_at run = None \<and>
     sr_state run \<in> {PROVISIONING, TERMINATING, TERMINATED, Run_failed}"

definition handle_matches :: "sandbox_run \<Rightarrow> worker_job \<Rightarrow> bool" where
  "handle_matches run j =
     (case sr_external_id run of
        None \<Rightarrow> wj_provider j = None \<and> wj_external_id j = None
      | Some x \<Rightarrow> wj_provider j = Some ''thunder'' \<and> wj_external_id j = Some x)"

text \<open>The checks under the row locks; \<open>None\<close> is a rejected handoff.\<close>

definition reroute_rows ::
  "claimed_job \<Rightarrow> string \<Rightarrow> job_reroute \<Rightarrow> queue_db \<Rightarrow>
   (worker_job \<times> trial_row \<times> sandbox_run \<times> capacity_lease) option" where
  "reroute_rows cj worker r db =
     (case find (\<lambda>j. wj_id j = cj_id cj) (db_jobs db) of
        None \<Rightarrow> None
      | Some j \<Rightarrow>
        if \<not> reroute_job_ok cj worker j then None
        else (case find (\<lambda>tr. Some (tr_id tr) = cj_subject_id cj) (db_trials db) of
          None \<Rightarrow> None
        | Some tr \<Rightarrow>
          if \<not> reroute_trial_ok r worker tr then None
          else (case find (\<lambda>run. sr_worker_job_id run = cj_id cj \<and>
              sr_worker_job_attempt run = cj_attempts cj) (db_runs db) of
            None \<Rightarrow> None
          | Some run \<Rightarrow>
            if \<not> reroute_run_ok cj run \<or> \<not> handle_matches run j then None
            else (case filter (\<lambda>l. cl_provider l = ''thunder'' \<and> cl_worker_job_id l = Some (cj_id cj) \<and>
                cl_locked_by l = Some worker) (db_leases db) of
              [lease] \<Rightarrow> Some (j, tr, run, lease)
            | _ \<Rightarrow> None))))"

definition reroute_run_terminated :: "int \<Rightarrow> sandbox_run \<Rightarrow> sandbox_run" where
  "reroute_run_terminated now run = run\<lparr>sr_state := TERMINATED,
     sr_termination_requested_at := (case sr_termination_requested_at run of None \<Rightarrow> Some now | Some t \<Rightarrow> Some t),
     sr_terminated_at := (case sr_terminated_at run of None \<Rightarrow> Some now | Some t \<Rightarrow> Some t),
     sr_last_error := None\<rparr>"

definition reroute_trial :: "int \<Rightarrow> string \<Rightarrow> trial_row \<Rightarrow> trial_row" where
  "reroute_trial now env tr = tr\<lparr>tr_environment := Some env, tr_status := Trial_retrying,
     tr_next_retry_at := None, tr_current_worker_id := None, tr_current_queue_slot := None,
     tr_heartbeat_at := Some now\<rparr>"

definition reroute_job :: "int \<Rightarrow> job_reroute \<Rightarrow> bool \<Rightarrow> worker_job \<Rightarrow> worker_job" where
  "reroute_job now r teardown_pending j = j\<lparr>wj_execution_lane := jr_target_execution_lane r,
     wj_status := RETRYING, wj_next_retry_at := None, wj_available_after := now,
     wj_current_worker_id := None, wj_current_queue_slot := None, wj_modal_function_call_id := None,
     wj_provider := (if teardown_pending then wj_provider j else None),
     wj_external_id := (if teardown_pending then wj_external_id j else None),
     wj_reroute_from_environment := Some ''thunder'', wj_reroute_reason := Some (jr_reason r),
     wj_reroute_pending_teardown := teardown_pending\<rparr>"

text \<open>The updates, in order; one that does not hit exactly one row aborts the transaction.\<close>

definition reroute_updates ::
  "int \<Rightarrow> claimed_job \<Rightarrow> string \<Rightarrow> job_reroute \<Rightarrow> sandbox_run \<Rightarrow> capacity_lease \<Rightarrow> queue_db \<Rightarrow> exc + queue_db" where
  "reroute_updates now cj worker r run lease db =
     (let teardown_pending = (sr_external_id run \<noteq> None \<and> sr_state run \<noteq> TERMINATED);
          lost = (\<lambda>what. OtherError (''Thunder reroute lost '' @ what @ '' ownership''))
      in bind_err (if sr_external_id run = None
           then update_one (lost ''sandbox-run'') (\<lambda>x. sr_id x = sr_id run \<and> sr_external_id x = None)
             (reroute_run_terminated now) (db_runs db)
           else Inr (db_runs db)) (\<lambda>runs.
         bind_err (update_one (lost ''trial'') (\<lambda>tr. Some (tr_id tr) = cj_subject_id cj \<and>
             tr_status tr = Trial_running \<and> tr_current_worker_id tr = Some worker \<and>
             tr_deleted_at tr = None \<and> tr_superseded_by_trial_id tr = None)
           (reroute_trial now (jr_target_environment r)) (db_trials db)) (\<lambda>trials.
         bind_err (update_one (lost ''worker-job'') (\<lambda>j. wj_id j = cj_id cj \<and> wj_status j = RUNNING \<and>
             wj_current_worker_id j = Some worker \<and> wj_attempts j = cj_attempts cj \<and>
             wj_execution_lane j = ''thunder_trial'')
           (reroute_job now r teardown_pending) (db_jobs db)) (\<lambda>jobs.
         bind_err (if teardown_pending then Inr (db_leases db)
           else update_one (lost ''capacity-lease'') (\<lambda>l. lease_id l = lease_id lease \<and>
               cl_locked_by l = Some worker \<and> cl_worker_job_id l = Some (cj_id cj))
             unlock_lease (db_leases db)) (\<lambda>leases.
         Inr (db\<lparr>db_runs := runs, db_trials := trials, db_jobs := jobs, db_leases := leases\<rparr>))))))"

definition record_reroute_outcome ::
  "int \<Rightarrow> reroute_settings \<Rightarrow> string \<Rightarrow> claimed_job \<Rightarrow> job_reroute \<Rightarrow> queue_db \<Rightarrow>
   queue_db \<times> (exc + worker_job_status option)" where
  "record_reroute_outcome now cfg worker cj r db =
     (if \<not> reroute_supported cfg cj r
      then (db, Inl (OtherError ''unsupported worker-job reroute disposition''))
      else case reroute_rows cj worker r db of
        None \<Rightarrow> (db, Inr None)
      | Some (j, tr, run, lease) \<Rightarrow>
          (case reroute_updates now cj worker r run lease db of
             Inl e \<Rightarrow> (db, Inl e)
           | Inr db' \<Rightarrow> (db', Inr (Some RETRYING))))"

definition record_outcome ::
  "int \<Rightarrow> rat \<Rightarrow> reroute_settings \<Rightarrow> string \<Rightarrow> claimed_job \<Rightarrow> job_outcome \<Rightarrow> queue_db \<Rightarrow>
   queue_db \<times> (exc + worker_job_status option)" where
  "record_outcome now jitter cfg worker cj oc db =
     (case oc_reroute oc of
        Some r \<Rightarrow> record_reroute_outcome now cfg worker cj r db
      | None \<Rightarrow>
        (case oc_success oc of
           Some summary \<Rightarrow> apsnd Inr (record_status SUCCESS (cj_id cj) worker (mark_success now summary) db)
         | None \<Rightarrow>
           (case oc_failure oc of
              None \<Rightarrow> (db, Inl (OtherError ''AssertionError''))
            | Some f \<Rightarrow> record_failure now jitter worker cj f db)))"

subsection \<open>Running one job\<close>

text \<open>What a handler, or the host's authorization of a job, may raise.\<close>

datatype job_exc = Job_access_denied string | Job_cancelled | Job_error string

text \<open>
  The wait loop of \<open>run_authorized_handler\<close> as the script of its rounds: the handler is done,
  or the poll interval passed and the host was asked again. \<open>None\<close>: still waiting.
\<close>

datatype poll_round = Handler_done "job_exc + job_outcome" | Authorized_again "job_exc option"

fun authorized_rounds :: "poll_round list \<Rightarrow> (job_exc + job_outcome) option" where
  "authorized_rounds [] = None"
| "authorized_rounds (Handler_done res # _) = Some res"
| "authorized_rounds (Authorized_again None # ps) = authorized_rounds ps"
| "authorized_rounds (Authorized_again (Some e) # _) = Some (Inl e)"

definition run_authorized_handler ::
  "job_exc option option \<Rightarrow> (job_exc + job_outcome) \<Rightarrow> poll_round list \<Rightarrow> (job_exc + job_outcome) option" where
  "run_authorized_handler authorize direct rounds =
     (case authorize of
        None \<Rightarrow> Some direct
      | Some (Some e) \<Rightarrow> Some (Inl e)
      | Some None \<Rightarrow> authorized_rounds rounds)"

definition attempt_outcome :: "bool \<Rightarrow> job_exc + job_outcome \<Rightarrow> exc + job_outcome" where
  "attempt_outcome has_handler res =
     (if \<not> has_handler then Inr (outcome_fail ''No handler registered'' False None)
      else case res of
        Inr oc \<Rightarrow> Inr oc
      | Inl (Job_access_denied m) \<Rightarrow> Inr (outcome_fail m False None)
      | Inl Job_cancelled \<Rightarrow> Inl CancelledError
      | Inl (Job_error m) \<Rightarrow> Inr (outcome_fail m True None))"

definition checked_outcome :: "job_outcome \<Rightarrow> job_outcome" where
  "checked_outcome oc =
     (if disposition_count oc \<noteq> 1 then outcome_fail ''handler returned an invalid JobOutcome'' False None
      else oc)"

record run_result =
  rr_claimed :: bool
  rr_status :: "worker_job_status option"
  rr_hook_subject :: "string option"

definition claimed_of :: "worker_job \<Rightarrow> claimed_job" where
  "claimed_of j = \<lparr>cj_id = wj_id j, cj_kind = wj_kind j, cj_subject_table = wj_subject_table j,
     cj_subject_id = wj_subject_id j, cj_attempts = wj_attempts j, cj_max_attempts = wj_max_attempts j\<rparr>"

text \<open>
  \<open>run_single_worker_job\<close>: the environment gives the instants of the claim and of the outcome,
  the registered kinds, the handler's result for a claimed job, what other workers do to the
  database in between, and the kinds that have a hook.
\<close>

record run_env =
  re_claim_now :: int
  re_outcome_now :: int
  re_jitter :: rat
  re_skip :: "worker_job \<Rightarrow> bool"
  re_registry :: "(worker_job_kind, handler) dict"
  re_handler_result :: "worker_job \<Rightarrow> job_exc + job_outcome"
  re_meanwhile :: "queue_db \<Rightarrow> queue_db"
  re_hooks :: "worker_job_kind list"
  re_settings :: reroute_settings

definition claim_kwargs :: "claim_args \<Rightarrow> claim_args" where
  "claim_kwargs ca =
     (let ca1 = (if ca_execution_lane ca \<noteq> Some ''default'' \<or> ca_capacity_provider ca \<noteq> None then ca
        else ca\<lparr>ca_capacity_slot := None\<rparr>)
      in if ca_priority_class ca \<noteq> None then ca1 else ca1\<lparr>ca_org_id := None\<rparr>)"

definition run_single_worker_job ::
  "run_env \<Rightarrow> claim_args \<Rightarrow> queue_db \<Rightarrow> queue_db \<times> (exc + run_result)" where
  "run_single_worker_job env ca db =
     (case claim_single_worker_job (re_claim_now env) (re_skip env) (dict_keys (re_registry env)) (claim_kwargs ca) db of
        (db', Inl e) \<Rightarrow> (db', Inl e)
      | (db', Inr None) \<Rightarrow> (db', Inr \<lparr>rr_claimed = False, rr_status = None, rr_hook_subject = None\<rparr>)
      | (db', Inr (Some j)) \<Rightarrow>
          (let db2 = re_meanwhile env db' in
           case attempt_outcome (\<not> isl (get_handler (re_registry env) (wj_kind j)))
               (re_handler_result env j) of
             Inl e \<Rightarrow> (db2, Inl e)
           | Inr oc0 \<Rightarrow>
             (let oc = checked_outcome oc0 in
              case record_outcome (re_outcome_now env) (re_jitter env) (re_settings env) (ca_worker_id ca)
                  (claimed_of j) oc db2 of
                (db3, Inl e) \<Rightarrow> (db3, Inl e)
              | (db3, Inr status) \<Rightarrow> (db3, Inr \<lparr>rr_claimed = True, rr_status = status,
                  rr_hook_subject = (if status \<noteq> None \<and> oc_success oc \<noteq> None \<and> wj_kind j \<in> set (re_hooks env)
                    then (case wj_subject_id j of None \<Rightarrow> None | Some i \<Rightarrow> if i = [] then None else Some i)
                    else None)\<rparr>))))"

subsection \<open>Draining a queue\<close>

text \<open>
  The loop of \<open>drain_worker_jobs\<close> over a state of the world \<open>'s\<close>: \<open>run\<close> is one call of the
  runner and \<open>clock\<close> reads the monotonic clock. Nothing bounds the number of its turns but the
  clock, so the function is partial.
\<close>

partial_function (option) drain_loop ::
  "('s \<Rightarrow> 's \<times> (exc + bool)) \<Rightarrow> ('s \<Rightarrow> int) \<Rightarrow> int \<Rightarrow> 's \<Rightarrow> nat \<Rightarrow> ('s \<times> (exc + nat)) option" where
  "drain_loop run clock deadline s processed =
     (case run s of
        (s', Inl e) \<Rightarrow> Some (s', Inl e)
      | (s', Inr found) \<Rightarrow>
          if \<not> found then Some (s', Inr processed)
          else if clock s' \<ge> deadline then Some (s', Inr (Suc processed))
          else drain_loop run clock deadline s' (Suc processed))"

definition drain_worker_jobs ::
  "('s \<Rightarrow> 's \<times> (exc + bool)) \<Rightarrow> ('s \<Rightarrow> int) \<Rightarrow> int \<Rightarrow> 's \<Rightarrow> ('s \<times> (exc + nat)) option" where
  "drain_worker_jobs run clock budget s = drain_loop run clock (clock s + budget) s 0"

end
