(* ===== verification/Sandbox_Lifecycle.thy ===== *)
theory Sandbox_Lifecycle
  imports Worker_Jobs
begin

text \<open>
  \<open>runtime/sandbox_lifecycle.py\<close>: the ledger of remote sandbox launches, one row per attempt
  of a job. Every function is one transaction under the locks of the rows it reads; a step of the
  ledger is one such transaction, or the ledger part of a reroute.
\<close>

subsection \<open>Types\<close>

datatype lifecycle_error = Lifecycle_error string | Provisioning_refused string | Backend_error string

record sandbox_launch_context =
  lc_sandbox_run_id :: string
  lc_worker_job_id :: string
  lc_worker_job_attempt :: int
  lc_trial_id :: string
  lc_launch_token :: string
  lc_deployment :: string
  lc_aws_account_id :: string
  lc_region :: string
  lc_provider :: string

record ec2_sandbox_ownership =
  ow_deployment :: string
  ow_aws_account_id :: string
  ow_region :: string
  ow_sandbox_run_id :: string
  ow_worker_job_id :: string
  ow_worker_job_attempt :: int
  ow_launch_token :: string
  ow_trial_id :: string
  ow_external_id :: string

definition ownership :: "sandbox_launch_context \<Rightarrow> string \<Rightarrow> ec2_sandbox_ownership" where
  "ownership c external_id = \<lparr>ow_deployment = lc_deployment c, ow_aws_account_id = lc_aws_account_id c,
     ow_region = lc_region c, ow_sandbox_run_id = lc_sandbox_run_id c,
     ow_worker_job_id = lc_worker_job_id c, ow_worker_job_attempt = lc_worker_job_attempt c,
     ow_launch_token = lc_launch_token c, ow_trial_id = lc_trial_id c, ow_external_id = external_id\<rparr>"

definition context_from_run :: "sandbox_run \<Rightarrow> sandbox_launch_context" where
  "context_from_run run = \<lparr>lc_sandbox_run_id = sr_id run, lc_worker_job_id = sr_worker_job_id run,
     lc_worker_job_attempt = sr_worker_job_attempt run, lc_trial_id = sr_trial_id run,
     lc_launch_token = sr_launch_token run, lc_deployment = sr_deployment run,
     lc_aws_account_id = sr_aws_account_id run, lc_region = sr_region run, lc_provider = sr_provider run\<rparr>"

subsection \<open>The EC2 handle\<close>

definition digit :: "char \<Rightarrow> bool" where
  "digit c = (let n = (of_char c :: nat) in 48 \<le> n \<and> n \<le> 57)"

definition region_char :: "char \<Rightarrow> bool" where
  "region_char c = (let n = (of_char c :: nat) in 97 \<le> n \<and> n \<le> 122 \<or> digit c \<or> c = CHR ''-'')"

definition instance_char :: "char \<Rightarrow> bool" where
  "instance_char c = (let n = (of_char c :: nat) in
     65 \<le> n \<and> n \<le> 90 \<or> 97 \<le> n \<and> n \<le> 122 \<or> digit c \<or> c = CHR ''-'')"

text \<open>The groups of a full match of \<open>_EC2_HANDLE\<close>; no group can run over its closing slash.\<close>

definition ec2_handle :: "string \<Rightarrow> (string \<times> string \<times> string) option" where
  "ec2_handle s =
     (if take 6 s \<noteq> ''ec2://'' then None
      else let rest = drop 6 s; account = take 12 rest; tail1 = drop 12 rest in
        if length account \<noteq> 12 \<or> \<not> list_all digit account then None
        else case tail1 of
          [] \<Rightarrow> None
        | c # tail2 \<Rightarrow>
            let region = takeWhile region_char tail2; tail3 = dropWhile region_char tail2;
                instance_id = drop 1 tail3 in
            if c \<noteq> CHR ''/'' \<or> region = [] \<or> take 1 tail3 \<noteq> ''/'' then None
            else if take 2 instance_id \<noteq> ''i-'' \<or> length instance_id \<le> 2 \<or>
                \<not> list_all instance_char instance_id then None
            else Some (account, region, instance_id))"

subsection \<open>Creating the ledger row of an attempt\<close>

definition status_value :: "worker_job_status \<Rightarrow> string" where
  "status_value st = (case st of QUEUED \<Rightarrow> ''QUEUED'' | RUNNING \<Rightarrow> ''RUNNING'' | RETRYING \<Rightarrow> ''RETRYING''
     | SUCCESS \<Rightarrow> ''SUCCESS'' | FAILED \<Rightarrow> ''FAILED'' | CANCELLED \<Rightarrow> ''CANCELLED'' | BLOCKED \<Rightarrow> ''BLOCKED'')"

text \<open>How the errors spell a provider.\<close>

definition provider_label :: "string \<Rightarrow> string" where
  "provider_label provider = (if provider = ''ec2'' then ''EC2'' else ''Thunder'')"

definition launch_refusal ::
  "string \<Rightarrow> string \<Rightarrow> string \<Rightarrow> int \<Rightarrow> worker_job option \<Rightarrow> lifecycle_error option" where
  "launch_refusal lane provider job_id attempt worker =
     (case worker of
        None \<Rightarrow> Some (Lifecycle_error (''worker_job '' @ job_id @ '' does not exist''))
      | Some j \<Rightarrow>
          if wj_status j \<noteq> RUNNING then Some (Provisioning_refused
            (''worker_job '' @ job_id @ '' is '' @ status_value (wj_status j) @ '', not RUNNING''))
          else if wj_attempts j \<noteq> attempt then Some (Provisioning_refused
            (''worker_job '' @ job_id @ '' attempt changed from '' @ string_of_int attempt @ '' to '' @
             string_of_int (wj_attempts j)))
          else if wj_execution_lane j \<noteq> lane
          then Some (Lifecycle_error
            (''worker_job '' @ job_id @ '' is not on the '' @ provider_label provider @ '' execution lane''))
          else None)"

definition new_sandbox_run ::
  "string \<Rightarrow> string \<Rightarrow> string \<Rightarrow> int \<Rightarrow> string \<Rightarrow> string \<Rightarrow> string \<times> string \<times> string \<Rightarrow> sandbox_run" where
  "new_sandbox_run new_id token job_id attempt trial_id provider owner =
     (case owner of (deployment, account, region) \<Rightarrow>
       \<lparr>sr_id = new_id, sr_worker_job_id = job_id, sr_worker_job_attempt = attempt,
        sr_trial_id = trial_id, sr_provider = provider, sr_deployment = deployment,
        sr_aws_account_id = account, sr_region = region, sr_state = PROVISIONING,
        sr_launch_token = token, sr_external_id = None, sr_provisioned_at = None,
        sr_termination_requested_at = None, sr_terminated_at = None, sr_deleted_at = None,
        sr_last_error = None\<rparr>)"

text \<open>The transaction both providers run, with their lane and the owner columns of the row.\<close>

definition create_run_transaction ::
  "string \<Rightarrow> string \<Rightarrow> string \<times> string \<times> string \<Rightarrow> string \<Rightarrow> string \<Rightarrow> string \<Rightarrow> int \<Rightarrow> string \<Rightarrow> queue_db \<Rightarrow>
   queue_db \<times> (lifecycle_error + sandbox_launch_context)" where
  "create_run_transaction lane provider owner new_id token job_id attempt trial_id db =
     (case launch_refusal lane provider job_id attempt (find (\<lambda>j. wj_id j = job_id) (db_jobs db)) of
        Some e \<Rightarrow> (db, Inl e)
      | None \<Rightarrow>
          (case find (\<lambda>r. sr_worker_job_id r = job_id \<and> sr_worker_job_attempt r = attempt) (db_runs db) of
             Some existing \<Rightarrow>
               if sr_trial_id existing \<noteq> trial_id \<or> sr_provider existing \<noteq> provider
               then (db, Inl (Lifecycle_error (''sandbox run '' @ sr_id existing @ '' does not match this '' @
                      provider_label provider @ '' trial'')))
               else (db, Inr (context_from_run existing))
           | None \<Rightarrow>
               let run = new_sandbox_run new_id token job_id attempt trial_id provider owner
               in (db\<lparr>db_runs := db_runs db @ [run]\<rparr>, Inr (context_from_run run))))"

text \<open>
  What the registered EC2 backend answers: its deployment name, its configured region and the
  account it resolves; the resolution may raise.
\<close>

record ec2_backend =
  eb_deployment_name :: string
  eb_configured_region :: string
  eb_resolve_aws_account_id :: "string + string"

definition create_ec2_sandbox_run ::
  "ec2_backend option \<Rightarrow> string \<Rightarrow> string \<Rightarrow> string \<Rightarrow> int \<Rightarrow> string \<Rightarrow> queue_db \<Rightarrow>
   queue_db \<times> (lifecycle_error + sandbox_launch_context)" where
  "create_ec2_sandbox_run backend new_id token job_id attempt trial_id db =
     (case backend of
        None \<Rightarrow> (db, Inl (Lifecycle_error ''EC2 backend is not registered''))
      | Some b \<Rightarrow>
          (case eb_resolve_aws_account_id b of
             Inl e \<Rightarrow> (db, Inl (Backend_error e))
           | Inr account \<Rightarrow>
               let region = str_strip (eb_configured_region b) in
               if region = [] then (db, Inl (Lifecycle_error ''EC2 region is missing''))
               else create_run_transaction ''ec2_trial'' ''ec2'' (eb_deployment_name b, account, region)
                      new_id token job_id attempt trial_id db))"

definition create_thunder_sandbox_run ::
  "string \<Rightarrow> string \<Rightarrow> string \<Rightarrow> int \<Rightarrow> string \<Rightarrow> queue_db \<Rightarrow>
   queue_db \<times> (lifecycle_error + sandbox_launch_context)" where
  "create_thunder_sandbox_run = create_run_transaction ''thunder_trial'' ''thunder'' (''thunder'', [], [])"

subsection \<open>Persisting the provider identity\<close>

text \<open>\<open>repr\<close> of a text without quotes, backslashes and unprintable characters, or of \<open>None\<close>.\<close>

definition handle_refusal ::
  "sandbox_launch_context \<Rightarrow> string option \<Rightarrow> string option \<Rightarrow> lifecycle_error option" where
  "handle_refusal c provider external_id =
     (let who = ''sandbox run '' @ lc_sandbox_run_id c; p = str_lower_strip (case provider of None \<Rightarrow> [] | Some s \<Rightarrow> s) in
      if p \<noteq> lc_provider c then Some (Lifecycle_error (who @ '' provisioned as '' @ repr_opt provider))
      else case external_id of
        None \<Rightarrow> Some (Lifecycle_error (who @ '' emitted an empty external id''))
      | Some x \<Rightarrow>
          if x = [] then Some (Lifecycle_error (who @ '' emitted an empty external id''))
          else if p = ''ec2'' then
            (case ec2_handle x of
               None \<Rightarrow> Some (Lifecycle_error (who @ '' emitted malformed EC2 handle''))
             | Some (account, region, _) \<Rightarrow>
                 if account \<noteq> lc_aws_account_id c \<or> region \<noteq> lc_region c
                 then Some (Lifecycle_error (who @ '' emitted an ownership-mismatched handle''))
                 else None)
          else None)"

definition first_set :: "int option \<Rightarrow> int \<Rightarrow> int option" where
  "first_set old now = (case old of None \<Rightarrow> Some now | Some t \<Rightarrow> Some t)"

definition worker_matches :: "sandbox_launch_context \<Rightarrow> string option \<Rightarrow> worker_job \<Rightarrow> bool" where
  "worker_matches c worker_id j \<longleftrightarrow> wj_status j = RUNNING \<and> wj_attempts j = lc_worker_job_attempt c \<and>
     (worker_id = None \<or> wj_current_worker_id j = worker_id)"

definition persist_handle :: "int \<Rightarrow> string \<Rightarrow> sandbox_run \<Rightarrow> sandbox_run" where
  "persist_handle now x r = r\<lparr>sr_external_id := Some x, sr_provisioned_at := first_set (sr_provisioned_at r) now\<rparr>"

definition persist_late_handle :: "int \<Rightarrow> string \<Rightarrow> sandbox_run \<Rightarrow> sandbox_run" where
  "persist_late_handle now x r0 =
     (let r = persist_handle now x r0 in
      if sr_state r \<in> {TERMINATING, TERMINATED} then r
      else r\<lparr>sr_state := TERMINATING, sr_termination_requested_at := Some now\<rparr>)"

definition lost_worker :: "sandbox_launch_context \<Rightarrow> lifecycle_error" where
  "lost_worker c = Provisioning_refused
     (''sandbox run '' @ lc_sandbox_run_id c @ '' lost its worker before provisioning persisted'')"

definition mark_environment_provisioned ::
  "int \<Rightarrow> sandbox_launch_context \<Rightarrow> string option \<Rightarrow> string option \<Rightarrow> string option \<Rightarrow> queue_db \<Rightarrow>
   queue_db \<times> (lifecycle_error + unit)" where
  "mark_environment_provisioned now c provider external_id worker_id db =
     (case handle_refusal c provider external_id of
        Some e \<Rightarrow> (db, Inl e)
      | None \<Rightarrow>
        let x = the external_id; this_run = (\<lambda>r. sr_id r = lc_sandbox_run_id c);
            replaced_error = Lifecycle_error (''sandbox run '' @ lc_sandbox_run_id c @
              '' attempted to replace its external handle'') in
        (case (find (\<lambda>j. wj_id j = lc_worker_job_id c) (db_jobs db), find this_run (db_runs db)) of
           (Some worker, Some run) \<Rightarrow>
             let replaced = (sr_external_id run \<noteq> None \<and> sr_external_id run \<noteq> Some x) in
             if \<not> worker_matches c worker_id worker \<or> sr_state run = TERMINATING then
               (if replaced then (db, Inl replaced_error)
                else (db\<lparr>db_runs := update_where this_run (persist_late_handle now x) (db_runs db)\<rparr>,
                      Inl (lost_worker c)))
             else if sr_state run = TERMINATED
             then (db, Inl (Provisioning_refused (''sandbox run '' @ lc_sandbox_run_id c @ '' was already terminated'')))
             else if replaced then (db, Inl replaced_error)
             else (db\<lparr>db_runs := update_where this_run (\<lambda>r. (persist_handle now x r)\<lparr>sr_state := Run_running\<rparr>)
                       (db_runs db),
                     db_jobs := update_where (\<lambda>j. wj_id j = lc_worker_job_id c)
                       (\<lambda>j. j\<lparr>wj_provider := Some (lc_provider c), wj_external_id := Some x,
                          wj_sandbox_creating_at := first_set (wj_sandbox_creating_at j) now\<rparr>) (db_jobs db)\<rparr>,
                   Inr ())
         | _ \<Rightarrow> (db, Inl (Lifecycle_error ''sandbox launch owner disappeared''))))"

subsection \<open>Teardown\<close>

definition with_run :: "string \<Rightarrow> (sandbox_run \<Rightarrow> sandbox_run) \<Rightarrow> queue_db \<Rightarrow> queue_db" where
  "with_run run_id f db = db\<lparr>db_runs := update_where (\<lambda>r. sr_id r = run_id) f (db_runs db)\<rparr>"

definition request_termination :: "int \<Rightarrow> string option \<Rightarrow> sandbox_run \<Rightarrow> sandbox_run" where
  "request_termination now err r0 =
     (let r = (if sr_state r0 \<noteq> TERMINATED
        then r0\<lparr>sr_state := TERMINATING,
               sr_termination_requested_at := first_set (sr_termination_requested_at r0) now\<rparr>
        else r0)
      in case err of None \<Rightarrow> r | Some e \<Rightarrow> if e = [] then r else r\<lparr>sr_last_error := Some (take 2000 e)\<rparr>)"

definition request_sandbox_termination ::
  "int \<Rightarrow> string \<Rightarrow> string option \<Rightarrow> queue_db \<Rightarrow> queue_db \<times> sandbox_run option" where
  "request_sandbox_termination now run_id err db =
     (with_run run_id (request_termination now err) db,
      map_option (request_termination now err) (find (\<lambda>r. sr_id r = run_id) (db_runs db)))"

definition run_failed :: "string \<Rightarrow> sandbox_run \<Rightarrow> sandbox_run" where
  "run_failed err r0 =
     (let r = r0\<lparr>sr_last_error := Some (take 2000 err)\<rparr> in
      if sr_state r \<in> {TERMINATING, TERMINATED} then r else r\<lparr>sr_state := Run_failed\<rparr>)"

definition mark_sandbox_failed :: "string \<Rightarrow> string \<Rightarrow> queue_db \<Rightarrow> queue_db" where
  "mark_sandbox_failed run_id err = with_run run_id (run_failed err)"

definition run_terminated :: "int \<Rightarrow> sandbox_run \<Rightarrow> sandbox_run" where
  "run_terminated now r = r\<lparr>sr_state := TERMINATED,
     sr_termination_requested_at := first_set (sr_termination_requested_at r) now,
     sr_terminated_at := first_set (sr_terminated_at r) now, sr_last_error := None\<rparr>"

definition mark_sandbox_terminated :: "int \<Rightarrow> string \<Rightarrow> queue_db \<Rightarrow> queue_db" where
  "mark_sandbox_terminated now run_id = with_run run_id (run_terminated now)"

definition get_sandbox_ownership_by_external_id ::
  "string \<Rightarrow> queue_db \<Rightarrow> (string \<times> ec2_sandbox_ownership) option" where
  "get_sandbox_ownership_by_external_id external_id db =
     map_option (\<lambda>r. (sr_id r, ownership (context_from_run r) external_id))
       (find (\<lambda>r. sr_provider r = ''ec2'' \<and> sr_external_id r = Some external_id) (db_runs db))"

text \<open>
  Teardown at the provider: \<open>ec2\<close> is the registered EC2 backend's \<open>teardown_owned\<close>, if
  one is registered, \<open>hosted\<close> is \<open>cancel_job_by_worker\<close>; \<open>meanwhile\<close> is what other
  transactions do while the provider works.
\<close>

record teardown_env =
  te_ec2 :: "(string \<Rightarrow> ec2_sandbox_ownership \<Rightarrow> string + bool) option"
  te_hosted :: "string \<Rightarrow> string \<Rightarrow> string + bool"
  te_meanwhile :: "queue_db \<Rightarrow> queue_db"

definition provider_teardown :: "teardown_env \<Rightarrow> sandbox_run \<Rightarrow> string \<Rightarrow> (string + bool) option" where
  "provider_teardown env run x =
     (if sr_provider run = ''ec2''
      then map_option (\<lambda>teardown. teardown x (ownership (context_from_run run) x)) (te_ec2 env)
      else Some (te_hosted env (sr_provider run) x))"

definition terminate_sandbox_run ::
  "teardown_env \<Rightarrow> int \<Rightarrow> string \<Rightarrow> queue_db \<Rightarrow> queue_db \<times> (string + bool)" where
  "terminate_sandbox_run env now run_id db =
     (case request_sandbox_termination now run_id None db of
        (db1, None) \<Rightarrow> (db1, Inr False)
      | (db1, Some run) \<Rightarrow>
          if sr_external_id run = None \<or> sr_external_id run = Some []
          then (mark_sandbox_failed run_id
                  ''teardown is waiting for the provider identity to be persisted'' db1, Inr False)
          else (case provider_teardown env run (the (sr_external_id run)) of
            None \<Rightarrow> (mark_sandbox_failed run_id
              (''provider backend '' @ repr_opt (Some (sr_provider run)) @ '' is not registered'') db1, Inr False)
          | Some (Inl e) \<Rightarrow> (te_meanwhile env db1, Inl e)
          | Some (Inr done_there) \<Rightarrow>
              let db2 = te_meanwhile env db1 in
              if done_there then (mark_sandbox_terminated now run_id db2, Inr True)
              else (mark_sandbox_failed run_id ''provider teardown failed or was refused'' db2, Inr False)))"

definition terminate_sandbox_by_external_id ::
  "teardown_env \<Rightarrow> int \<Rightarrow> string \<Rightarrow> queue_db \<Rightarrow> queue_db \<times> (string + bool)" where
  "terminate_sandbox_by_external_id env now external_id db =
     (case get_sandbox_ownership_by_external_id external_id db of
        None \<Rightarrow> (db, Inr False)
      | Some (run_id, _) \<Rightarrow> terminate_sandbox_run env now run_id db)"

end
