(* ===== verification/Verdict_State.thy ===== *)
theory Verdict_State
  imports Db_Tables
begin

text \<open>
  \<open>core/verdict_state.py\<close>: the only writer of the verdict columns of a task, and the abstract
  machine it implements: a task is not reviewed, under review, has a published result, or its
  last review ended without one.
\<close>

definition ACTIVE_VERDICT_STATUSES :: "trial_status list" where
  "ACTIVE_VERDICT_STATUSES = [Trial_pending, Trial_queued, Trial_running]"

definition has_published_verdict :: "task_row \<Rightarrow> bool" where
  "has_published_verdict t \<longleftrightarrow> tk_verdict t \<noteq> None"

definition has_active_verdict :: "task_row \<Rightarrow> bool" where
  "has_active_verdict t \<longleftrightarrow> (case tk_verdict_status t of None \<Rightarrow> False | Some s \<Rightarrow> s \<in> set ACTIVE_VERDICT_STATUSES)"

definition queue_verdict :: "task_row \<Rightarrow> task_row" where
  "queue_verdict t = t\<lparr>tk_verdict := None, tk_verdict_status := Some Trial_queued, tk_verdict_error := None,
     tk_verdict_started_at := None, tk_verdict_finished_at := None\<rparr>"

definition complete_verdict :: "json \<Rightarrow> int \<Rightarrow> task_row \<Rightarrow> task_row" where
  "complete_verdict payload now t = t\<lparr>tk_verdict := Some payload, tk_verdict_status := Some Trial_success,
     tk_verdict_error := None, tk_verdict_finished_at := Some now\<rparr>"

definition complete_verdict_without_result :: "int \<Rightarrow> task_row \<Rightarrow> task_row" where
  "complete_verdict_without_result now t = t\<lparr>tk_verdict := None, tk_verdict_status := Some Trial_success,
     tk_verdict_error := None, tk_verdict_finished_at := Some now\<rparr>"

definition fail_verdict :: "string \<Rightarrow> int \<Rightarrow> task_row \<Rightarrow> task_row" where
  "fail_verdict err now t = t\<lparr>tk_verdict := None, tk_verdict_status := Some Trial_failed,
     tk_verdict_error := Some err, tk_verdict_finished_at := Some now\<rparr>"

definition reset_verdict :: "task_row \<Rightarrow> task_row" where
  "reset_verdict t = t\<lparr>tk_verdict := None, tk_verdict_status := None, tk_verdict_error := None,
     tk_verdict_started_at := None, tk_verdict_finished_at := None\<rparr>"

definition restore_published_verdict :: "task_row \<Rightarrow> task_row" where
  "restore_published_verdict t = t\<lparr>tk_verdict_status := Some Trial_success, tk_verdict_error := None,
     tk_verdict_started_at := None\<rparr>"

definition cancel_verdict :: "string \<Rightarrow> int \<Rightarrow> task_row \<Rightarrow> task_row" where
  "cancel_verdict err now t =
     (if has_published_verdict t \<and> \<not> has_active_verdict t then restore_published_verdict t
      else fail_verdict err now t)"

definition abandon_verdict :: "task_row \<Rightarrow> task_row" where
  "abandon_verdict t =
     (if has_published_verdict t \<and> \<not> has_active_verdict t then restore_published_verdict t
      else reset_verdict t)"

subsection \<open>The abstract machine\<close>

datatype review = Not_reviewed | Under_review | Published json | Ended_without_result

datatype verdict_op = Queue_op | Complete_op json int | Complete_empty_op int | Fail_op string int
  | Cancel_op string int | Abandon_op | Reset_op

fun run_verdict_op :: "verdict_op \<Rightarrow> task_row \<Rightarrow> task_row" where
  "run_verdict_op Queue_op t = queue_verdict t"
| "run_verdict_op (Complete_op p now) t = complete_verdict p now t"
| "run_verdict_op (Complete_empty_op now) t = complete_verdict_without_result now t"
| "run_verdict_op (Fail_op e now) t = fail_verdict e now t"
| "run_verdict_op (Cancel_op e now) t = cancel_verdict e now t"
| "run_verdict_op Abandon_op t = abandon_verdict t"
| "run_verdict_op Reset_op t = reset_verdict t"

fun review_op :: "verdict_op \<Rightarrow> review \<Rightarrow> review" where
  "review_op Queue_op r = Under_review"
| "review_op (Complete_op p now) r = Published p"
| "review_op (Complete_empty_op now) r = Ended_without_result"
| "review_op (Fail_op e now) r = Ended_without_result"
| "review_op (Cancel_op e now) r = (case r of Published p \<Rightarrow> Published p | _ \<Rightarrow> Ended_without_result)"
| "review_op Abandon_op r = (case r of Published p \<Rightarrow> Published p | _ \<Rightarrow> Not_reviewed)"
| "review_op Reset_op r = Not_reviewed"

definition review_of :: "task_row \<Rightarrow> review" where
  "review_of t = (case tk_verdict t of Some p \<Rightarrow> Published p | None \<Rightarrow>
     (case tk_verdict_status t of None \<Rightarrow> Not_reviewed
      | Some s \<Rightarrow> if s \<in> set ACTIVE_VERDICT_STATUSES then Under_review else Ended_without_result))"

text \<open>A result is published only by a review that succeeded.\<close>

definition verdict_ok :: "task_row \<Rightarrow> bool" where
  "verdict_ok t \<longleftrightarrow> (tk_verdict t \<noteq> None \<longrightarrow> tk_verdict_status t = Some Trial_success)"

lemmas verdict_ops = queue_verdict_def complete_verdict_def complete_verdict_without_result_def
  fail_verdict_def reset_verdict_def restore_published_verdict_def cancel_verdict_def abandon_verdict_def

lemma run_verdict_op_ok: "verdict_ok t \<Longrightarrow> verdict_ok (run_verdict_op op t)"
  by (cases op) (auto simp: verdict_ok_def verdict_ops)

lemma run_verdict_op_review:
  assumes "verdict_ok t"
  shows "review_of (run_verdict_op op t) = review_op op (review_of t)"
  using assms
  by (cases op; cases "tk_verdict t"; cases "tk_verdict_status t")
    (auto simp: verdict_ok_def verdict_ops review_of_def ACTIVE_VERDICT_STATUSES_def
      has_published_verdict_def has_active_verdict_def)

text \<open>
  C30. The verdict columns implement the review machine: whatever sequence of operations runs on
  a well-formed task, the task stays well formed and its columns read as the state the machine
  reaches; a result is withdrawn when a replacement is queued, fails or is reset, and cancelling
  or abandoning never revives it but leaves one that is not being replaced in place.
\<close>

theorem verdict_refines_review:
  assumes "verdict_ok t"
  shows "verdict_ok (fold run_verdict_op ops t) \<and>
    review_of (fold run_verdict_op ops t) = fold review_op ops (review_of t)"
  using assms
proof (induction ops arbitrary: t)
  case (Cons op ops)
  from Cons.IH [OF run_verdict_op_ok [OF Cons.prems]] run_verdict_op_review [OF Cons.prems]
  show ?case by simp
qed simp

definition sample_task :: task_row where
  "sample_task = \<lparr>tk_id = ''k'', tk_name = ''sort'', tk_org_id = None, tk_status = Task_running, tk_finished_at = None,
     tk_created_by_user_id = None, tk_user = None, tk_deleted_at = None,
     tk_current_version_id = None, tk_verdict = None, tk_verdict_status = None, tk_verdict_error = None,
     tk_verdict_started_at = None, tk_verdict_finished_at = None\<rparr>"

theorem verdict_refines_review_witness:
  "review_of (fold run_verdict_op
     [Queue_op, Complete_op (JString ''ok'') 1, Cancel_op ''user'' 2, Queue_op, Abandon_op] sample_task) = Not_reviewed"
proof -
  let ?ops = "[Queue_op, Complete_op (JString ''ok'') 1, Cancel_op ''user'' 2, Queue_op, Abandon_op]"
  have ok: "verdict_ok sample_task" and "review_of sample_task = Not_reviewed"
    by (simp_all add: verdict_ok_def sample_task_def review_of_def)
  from conjunct2 [OF verdict_refines_review [OF ok, of ?ops]] this(2)
  show ?thesis by (simp del: run_verdict_op.simps)
qed

end
