(* ===== verification/Ec2_Orphans.thy ===== *)
theory Ec2_Orphans
  imports Worker_Jobs
begin

text \<open>
  \<open>runtime/ec2_orphans.py\<close>: the decision, from a snapshot of the instances and of the workers,
  what to do with one EC2 instance that carries the deployment's tags.
\<close>

subsection \<open>Types\<close>

text \<open>A \<open>datetime\<close>, in microseconds, with or without a time zone.\<close>

datatype datetime = Naive int | Aware int

record ec2_instance =
  ei_instance_id :: string
  ei_region :: string
  ei_state :: string
  ei_launch_time :: "datetime option"
  ei_managed_tag :: "string option"
  ei_deployment_tag :: "string option"
  ei_account_id_tag :: "string option"
  ei_trial_id_tag :: "string option"
  ei_worker_job_id_tag :: "string option"
  ei_sandbox_run_id_tag :: "string option"
  ei_worker_attempt_tag :: "string option"
  ei_launch_token_tag :: "string option"

text \<open>The f-string writes an absent account as \<open>None\<close>.\<close>

definition ec2_external_id :: "ec2_instance \<Rightarrow> string" where
  "ec2_external_id i = ''ec2://'' @ (case ei_account_id_tag i of None \<Rightarrow> ''None'' | Some a \<Rightarrow> a) @
     ''/'' @ ei_region i @ ''/'' @ ei_instance_id i"

record ec2_worker_liveness =
  el_worker_job_id :: string
  el_trial_id :: "string option"
  el_status :: string
  el_provider :: "string option"
  el_external_id :: "string option"
  el_heartbeat_fresh :: bool

datatype orphan_verdict = Keep | Terminate | Refuse

datatype orphan_reason = Wrong_managed_ownership | Wrong_deployment | Wrong_account
  | Already_terminating | Missing_launch_time | Hard_max_age | Linked_live_worker
  | Unlinked_live_trial | Within_grace | Missing_owner | Terminal_owner | Stale_owner
  | Handle_mismatch | Unlinked_without_live_trial

type_synonym orphan_decision = "orphan_verdict \<times> orphan_reason"

definition should_terminate :: "orphan_decision \<Rightarrow> bool" where
  "should_terminate d \<longleftrightarrow> fst d = Terminate"

definition EC2_ORPHAN_GRACE :: int where "EC2_ORPHAN_GRACE = make_interval (30 * 60)"
definition EC2_HARD_MAX_AGE :: int where "EC2_HARD_MAX_AGE = make_interval (14 * 3600)"

subsection \<open>The predicates\<close>

definition or_empty :: "string option \<Rightarrow> string" where
  "or_empty s = (case s of None \<Rightarrow> [] | Some x \<Rightarrow> x)"

definition is_running :: "ec2_worker_liveness \<Rightarrow> bool" where
  "is_running w \<longleftrightarrow> map upper_char (str_strip (el_status w)) = ''RUNNING''"

definition is_exact_link :: "ec2_worker_liveness \<Rightarrow> ec2_instance \<Rightarrow> bool" where
  "is_exact_link w i \<longleftrightarrow> str_lower_strip (or_empty (el_provider w)) = ''ec2'' \<and>
     el_external_id w = Some (ec2_external_id i)"

definition is_unlinked_from_inventory :: "ec2_worker_liveness \<Rightarrow> string list \<Rightarrow> bool" where
  "is_unlinked_from_inventory w handles \<longleftrightarrow>
     (let external_id = str_strip (or_empty (el_external_id w)) in
      str_lower_strip (or_empty (el_provider w)) \<noteq> ''ec2'' \<or>
      take 6 (str_lower external_id) \<noteq> ''ec2://'' \<or> external_id \<notin> set handles)"

definition live_link :: "ec2_instance \<Rightarrow> ec2_worker_liveness \<Rightarrow> bool" where
  "live_link i w \<longleftrightarrow> is_running w \<and> el_heartbeat_fresh w \<and> is_exact_link w i"

definition unlinked_live :: "ec2_instance \<Rightarrow> string list \<Rightarrow> ec2_worker_liveness \<Rightarrow> bool" where
  "unlinked_live i handles w \<longleftrightarrow> is_running w \<and> el_heartbeat_fresh w \<and>
     el_trial_id w = ei_trial_id_tag i \<and> is_unlinked_from_inventory w handles"

subsection \<open>The decision\<close>

definition owner_decision :: "ec2_worker_liveness option \<Rightarrow> orphan_decision" where
  "owner_decision tagged_owner =
     (case tagged_owner of
        None \<Rightarrow> (Terminate, Missing_owner)
      | Some w \<Rightarrow>
          if \<not> is_running w then (Terminate, Terminal_owner)
          else if \<not> el_heartbeat_fresh w then (Terminate, Stale_owner)
          else if or_empty (el_external_id w) \<noteq> [] then (Terminate, Handle_mismatch)
          else (Terminate, Unlinked_without_live_trial))"

definition aged_decision ::
  "ec2_instance \<Rightarrow> ec2_worker_liveness list \<Rightarrow> string list \<Rightarrow> int \<Rightarrow> int \<Rightarrow> int \<Rightarrow> orphan_decision" where
  "aged_decision i workers handles grace hard_max_age age =
     (if hard_max_age \<le> age then (Terminate, Hard_max_age)
      else if \<exists>w \<in> set workers. live_link i w then (Keep, Linked_live_worker)
      else if or_empty (ei_trial_id_tag i) \<noteq> [] \<and> (\<exists>w \<in> set workers. unlinked_live i handles w)
      then (Keep, Unlinked_live_trial)
      else if age \<le> grace then (Keep, Within_grace)
      else owner_decision (find (\<lambda>w. Some (el_worker_job_id w) = ei_worker_job_id_tag i) workers))"

definition decide_ec2_orphan ::
  "ec2_instance \<Rightarrow> ec2_worker_liveness list \<Rightarrow> string \<Rightarrow> string \<Rightarrow> datetime \<Rightarrow> string list \<Rightarrow> int \<Rightarrow> int \<Rightarrow>
   exc + orphan_decision" where
  "decide_ec2_orphan i workers deployment account now handles grace hard_max_age =
     (if ei_managed_tag i \<noteq> Some ''true'' then Inr (Refuse, Wrong_managed_ownership)
      else if ei_deployment_tag i \<noteq> Some deployment then Inr (Refuse, Wrong_deployment)
      else if ei_account_id_tag i \<noteq> Some account then Inr (Refuse, Wrong_account)
      else if str_lower_strip (ei_state i) \<in> {''shutting-down'', ''terminated''}
      then Inr (Keep, Already_terminating)
      else case ei_launch_time i of
        None \<Rightarrow> Inr (Keep, Missing_launch_time)
      | Some launch \<Rightarrow>
          (case now of
             Naive _ \<Rightarrow> Inl (OtherError ''now must be timezone-aware'')
           | Aware t \<Rightarrow>
               (case launch of
                  Naive _ \<Rightarrow> Inl (OtherError ''instance.launch_time must be timezone-aware'')
                | Aware l \<Rightarrow> Inr (aged_decision i workers handles grace hard_max_age (t - l)))))"

subsection \<open>Properties\<close>

text \<open>The tags of the deployment's own instances.\<close>

definition owned_instance :: "ec2_instance \<Rightarrow> string \<Rightarrow> string \<Rightarrow> bool" where
  "owned_instance i deployment account \<longleftrightarrow> ei_managed_tag i = Some ''true'' \<and>
     ei_deployment_tag i = Some deployment \<and> ei_account_id_tag i = Some account"

lemma owner_decision_terminates [simp]: "fst (owner_decision w) = Terminate"
  by (auto simp: owner_decision_def split: option.splits)

lemma aged_decision_Terminate:
  "fst (aged_decision i workers handles grace hard_max_age age) = Terminate \<longleftrightarrow>
     hard_max_age \<le> age \<or>
     (grace < age \<and> \<not> (\<exists>w \<in> set workers. live_link i w) \<and>
      \<not> (or_empty (ei_trial_id_tag i) \<noteq> [] \<and> (\<exists>w \<in> set workers. unlinked_live i handles w)))"
  by (simp add: aged_decision_def not_le)

lemma aged_decision_not_Refuse: "fst (aged_decision i workers handles grace hard_max_age age) \<noteq> Refuse"
  by (simp add: aged_decision_def)

lemma ex_snd: "(\<exists>b. x = (a, b)) \<longleftrightarrow> fst x = a"
  by (cases x) simp

text \<open>
  C23. An instance is terminated exactly when it carries the deployment's tags, is not shutting
  down already, and is older than the hard limit, or older than the grace period with no live
  worker linked to it and no live worker of its trial that may still be waiting for its handle;
  one without the tags is always refused, whatever the rest of the snapshot says.
\<close>

theorem ec2_orphan_terminated_iff:
  assumes "ei_launch_time i = Some (Aware launched)"
  shows "((\<exists>d. decide_ec2_orphan i workers deployment account (Aware now) handles grace hard_max_age = Inr d \<and>
        should_terminate d) \<longleftrightarrow>
      owned_instance i deployment account \<and>
      str_lower_strip (ei_state i) \<notin> {''shutting-down'', ''terminated''} \<and>
      (hard_max_age \<le> now - launched \<or>
       (grace < now - launched \<and>
        \<not> (\<exists>w \<in> set workers. is_running w \<and> el_heartbeat_fresh w \<and> is_exact_link w i) \<and>
        \<not> (or_empty (ei_trial_id_tag i) \<noteq> [] \<and> (\<exists>w \<in> set workers. is_running w \<and> el_heartbeat_fresh w \<and>
             el_trial_id w = ei_trial_id_tag i \<and> is_unlinked_from_inventory w handles))))) \<and>
    ((\<exists>r. decide_ec2_orphan i workers deployment account (Aware now) handles grace hard_max_age = Inr (Refuse, r))
      \<longleftrightarrow> \<not> owned_instance i deployment account)"
proof (cases "owned_instance i deployment account")
  case False
  then have "\<exists>r. decide_ec2_orphan i workers deployment account (Aware now) handles grace hard_max_age = Inr (Refuse, r)"
    by (auto simp: decide_ec2_orphan_def owned_instance_def)
  with False show ?thesis by (auto simp: should_terminate_def)
next
  case True
  then have d: "decide_ec2_orphan i workers deployment account (Aware now) handles grace hard_max_age =
      (if str_lower_strip (ei_state i) \<in> {''shutting-down'', ''terminated''} then Inr (Keep, Already_terminating)
       else Inr (aged_decision i workers handles grace hard_max_age (now - launched)))"
    using assms by (simp add: decide_ec2_orphan_def owned_instance_def)
  have "aged_decision i workers handles grace hard_max_age (now - launched) \<noteq> (Refuse, r)" for r
    using aged_decision_not_Refuse by (metis fst_conv)
  with True show ?thesis
    unfolding d using aged_decision_Terminate [of i workers handles grace hard_max_age "now - launched"]
    by (simp add: should_terminate_def live_link_def unlinked_live_def ex_snd)
qed

definition sample_instance :: ec2_instance where
  "sample_instance = \<lparr>ei_instance_id = ''i-1'', ei_region = ''r'', ei_state = ''running'',
     ei_launch_time = Some (Aware 0), ei_managed_tag = Some ''true'', ei_deployment_tag = Some ''d'',
     ei_account_id_tag = Some ''a'', ei_trial_id_tag = Some ''t'', ei_worker_job_id_tag = Some ''j'',
     ei_sandbox_run_id_tag = None, ei_worker_attempt_tag = None, ei_launch_token_tag = None\<rparr>"

theorem ec2_orphan_terminated_iff_witness:
  "\<exists>d. decide_ec2_orphan sample_instance [] ''d'' ''a'' (Aware (EC2_ORPHAN_GRACE + 1)) []
     EC2_ORPHAN_GRACE EC2_HARD_MAX_AGE = Inr d \<and> should_terminate d"
proof -
  have launch: "ei_launch_time sample_instance = Some (Aware 0)" by (simp add: sample_instance_def)
  have "owned_instance sample_instance ''d'' ''a''"
    by (simp add: owned_instance_def sample_instance_def)
  moreover have "str_lower_strip (ei_state sample_instance) \<notin> {''shutting-down'', ''terminated''}" by code_simp
  moreover have "EC2_ORPHAN_GRACE < (EC2_ORPHAN_GRACE + 1) - 0" by simp
  ultimately show ?thesis
    using conjunct1 [OF ec2_orphan_terminated_iff [OF launch, of "[]" "''d''" "''a''"
      "EC2_ORPHAN_GRACE + 1" "[]" EC2_ORPHAN_GRACE EC2_HARD_MAX_AGE]] by (simp del: split_paired_Ex)
qed

end
