(* ===== verification/Queue_Cleanup.thy ===== *)
theory Queue_Cleanup
  imports Sandbox_Lifecycle Verdict_State Ec2_Orphans
begin

text \<open>
  The parts of \<open>workers/queue/cleanup.py\<close> that reconcile jobs, leases and the sandbox ledger:
  the sweep over stale heartbeats with its mirror onto the domain rows, the recovery of Thunder
  and EC2 handles, and the finalizers of runs that were never provisioned.
\<close>

subsection \<open>Constants\<close>

definition STALE_HEARTBEAT_MINUTES :: int where "STALE_HEARTBEAT_MINUTES = 15"
definition UNPROVISIONED_SANDBOX_GRACE_MINUTES :: int where "UNPROVISIONED_SANDBOX_GRACE_MINUTES = 30"

definition ORPHANED_ANALYSIS_ERROR_PREFIX :: string where
  "ORPHANED_ANALYSIS_ERROR_PREFIX = ''Analysis orphaned: ''"

abbreviation minutes :: "int \<Rightarrow> int" where "minutes n \<equiv> make_interval (60 * n)"

subsection \<open>The row of a stale job\<close>

definition stale_heartbeat :: "int \<Rightarrow> int \<Rightarrow> worker_job \<Rightarrow> bool" where
  "stale_heartbeat now mins j \<longleftrightarrow> wj_status j = RUNNING \<and>
     (case wj_heartbeat_at j of None \<Rightarrow> True | Some h \<Rightarrow> h < now - minutes mins)"

definition stall_message :: "int \<Rightarrow> worker_job \<Rightarrow> string" where
  "stall_message mins j =
     ''Worker heartbeat stalled for over '' @ string_of_int mins @
     (case wj_last_heartbeat_error j of
        None \<Rightarrow> '' minutes.''
      | Some e \<Rightarrow>
          if 0 < wj_heartbeat_failure_count j
          then '' minutes. Worker reported '' @ string_of_int (wj_heartbeat_failure_count j) @
            '' write failures; last error: '' @ e
          else '' minutes.'')"

definition reap_job :: "int \<Rightarrow> int \<Rightarrow> worker_job \<Rightarrow> worker_job" where
  "reap_job now mins j =
     (let retry = (wj_attempts j < wj_max_attempts j) in
      j\<lparr>wj_status := (if retry then RETRYING else FAILED),
        wj_payload := (if retry then wj_payload j else drop_registry_auth (wj_payload j)),
        wj_stale_reaped_at := Some now,
        wj_finished_at := (if retry then wj_finished_at j else Some now),
        wj_current_worker_id := None, wj_current_queue_slot := None, wj_modal_function_call_id := None,
        wj_error_message := Some (stall_message mins j)\<rparr>)"

subsection \<open>Mirroring it onto the domain row\<close>

datatype reap_error = Domain_row_locked | Reap_raised exc

text \<open>\<open>FOR UPDATE SKIP LOCKED\<close>, and the count that tells a locked row from a missing one.\<close>

definition locked_or_missing ::
  "(string \<Rightarrow> bool) \<Rightarrow> ('r \<Rightarrow> string) \<Rightarrow> ('r \<Rightarrow> bool) \<Rightarrow> string \<Rightarrow> 'r list \<Rightarrow> reap_error + 'r option" where
  "locked_or_missing locked key visible i rows =
     (case find (\<lambda>r. key r = i \<and> visible r) rows of
        None \<Rightarrow> Inr None
      | Some r \<Rightarrow> if locked i then Inl Domain_row_locked else Inr (Some r))"

abbreviation the_trial :: "(string \<Rightarrow> bool) \<Rightarrow> string \<Rightarrow> queue_db \<Rightarrow> reap_error + trial_row option" where
  "the_trial locked i db \<equiv> locked_or_missing locked tr_id (\<lambda>tr. tr_deleted_at tr = None) i (db_trials db)"

abbreviation the_task :: "(string \<Rightarrow> bool) \<Rightarrow> string \<Rightarrow> queue_db \<Rightarrow> reap_error + task_row option" where
  "the_task locked i db \<equiv> locked_or_missing locked tk_id (\<lambda>tk. tk_deleted_at tk = None) i (db_tasks db)"

definition trial_reaped_retrying :: "int \<Rightarrow> string option \<Rightarrow> int \<Rightarrow> trial_row \<Rightarrow> trial_row" where
  "trial_reaped_retrying now msg retry_at tr = tr\<lparr>tr_status := Trial_retrying, tr_error_message := msg,
     tr_next_retry_at := Some retry_at, tr_finished_at := None, tr_current_worker_id := None,
     tr_current_queue_slot := None, tr_stale_reaped_at := Some now\<rparr>"

definition trial_reaped_failed :: "int \<Rightarrow> string option \<Rightarrow> trial_row \<Rightarrow> trial_row" where
  "trial_reaped_failed now msg tr0 =
     (let tr = tr0\<lparr>tr_status := Trial_failed, tr_error_message := msg,
        tr_finished_at := first_set (tr_finished_at tr0) now, tr_current_worker_id := None,
        tr_current_queue_slot := None, tr_stale_reaped_at := Some now,
        tr_harbor_stage := (if tr_harbor_stage tr0 \<in> {Some ''completed'', Some ''cancelled''}
          then tr_harbor_stage tr0 else Some ''cancelled'')\<rparr>
      in if tr_analysis_status tr \<in> {Some Trial_success, Some Trial_failed} then tr
         else tr\<lparr>tr_analysis_status := Some Trial_failed,
           tr_analysis_error := Some ''Analysis skipped because the trial was cancelled during orphaned queue cleanup.'',
           tr_analysis_finished_at := Some now\<rparr>)"

definition mirror_trial ::
  "int \<Rightarrow> rat \<Rightarrow> (string \<Rightarrow> bool) \<Rightarrow> worker_job \<Rightarrow> string \<Rightarrow> queue_db \<Rightarrow> reap_error + queue_db \<times> string option" where
  "mirror_trial now jitter locked j subject db =
     bind_err (the_trial locked subject db) (\<lambda>found.
       if found = None then Inr (db, None)
       else if wj_status j = RETRYING then
         (case calculate_trial_retry_delay_seconds (wj_attempts j) (wj_error_message j) jitter None of
            Inl e \<Rightarrow> Inl (Reap_raised e)
          | Inr delay \<Rightarrow>
              let t = now + timedelta delay;
                  db1 = db\<lparr>db_jobs := update_where (\<lambda>x. wj_id x = wj_id j)
                    (\<lambda>x. x\<lparr>wj_next_retry_at := Some t, wj_available_after := t\<rparr>) (db_jobs db)\<rparr>
              in Inr (with_trial subject (trial_reaped_retrying now (wj_error_message j) t) db1, None))
       else Inr (with_trial subject (trial_reaped_failed now (wj_error_message j)) db, Some subject))"

definition mirror_analysis ::
  "int \<Rightarrow> (string \<Rightarrow> bool) \<Rightarrow> worker_job \<Rightarrow> string \<Rightarrow> queue_db \<Rightarrow> reap_error + queue_db \<times> string option" where
  "mirror_analysis now locked j subject db =
     bind_err (the_trial locked subject db) (\<lambda>found.
       if found = None then Inr (db, None)
       else Inr (with_trial subject (\<lambda>tr.
         if wj_status j = FAILED
         then tr\<lparr>tr_analysis_status := Some Trial_failed, tr_analysis_error := wj_error_message j,
                tr_analysis_finished_at := Some now\<rparr>
         else tr\<lparr>tr_analysis_status := Some Trial_queued, tr_analysis_error := wj_error_message j\<rparr>) db, None))"

text \<open>The audit of a task version: the job's payload pins the version it audits.\<close>

definition payload_get :: "worker_job \<Rightarrow> string \<Rightarrow> string option" where
  "payload_get j k = map_of (wj_payload j) k"

definition version_reaped :: "int \<Rightarrow> worker_job \<Rightarrow> task_version_row \<Rightarrow> task_version_row" where
  "version_reaped now j v =
     (if tv_pre_trial_status v \<notin> {Some Trial_pending, Some Trial_queued, Some Trial_running} then v
      else if wj_status j = FAILED
      then v\<lparr>tv_pre_trial_status := Some Trial_failed, tv_pre_trial_finished_at := Some now,
             tv_pre_trial_error := wj_error_message j\<rparr>
      else v\<lparr>tv_pre_trial_status := Some Trial_queued, tv_pre_trial_error := wj_error_message j\<rparr>)"

definition mirror_audit ::
  "int \<Rightarrow> (string \<Rightarrow> bool) \<Rightarrow> worker_job \<Rightarrow> string \<Rightarrow> queue_db \<Rightarrow> reap_error + queue_db \<times> string option" where
  "mirror_audit now locked j subject db =
     bind_err (the_task locked subject db) (\<lambda>found.
       case found of
         None \<Rightarrow> Inr (db, None)
       | Some task \<Rightarrow>
           (case (case truthy (payload_get j ''task_version_id'') of
                Some v \<Rightarrow> Some v | None \<Rightarrow> truthy (tk_current_version_id task)) of
              None \<Rightarrow> Inr (db, None)
            | Some version_id \<Rightarrow>
                Inr (db\<lparr>db_versions := update_where (\<lambda>v. tv_id v = version_id \<and>
                    (payload_get j ''task_version_content_hash'' = None \<or>
                     tv_content_hash v = payload_get j ''task_version_content_hash''))
                  (version_reaped now j) (db_versions db)\<rparr>, None)))"

definition analysis_orphaned :: "int \<Rightarrow> string option \<Rightarrow> trial_row \<Rightarrow> trial_row" where
  "analysis_orphaned now msg tr = tr\<lparr>tr_analysis_status := Some Trial_failed,
     tr_analysis_error := Some (ORPHANED_ANALYSIS_ERROR_PREFIX @ (case truthy msg of
       Some m \<Rightarrow> m | None \<Rightarrow> ''task QA job failed before classifying this trial.'')),
     tr_analysis_finished_at := Some now\<rparr>"

definition mirror_qa ::
  "int \<Rightarrow> (string \<Rightarrow> bool) \<Rightarrow> worker_job \<Rightarrow> string \<Rightarrow> queue_db \<Rightarrow> reap_error + queue_db \<times> string option" where
  "mirror_qa now locked j subject db =
     bind_err (the_task locked subject db) (\<lambda>found.
       if found = None then Inr (db, None)
       else if wj_status j = FAILED then
         (let db1 = with_task subject (fail_verdict (or_empty (wj_error_message j)) now) db in
          Inr (db1\<lparr>db_trials := update_where (\<lambda>tr. tr_task_id tr = subject \<and> tr_deleted_at tr = None \<and>
                 tr_analysis_status tr \<in> {Some Trial_pending, Some Trial_queued, Some Trial_running} \<and>
                 \<not> locked (tr_id tr)) (analysis_orphaned now (wj_error_message j)) (db_trials db1)\<rparr>, None))
       else Inr (with_task subject (\<lambda>tk. (queue_verdict tk)\<lparr>tk_verdict_error := wj_error_message j\<rparr>) db, None))"

definition mirror_stale_job ::
  "int \<Rightarrow> rat \<Rightarrow> (string \<Rightarrow> bool) \<Rightarrow> worker_job \<Rightarrow> queue_db \<Rightarrow> reap_error + queue_db \<times> string option" where
  "mirror_stale_job now jitter locked j db =
     (case truthy (wj_subject_id j) of
        None \<Rightarrow> Inr (db, None)
      | Some subject \<Rightarrow>
          (case wj_kind j of
             Kind_trial \<Rightarrow> mirror_trial now jitter locked j subject db
           | Kind_analysis \<Rightarrow> mirror_analysis now locked j subject db
           | Kind_qa \<Rightarrow> if payload_get j ''mode'' = Some ''pre_trial'' then mirror_audit now locked j subject db
               else mirror_qa now locked j subject db
           | _ \<Rightarrow> Inr (db, None)))"

subsection \<open>The sweep\<close>

text \<open>One job in its savepoint: nothing, or the reaped row and the trial that failed for good.\<close>

definition reap_one ::
  "int \<Rightarrow> (string \<Rightarrow> rat) \<Rightarrow> (string \<Rightarrow> bool) \<Rightarrow> int \<Rightarrow> string \<Rightarrow> queue_db \<Rightarrow>
   reap_error + queue_db \<times> (worker_job \<times> string option) option" where
  "reap_one now jitter locked mins i db =
     (case find (\<lambda>j. wj_id j = i \<and> stale_heartbeat now mins j) (db_jobs db) of
        None \<Rightarrow> Inr (db, None)
      | Some j \<Rightarrow>
          let db1 = db\<lparr>db_jobs := update_where (\<lambda>j. wj_id j = i \<and> stale_heartbeat now mins j)
                (reap_job now mins) (db_jobs db)\<rparr>
          in bind_err (mirror_stale_job now (jitter i) locked (reap_job now mins j) db1)
               (\<lambda>(db2, trial). Inr (db2, Some (reap_job now mins j, trial))))"

text \<open>The retry starts without the handle of the attempt that died.\<close>

definition unlink_retry :: "worker_job \<Rightarrow> queue_db \<Rightarrow> queue_db" where
  "unlink_retry j db =
     (if wj_status j = RETRYING \<and> truthy (wj_external_id j) \<noteq> None
      then db\<lparr>db_jobs := update_where (\<lambda>x. wj_id x = wj_id j)
             (\<lambda>x. x\<lparr>wj_external_id := None, wj_provider := None\<rparr>) (db_jobs db)\<rparr>
      else db)"

record reap_result =
  rp_retried :: nat
  rp_failed :: nat
  rp_trials :: "string list"
  rp_targets :: "(string \<times> string) list"

definition reap_note :: "worker_job \<times> string option \<Rightarrow> reap_result \<Rightarrow> reap_result" where
  "reap_note jt r = (let (j, trial) = jt in
     r\<lparr>rp_retried := rp_retried r + (if wj_status j = RETRYING then 1 else 0),
       rp_failed := rp_failed r + (if wj_status j = RETRYING then 0 else 1),
       rp_targets := (case (truthy (wj_provider j), truthy (wj_external_id j)) of
           (Some p, Some x) \<Rightarrow> List.insert (p, x) (rp_targets r) | _ \<Rightarrow> rp_targets r),
       rp_trials := (case trial of None \<Rightarrow> rp_trials r | Some t \<Rightarrow> rp_trials r @ [t])\<rparr>)"

fun reap_loop ::
  "int \<Rightarrow> (string \<Rightarrow> rat) \<Rightarrow> (string \<Rightarrow> bool) \<Rightarrow> int \<Rightarrow> string list \<Rightarrow> queue_db \<Rightarrow> reap_result \<Rightarrow>
   exc + queue_db \<times> reap_result" where
  "reap_loop now jitter locked mins [] db r = Inr (db, r)"
| "reap_loop now jitter locked mins (i # is) db r =
     (case reap_one now jitter locked mins i db of
        Inl Domain_row_locked \<Rightarrow> reap_loop now jitter locked mins is db r
      | Inl (Reap_raised e) \<Rightarrow> Inl e
      | Inr (db', None) \<Rightarrow> reap_loop now jitter locked mins is db' r
      | Inr (db', Some jt) \<Rightarrow>
          reap_loop now jitter locked mins is (unlink_retry (fst jt) db') (reap_note jt r))"

definition reap_stale_worker_jobs ::
  "int \<Rightarrow> (string \<Rightarrow> rat) \<Rightarrow> (string \<Rightarrow> bool) \<Rightarrow> int \<Rightarrow> queue_db \<Rightarrow> exc + queue_db \<times> reap_result" where
  "reap_stale_worker_jobs now jitter locked mins db =
     reap_loop now jitter locked mins (sort (map wj_id (filter (stale_heartbeat now mins) (db_jobs db)))) db
       \<lparr>rp_retried = 0, rp_failed = 0, rp_trials = [], rp_targets = []\<rparr>"

subsection \<open>Thunder: handles, handoffs and runs that never came up\<close>

definition run_owner_live :: "worker_job list \<Rightarrow> sandbox_run \<Rightarrow> bool" where
  "run_owner_live jobs run \<longleftrightarrow> (\<exists>j \<in> set jobs. wj_id j = sr_worker_job_id run \<and> wj_status j = RUNNING \<and>
     wj_attempts j = sr_worker_job_attempt run)"

text \<open>The \<open>LEFT JOIN\<close>: a run whose job is gone is an orphan, too.\<close>

definition orphaned_thunder_run :: "worker_job list \<Rightarrow> sandbox_run \<Rightarrow> bool" where
  "orphaned_thunder_run jobs run \<longleftrightarrow> sr_provider run = ''thunder'' \<and> sr_deleted_at run = None \<and>
     sr_terminated_at run = None \<and> sr_external_id run \<noteq> None \<and> sr_state run \<noteq> TERMINATED \<and>
     (sr_state run = TERMINATING \<or> \<not> run_owner_live jobs run)"

definition find_orphaned_thunder_sandbox_runs :: "queue_db \<Rightarrow> (string \<times> string) list" where
  "find_orphaned_thunder_sandbox_runs db =
     map (\<lambda>r. (sr_id r, or_empty (sr_external_id r)))
       (sort_key sr_id (filter (orphaned_thunder_run (db_jobs db)) (db_runs db)))"

definition pending_handoff :: "worker_job \<times> trial_row \<times> sandbox_run \<Rightarrow> bool" where
  "pending_handoff row \<longleftrightarrow> (case row of (j, tr, run) \<Rightarrow>
     wj_subject_id j = Some (tr_id tr) \<and> wj_subject_table j = Some ''trials'' \<and>
     sr_worker_job_id run = wj_id j \<and> sr_worker_job_attempt run = wj_attempts j \<and>
     wj_kind j = Kind_trial \<and> wj_status j = RETRYING \<and> wj_execution_lane j = ''default'' \<and>
     wj_reroute_from_environment j = Some ''thunder'' \<and>
     wj_reroute_reason j = Some THUNDER_CAPACITY_UNAVAILABLE_CODE \<and> wj_reroute_pending_teardown j \<and>
     wj_provider j = Some ''thunder'' \<and> wj_external_id j \<noteq> None \<and> wj_external_id j = sr_external_id run \<and>
     tr_status tr = Trial_retrying \<and>
     (case tr_environment tr of None \<Rightarrow> False | Some e \<Rightarrow> str_lower e \<noteq> ''thunder'') \<and>
     tr_deleted_at tr = None \<and> tr_superseded_by_trial_id tr = None \<and>
     sr_provider run = ''thunder'' \<and> sr_state run = TERMINATED \<and> sr_terminated_at run \<noteq> None \<and>
     sr_deleted_at run = None)"

definition pending_handoffs :: "(string \<Rightarrow> bool) \<Rightarrow> queue_db \<Rightarrow> (worker_job \<times> trial_row \<times> sandbox_run) list" where
  "pending_handoffs skip db =
     filter (\<lambda>row. pending_handoff row \<and> \<not> skip (wj_id (fst row)))
       (List.product (sort_key wj_id (db_jobs db)) (List.product (db_trials db) (db_runs db)))"

definition handoff_job :: "string \<Rightarrow> worker_job \<Rightarrow> bool" where
  "handoff_job i j \<longleftrightarrow> wj_id j = i \<and> wj_status j = RETRYING \<and> wj_reroute_pending_teardown j"

definition release_handoff :: "int \<Rightarrow> worker_job \<Rightarrow> worker_job" where
  "release_handoff now j = j\<lparr>wj_reroute_pending_teardown := False, wj_provider := None,
     wj_external_id := None, wj_available_after := now, wj_next_retry_at := None\<rparr>"

definition complete_handoff ::
  "int \<Rightarrow> worker_job \<times> trial_row \<times> sandbox_run \<Rightarrow> queue_db \<times> (string \<times> string \<times> string) list \<Rightarrow>
   queue_db \<times> (string \<times> string \<times> string) list" where
  "complete_handoff now row acc =
     (let (db, completed) = acc; i = wj_id (fst row); tr = fst (snd row) in
      if length (filter (handoff_job i) (db_jobs db)) \<noteq> 1 then (db, completed)
      else (db\<lparr>db_jobs := update_where (handoff_job i) (release_handoff now) (db_jobs db),
               db_leases := update_where (\<lambda>l. cl_provider l = ''thunder'' \<and> cl_worker_job_id l = Some i \<and>
                 \<not> sandbox_may_exist (db_runs db) l) unlock_lease (db_leases db)\<rparr>,
            completed @ [(i, tr_id tr, or_empty (tr_environment tr))]))"

definition complete_pending_thunder_capacity_handoffs ::
  "int \<Rightarrow> (string \<Rightarrow> bool) \<Rightarrow> queue_db \<Rightarrow> queue_db \<times> (string \<times> string \<times> string) list" where
  "complete_pending_thunder_capacity_handoffs now skip db =
     fold (complete_handoff now) (pending_handoffs skip db) (db, [])"

record thunder_snapshot =
  ts_external_id :: string
  ts_name :: string

definition recoverable_run :: "string \<Rightarrow> sandbox_run \<Rightarrow> bool" where
  "recoverable_run name run \<longleftrightarrow> sr_id run = name \<and> sr_provider run = ''thunder'' \<and>
     sr_deleted_at run = None \<and> sr_terminated_at run = None \<and> sr_external_id run = None \<and>
     sr_state run \<in> {PROVISIONING, TERMINATING}"

definition recover_run :: "int \<Rightarrow> string \<Rightarrow> bool \<Rightarrow> sandbox_run \<Rightarrow> sandbox_run" where
  "recover_run now x live run =
     (persist_handle now x run)\<lparr>sr_state := (if live then Run_running else TERMINATING),
       sr_termination_requested_at := (if live then sr_termination_requested_at run
         else first_set (sr_termination_requested_at run) now)\<rparr>"

definition recover_thunder_handle :: "int \<Rightarrow> thunder_snapshot \<Rightarrow> queue_db \<times> nat \<Rightarrow> queue_db \<times> nat" where
  "recover_thunder_handle now snap acc =
     (let (db, n) = acc; x = ts_external_id snap in
      case find (recoverable_run (ts_name snap)) (db_runs db) of
        None \<Rightarrow> (db, n)
      | Some run \<Rightarrow>
          let live = run_owner_live (db_jobs db) run;
              db1 = db\<lparr>db_runs := update_where (recoverable_run (ts_name snap)) (recover_run now x live) (db_runs db)\<rparr>
          in (if live
              then db1\<lparr>db_jobs := update_where (\<lambda>j. wj_id j = sr_worker_job_id run \<and> wj_status j = RUNNING \<and>
                     wj_attempts j = sr_worker_job_attempt run)
                   (\<lambda>j. j\<lparr>wj_provider := Some ''thunder'', wj_external_id := Some x\<rparr>) (db_jobs db1)\<rparr>
              else db1, n + 1))"

definition recover_thunder_inventory_handles ::
  "int \<Rightarrow> thunder_snapshot list \<Rightarrow> queue_db \<Rightarrow> queue_db \<times> nat" where
  "recover_thunder_inventory_handles now inventory db =
     fold (recover_thunder_handle now) (sort_key (\<lambda>s. (ts_name s, ts_external_id s)) inventory) (db, 0)"

text \<open>
  A finalized run: \<open>updated_at\<close>, which the ORM maintains, is the argument \<open>touched\<close>.
\<close>

definition finalized_run :: "int \<Rightarrow> string \<Rightarrow> sandbox_run \<Rightarrow> sandbox_run" where
  "finalized_run now msg run = run\<lparr>sr_state := TERMINATED,
     sr_termination_requested_at := first_set (sr_termination_requested_at run) now,
     sr_terminated_at := Some now,
     sr_last_error := (case sr_last_error run of None \<Rightarrow> Some msg | Some e \<Rightarrow> Some e)\<rparr>"

definition unprovisioned_run :: "string \<Rightarrow> (sandbox_run \<Rightarrow> int) \<Rightarrow> int \<Rightarrow> int \<Rightarrow> sandbox_run \<Rightarrow> bool" where
  "unprovisioned_run provider touched now grace run \<longleftrightarrow> sr_provider run = provider \<and>
     sr_deleted_at run = None \<and> sr_state run \<in> {PROVISIONING, TERMINATING} \<and>
     sr_external_id run = None \<and> sr_terminated_at run = None \<and>
     (case sr_termination_requested_at run of None \<Rightarrow> touched run | Some t \<Rightarrow> t) \<le> now - minutes grace"

definition finalizable_thunder_run ::
  "(sandbox_run \<Rightarrow> int) \<Rightarrow> int \<Rightarrow> int \<Rightarrow> thunder_snapshot list \<Rightarrow> worker_job list \<Rightarrow> sandbox_run \<Rightarrow> bool" where
  "finalizable_thunder_run touched now grace inventory jobs run \<longleftrightarrow>
     unprovisioned_run ''thunder'' touched now grace run \<and> \<not> run_owner_live jobs run \<and>
     sr_id run \<notin> ts_name ` set inventory"

definition finalize_unprovisioned_thunder_runs ::
  "(sandbox_run \<Rightarrow> int) \<Rightarrow> int \<Rightarrow> int \<Rightarrow> thunder_snapshot list \<Rightarrow> queue_db \<Rightarrow> queue_db \<times> nat" where
  "finalize_unprovisioned_thunder_runs touched now grace inventory db =
     (let P = finalizable_thunder_run touched now grace inventory (db_jobs db) in
      (db\<lparr>db_runs := update_where P (finalized_run now
            ''No named Thunder sandbox appeared before the inventory grace expired.'') (db_runs db)\<rparr>,
       length (filter P (db_runs db))))"

subsection \<open>EC2: orphans and runs that never came up\<close>

definition attempt_tag :: "string \<Rightarrow> string \<Rightarrow> string" where
  "attempt_tag job attempt = job @ '':'' @ attempt"

definition finalizable_ec2_run ::
  "(sandbox_run \<Rightarrow> int) \<Rightarrow> int \<Rightarrow> int \<Rightarrow> ec2_instance list \<Rightarrow> worker_job list \<Rightarrow> sandbox_run \<Rightarrow> bool" where
  "finalizable_ec2_run touched now grace inventory jobs run \<longleftrightarrow>
     unprovisioned_run ''ec2'' touched now grace run \<and>
     \<not> (\<exists>j \<in> set jobs. wj_id j = sr_worker_job_id run \<and> wj_status j = RUNNING) \<and>
     \<not> (\<exists>i \<in> set inventory. truthy (ei_sandbox_run_id_tag i) = Some (sr_id run)) \<and>
     \<not> (\<exists>i \<in> set inventory. truthy (ei_launch_token_tag i) = Some (sr_launch_token run)) \<and>
     \<not> (\<exists>i \<in> set inventory. case (truthy (ei_worker_job_id_tag i), truthy (ei_worker_attempt_tag i)) of
          (Some job, Some attempt) \<Rightarrow> attempt_tag job attempt =
            attempt_tag (sr_worker_job_id run) (string_of_int (sr_worker_job_attempt run))
        | _ \<Rightarrow> False)"

definition finalize_unprovisioned_sandbox_runs ::
  "(sandbox_run \<Rightarrow> int) \<Rightarrow> int \<Rightarrow> int \<Rightarrow> ec2_instance list \<Rightarrow> queue_db \<Rightarrow> queue_db \<times> nat" where
  "finalize_unprovisioned_sandbox_runs touched now grace inventory db =
     (let P = finalizable_ec2_run touched now grace inventory (db_jobs db) in
      (db\<lparr>db_runs := update_where P (finalized_run now
            ''No provider instance appeared before the inventory grace expired.'') (db_runs db)\<rparr>,
       length (filter P (db_runs db))))"

text \<open>\<open>int(text)\<close> of the standard library: blanks around, a sign, single underscores between digits.\<close>

fun py_digits :: "bool \<Rightarrow> nat \<Rightarrow> string \<Rightarrow> nat option" where
  "py_digits seen acc [] = (if seen then Some acc else None)"
| "py_digits seen acc (c # cs) =
     (if digit c then py_digits True (10 * acc + (of_char c - 48)) cs
      else if c = CHR ''_'' \<and> seen \<and> cs \<noteq> [] then py_digits False acc cs
      else None)"

definition py_int :: "string \<Rightarrow> int option" where
  "py_int s = (case str_strip s of
       [] \<Rightarrow> None
     | c # cs \<Rightarrow>
         if c = CHR ''-'' then map_option (\<lambda>n. - int n) (py_digits False 0 cs)
         else if c = CHR ''+'' then map_option int (py_digits False 0 cs)
         else map_option int (py_digits False 0 (c # cs)))"

definition worker_liveness :: "int \<Rightarrow> int \<Rightarrow> worker_job \<Rightarrow> ec2_worker_liveness" where
  "worker_liveness now mins j = \<lparr>el_worker_job_id = wj_id j, el_trial_id = truthy (wj_subject_id j),
     el_status = status_value (wj_status j),
     el_provider = truthy (wj_provider j), el_external_id = truthy (wj_external_id j),
     el_heartbeat_fresh = (case wj_heartbeat_at j of None \<Rightarrow> False | Some h \<Rightarrow> now - minutes mins \<le> h)\<rparr>"

definition orphan_worker :: "ec2_instance list \<Rightarrow> worker_job \<Rightarrow> bool" where
  "orphan_worker snapshots j \<longleftrightarrow> wj_deleted_at j = None \<and> wj_kind j = Kind_trial \<and>
     wj_subject_table j = Some ''trials'' \<and>
     ((\<exists>i \<in> set snapshots. truthy (ei_worker_job_id_tag i) = Some (wj_id j)) \<or>
      (\<exists>i \<in> set snapshots. truthy (ei_trial_id_tag i) \<noteq> None \<and> truthy (ei_trial_id_tag i) = wj_subject_id j) \<or>
      wj_provider j = Some ''ec2'' \<and>
      (\<exists>i \<in> set snapshots. truthy (ei_account_id_tag i) \<noteq> None \<and> wj_external_id j = Some (ec2_external_id i)))"

definition ledger_matches :: "string \<Rightarrow> string \<Rightarrow> ec2_instance \<Rightarrow> sandbox_run \<Rightarrow> bool" where
  "ledger_matches deployment account i run \<longleftrightarrow> str_lower (sr_provider run) = ''ec2'' \<and>
     sr_deployment run = deployment \<and> sr_aws_account_id run = account \<and> sr_region run = ei_region i \<and>
     Some (sr_worker_job_id run) = ei_worker_job_id_tag i \<and>
     sr_worker_job_attempt run = (case py_int (or_empty (ei_worker_attempt_tag i)) of None \<Rightarrow> - 1 | Some n \<Rightarrow> n) \<and>
     Some (sr_trial_id run) = ei_trial_id_tag i \<and> Some (sr_launch_token run) = ei_launch_token_tag i \<and>
     (sr_external_id run = None \<or> sr_external_id run = Some (ec2_external_id i))"

definition tagged_ledger :: "sandbox_run list \<Rightarrow> ec2_instance \<Rightarrow> sandbox_run option" where
  "tagged_ledger runs i =
     (case truthy (ei_sandbox_run_id_tag i) of None \<Rightarrow> None
      | Some tag \<Rightarrow> find (\<lambda>r. sr_deleted_at r = None \<and> sr_id r = tag) runs)"

definition mark_ec2_orphan :: "int \<Rightarrow> string \<Rightarrow> sandbox_run \<Rightarrow> sandbox_run" where
  "mark_ec2_orphan now x run = run\<lparr>sr_external_id := Some x, sr_state := TERMINATING,
     sr_termination_requested_at := first_set (sr_termination_requested_at run) now\<rparr>"

text \<open>
  One instance of the inventory: \<open>ledger\<close> and \<open>workers\<close> were read before the loop. The result is
  the ledger, the teardown targets and the number of instances kept.
\<close>

definition ec2_orphan_target ::
  "string \<Rightarrow> string \<Rightarrow> int \<Rightarrow> sandbox_run list \<Rightarrow> ec2_worker_liveness list \<Rightarrow> string list \<Rightarrow> ec2_instance \<Rightarrow>
   sandbox_run list \<times> (string \<times> string) list \<times> nat \<Rightarrow>
   exc + sandbox_run list \<times> (string \<times> string) list \<times> nat" where
  "ec2_orphan_target deployment account now ledger workers handles i acc =
     (let (runs, targets, kept) = acc; x = ec2_external_id i in
      case tagged_ledger ledger i of
        None \<Rightarrow> Inr acc
      | Some run \<Rightarrow>
          if \<not> ledger_matches deployment account i run then Inr acc
          else bind_err (decide_ec2_orphan i workers deployment account (Aware now) handles
                 EC2_ORPHAN_GRACE EC2_HARD_MAX_AGE) (\<lambda>d.
            let teardown = (sr_state run = TERMINATING \<or> sr_state run = TERMINATED);
                kept' = (if fst d = Keep \<and> \<not> teardown then kept + 1 else kept)
            in if should_terminate d \<or> teardown
               then Inr (if sr_external_id run = None
                         then update_where (\<lambda>r. sr_id r = sr_id run \<and> sr_external_id r = None)
                                (mark_ec2_orphan now x) runs
                         else runs,
                         List.insert (''ec2'', x) targets, kept')
               else Inr (runs, targets, kept')))"

fun ec2_orphan_loop ::
  "string \<Rightarrow> string \<Rightarrow> int \<Rightarrow> sandbox_run list \<Rightarrow> ec2_worker_liveness list \<Rightarrow> string list \<Rightarrow> ec2_instance list \<Rightarrow>
   sandbox_run list \<times> (string \<times> string) list \<times> nat \<Rightarrow>
   exc + sandbox_run list \<times> (string \<times> string) list \<times> nat" where
  "ec2_orphan_loop deployment account now ledger workers handles [] acc = Inr acc"
| "ec2_orphan_loop deployment account now ledger workers handles (i # is) acc =
     bind_err (ec2_orphan_target deployment account now ledger workers handles i acc)
       (ec2_orphan_loop deployment account now ledger workers handles is)"

definition decide_ec2_orphan_targets ::
  "ec2_instance list \<Rightarrow> string \<Rightarrow> string \<Rightarrow> int \<Rightarrow> int \<Rightarrow> queue_db \<Rightarrow>
   exc + queue_db \<times> (string \<times> string) list \<times> nat" where
  "decide_ec2_orphan_targets snapshots deployment account now mins db =
     bind_err (ec2_orphan_loop deployment account now (db_runs db)
         (map (worker_liveness now mins) (filter (orphan_worker snapshots) (db_jobs db)))
         (map ec2_external_id snapshots) snapshots (db_runs db, [], 0))
       (\<lambda>(runs, targets, kept). Inr (db\<lparr>db_runs := runs\<rparr>, targets, kept))"

end
