(* ===== verification/Queue_Keys.thy ===== *)
theory Queue_Keys
  imports Oddish_Prelude
begin

text \<open>
  The names of queues: \<open>normalize_queue_key\<close> of \<open>config.py\<close>, which turns whatever a caller writes
  for a model into the key of its queue, with the mapping of Claude models to Bedrock ids it rests
  on. Two calls leave the repository and are parameters: \<open>split\<close>, Harbor's
  \<open>split_provider_model_name\<close>, and \<open>litellm\<close>, the provider that \<open>get_llm_provider\<close> knows for a
  model (\<open>None\<close> also when it raises).
\<close>

subsection \<open>Baseline agents\<close>

definition ORACLE_AGENT_PREFIXES :: "string list" where
  "ORACLE_AGENT_PREFIXES = [''oracle-'', ''agent-oracle'']"

definition NOP_AGENT_PREFIXES :: "string list" where
  "NOP_AGENT_PREFIXES = [''nop-'', ''agent-nop'']"

definition NOP_ORACLE_QUEUE_KEY :: string where
  "NOP_ORACLE_QUEUE_KEY = ''nop_oracle''"

definition normalized_agent :: "string option \<Rightarrow> string" where
  "normalized_agent agent = str_lower_strip (case agent of None \<Rightarrow> [] | Some a \<Rightarrow> a)"

definition is_nop_oracle_agent :: "string option \<Rightarrow> bool" where
  "is_nop_oracle_agent agent =
     (let n = normalized_agent agent in
      if n = [] then False
      else if n \<in> {''nop'', ''oracle''} then True
      else starts_with (NOP_AGENT_PREFIXES @ ORACLE_AGENT_PREFIXES) n)"

definition nop_oracle_kind :: "string option \<Rightarrow> string option" where
  "nop_oracle_kind agent =
     (let n = normalized_agent agent in
      if n = [] then None
      else if n = ''oracle'' \<or> starts_with ORACLE_AGENT_PREFIXES n then Some ''oracle''
      else if n = ''nop'' \<or> starts_with NOP_AGENT_PREFIXES n then Some ''nop''
      else None)"

subsection \<open>Constants\<close>

definition MODEL_ABSENT_ALIASES :: "string set" where
  "MODEL_ABSENT_ALIASES = {'''', ''-'', ''none'', ''null'', ''nil'', ''n/a'', ''na'', ''default''}"

definition PROVIDER_ONLY_QUEUE_ALIASES :: "string set" where
  "PROVIDER_ONLY_QUEUE_ALIASES = {''openai'', ''anthropic'', ''claude'', ''google'', ''gemini'', ''default''}"

definition BEDROCK_REGION_PREFIXES :: "string list" where
  "BEDROCK_REGION_PREFIXES = [''us.'', ''eu.'', ''apac.'', ''apn.'', ''global.'']"

definition ANTHROPIC_TO_BEDROCK_MODEL_IDS :: "(string, string) dict" where
  "ANTHROPIC_TO_BEDROCK_MODEL_IDS =
     [(''claude-fable-5'', ''global.anthropic.claude-fable-5''),
      (''claude-opus-5'', ''global.anthropic.claude-opus-5''),
      (''claude-opus-4-8'', ''global.anthropic.claude-opus-4-8''),
      (''claude-sonnet-5'', ''global.anthropic.claude-sonnet-5''),
      (''claude-sonnet-4-6'', ''global.anthropic.claude-sonnet-4-6''),
      (''claude-haiku-4-5'', ''global.anthropic.claude-haiku-4-5-20251001-v1:0''),
      (''claude-haiku-4-5-20251001'', ''global.anthropic.claude-haiku-4-5-20251001-v1:0''),
      (''claude-opus-4-7'', ''global.anthropic.claude-opus-4-7''),
      (''claude-opus-4-6'', ''global.anthropic.claude-opus-4-6-v1''),
      (''claude-sonnet-4-5'', ''global.anthropic.claude-sonnet-4-5-20250929-v1:0''),
      (''claude-sonnet-4-5-20250929'', ''global.anthropic.claude-sonnet-4-5-20250929-v1:0''),
      (''claude-opus-4-5'', ''global.anthropic.claude-opus-4-5-20251101-v1:0''),
      (''claude-opus-4-5-20251101'', ''global.anthropic.claude-opus-4-5-20251101-v1:0''),
      (''claude-opus-4-1'', ''us.anthropic.claude-opus-4-1-20250805-v1:0''),
      (''claude-opus-4-1-20250805'', ''us.anthropic.claude-opus-4-1-20250805-v1:0''),
      (''claude-sonnet-4-0'', ''global.anthropic.claude-sonnet-4-20250514-v1:0''),
      (''claude-sonnet-4-20250514'', ''global.anthropic.claude-sonnet-4-20250514-v1:0''),
      (''claude-opus-4-0'', ''us.anthropic.claude-opus-4-20250514-v1:0''),
      (''claude-opus-4-20250514'', ''us.anthropic.claude-opus-4-20250514-v1:0'')]"

subsection \<open>Bedrock ids\<close>

text \<open>\<open>s.split("/", 1)[-1]\<close>, and \<open>[0]\<close>.\<close>

definition after_slash :: "string \<Rightarrow> string" where
  "after_slash s = (if CHR ''/'' \<in> set s then tl (dropWhile (\<lambda>c. c \<noteq> CHR ''/'') s) else s)"

definition before_slash :: "string \<Rightarrow> string" where
  "before_slash s = takeWhile (\<lambda>c. c \<noteq> CHR ''/'') s"

definition invokable_id :: "string \<Rightarrow> bool" where
  "invokable_id s \<longleftrightarrow> starts_with [''arn:aws:bedrock:''] s \<or>
     starts_with BEDROCK_REGION_PREFIXES s \<and> has_substring ''.anthropic.'' s"

definition looks_like_bedrock_model_id :: "string option \<Rightarrow> bool" where
  "looks_like_bedrock_model_id model =
     (case model of
        None \<Rightarrow> False
      | Some m \<Rightarrow>
          (let tail = str_lower (str_strip (after_slash m)) in
           m \<noteq> [] \<and> tail \<noteq> [] \<and> (invokable_id tail \<or> starts_with [''anthropic.''] tail)))"

definition drop_suffix :: "string \<Rightarrow> string \<Rightarrow> string option" where
  "drop_suffix suffix s =
     (if length suffix \<le> length s \<and> drop (length s - length suffix) s = suffix
      then Some (take (length s - length suffix) s) else None)"

definition bedrock_table_key :: "string \<Rightarrow> string" where
  "bedrock_table_key key =
     replace_char (CHR ''.'') (CHR ''-'')
       (if starts_with [''anthropic.''] key
        then let k = drop (length ''anthropic.'') key in
          (case drop_suffix ''-v1:0'' k of
             Some k' \<Rightarrow> k'
           | None \<Rightarrow> (case drop_suffix ''-v1'' k of Some k' \<Rightarrow> k' | None \<Rightarrow> k))
        else key)"

definition to_bedrock_model_id ::
  "(string \<Rightarrow> string option \<times> string) \<Rightarrow> string option \<Rightarrow> exc + string option" where
  "to_bedrock_model_id split model =
     (case model of
        None \<Rightarrow> Inr None
      | Some m \<Rightarrow>
          (if str_strip m = [] then Inr (Some m)
           else
             let stripped = (if starts_with [''bedrock/''] (str_lower (str_strip m))
                   then after_slash (str_strip m) else str_strip m);
                 prefix = (case fst (split stripped) of None \<Rightarrow> [] | Some p \<Rightarrow> p);
                 key = str_lower (str_strip (after_slash stripped))
             in if invokable_id (str_lower stripped) then Inr (Some stripped)
                else if prefix \<noteq> [] \<and> str_lower_strip prefix \<notin> {''anthropic'', ''claude''} then Inr (Some stripped)
                else if \<not> has_substring ''claude'' key then Inr (Some stripped)
                else (case map_of ANTHROPIC_TO_BEDROCK_MODEL_IDS (bedrock_table_key key) of
                        Some bedrock_id \<Rightarrow> Inr (Some bedrock_id)
                      | None \<Rightarrow> Inl (OtherError (''No Bedrock model id mapping for Claude model '' @ repr_opt (Some m) @
                          ''. oddish runs Claude through AWS Bedrock only '' @ [CHR 0x2D] @
                          '' add an entry to _ANTHROPIC_TO_BEDROCK_MODEL_IDS in oddish.config.'')))))"

definition to_bedrock_model_id_if_known :: "(string \<Rightarrow> string option \<times> string) \<Rightarrow> string \<Rightarrow> string" where
  "to_bedrock_model_id_if_known split model =
     (case to_bedrock_model_id split (Some model) of
        Inl e \<Rightarrow> model
      | Inr None \<Rightarrow> model
      | Inr (Some b) \<Rightarrow> if b = [] then model else b)"

subsection \<open>Providers of bare models\<close>

definition bare_model_provider :: "string \<Rightarrow> string option" where
  "bare_model_provider lowered =
     (if starts_with [''gpt-'', ''o1'', ''o3'', ''o4'', ''chatgpt-'', ''text-embedding-''] lowered then Some ''openai''
      else if starts_with [''claude''] lowered then Some ''anthropic''
      else if starts_with [''gemini''] lowered then Some ''google''
      else if starts_with [''glm''] lowered then Some ''zai''
      else if starts_with [''minimax''] lowered then Some ''minimax''
      else if starts_with [''kimi-''] lowered then Some ''moonshot''
      else if starts_with [''grok-''] lowered then Some ''xai''
      else if starts_with [''deepseek-''] lowered then Some ''deepseek''
      else None)"

definition or_none :: "string \<Rightarrow> string option" where
  "or_none s = (if s = [] then None else Some s)"

definition infer_provider_prefix ::
  "(string \<Rightarrow> string option \<times> string) \<Rightarrow> (string \<Rightarrow> string option) \<Rightarrow> string \<Rightarrow> bool \<Rightarrow> string option" where
  "infer_provider_prefix split litellm model_name allow_bare_heuristics =
     (let prefix = (case fst (split model_name) of None \<Rightarrow> [] | Some p \<Rightarrow> p);
          known = (case litellm model_name of None \<Rightarrow> [] | Some p \<Rightarrow> p)
      in if prefix \<noteq> [] then or_none (str_lower_strip prefix)
         else if known \<noteq> [] then or_none (str_lower_strip known)
         else if \<not> allow_bare_heuristics then None
         else bare_model_provider (str_lower_strip model_name))"

subsection \<open>The key\<close>

definition trimmed_key :: "string \<Rightarrow> string" where
  "trimmed_key model = replace_char (CHR '' '') (CHR ''_'') (str_lower (str_strip model))"

definition normalize_queue_key ::
  "(string \<Rightarrow> string option \<times> string) \<Rightarrow> (string \<Rightarrow> string option) \<Rightarrow> string \<Rightarrow> string" where
  "normalize_queue_key split litellm model =
     (let given = trimmed_key model in
      if given = [] \<or> given \<in> MODEL_ABSENT_ALIASES then ''default''
      else if given \<in> PROVIDER_ONLY_QUEUE_ALIASES then ''default''
      else
        let normalized = to_bedrock_model_id_if_known split given in
        if looks_like_bedrock_model_id (Some normalized) then normalized
        else if CHR ''/'' \<in> set normalized
        then (if before_slash normalized \<in> PROVIDER_ONLY_QUEUE_ALIASES \<and>
                 after_slash normalized \<in> PROVIDER_ONLY_QUEUE_ALIASES
              then ''default'' else normalized)
        else (case infer_provider_prefix split litellm normalized True of
                None \<Rightarrow> normalized
              | Some p \<Rightarrow> p @ ''/'' @ normalized))"

subsection \<open>The limit of a queue\<close>

text \<open>
  The settings that give a queue its deployed limit. \<open>overrides\<close> comes from the environment with
  its keys normalized (\<open>normalize_model_overrides\<close>).
\<close>

record queue_settings =
  qg_overrides :: "(string, int) dict"
  qg_nop_oracle_concurrency :: int
  qg_default_model_concurrency :: int

definition get_model_concurrency :: "(string \<Rightarrow> string) \<Rightarrow> queue_settings \<Rightarrow> string \<Rightarrow> int" where
  "get_model_concurrency nk cfg queue_key =
     (let normalized = nk queue_key in
      case map_of (qg_overrides cfg) normalized of
        Some override \<Rightarrow> max override 0
      | None \<Rightarrow>
          if normalized = NOP_ORACLE_QUEUE_KEY then max (qg_nop_oracle_concurrency cfg) 0
          else max (qg_default_model_concurrency cfg) 0)"

definition normalize_model_overrides :: "(string \<Rightarrow> string) \<Rightarrow> (string, int) dict \<Rightarrow> (string, int) dict" where
  "normalize_model_overrides nk parsed = foldl (\<lambda>d (k, v). dict_set d (nk k) v) [] parsed"

subsection \<open>Baseline agents and their kinds\<close>

lemma nop_oracle_kind_range: "nop_oracle_kind a = Some k \<Longrightarrow> k = ''oracle'' \<or> k = ''nop''"
  by (auto simp: nop_oracle_kind_def Let_def split: if_splits)

lemma nop_oracle_kind_iff: "is_nop_oracle_agent a \<longleftrightarrow> nop_oracle_kind a \<noteq> None"
  by (auto simp: is_nop_oracle_agent_def nop_oracle_kind_def Let_def starts_with_append)

subsection \<open>Normal forms of names\<close>

text \<open>What \<open>strip\<close>, \<open>lower\<close> and the replacement of blanks leave alone.\<close>

definition plain :: "string \<Rightarrow> bool" where
  "plain s \<longleftrightarrow> (s \<noteq> [] \<longrightarrow> \<not> is_space (hd s) \<and> \<not> is_space (last s)) \<and>
     (\<forall>c \<in> set s. lower_char c = c \<and> c \<noteq> CHR '' '')"

lemma lower_char_code: "(of_char (lower_char c) :: nat) =
    (let n = of_char c in if 65 \<le> n \<and> n \<le> 90 \<or> 192 \<le> n \<and> n \<le> 222 \<and> n \<noteq> 215 then n + 32 else n)"
  by (simp add: lower_char_def Let_def)

lemma lower_char_idem [simp]: "lower_char (lower_char c) = lower_char c"
  unfolding char_eq_code lower_char_code Let_def by simp

lemma is_space_lower [simp]: "is_space (lower_char c) = is_space c"
  by (auto simp: is_space_def lower_char_code Let_def)

lemma is_space_blank [simp]: "is_space (CHR '' '')" "\<not> is_space (CHR ''_'')"
  by (simp_all add: is_space_def)

lemma lower_char_consts [simp]: "lower_char (CHR ''_'') = CHR ''_''" "lower_char (CHR ''/'') = CHR ''/''"
  by code_simp+

lemma strip_ends:
  "str_strip s \<noteq> [] \<Longrightarrow> \<not> is_space (hd (str_strip s)) \<and> \<not> is_space (last (str_strip s))"
proof -
  assume ne: "str_strip s \<noteq> []"
  let ?d = "dropWhile is_space s"
  have r: "dropWhile is_space (rev ?d) \<noteq> []" using ne by (simp add: str_strip_def)
  then have "\<not> is_space (hd (dropWhile is_space (rev ?d)))" by (rule hd_dropWhile)
  then have l: "\<not> is_space (last (str_strip s))" by (simp only: str_strip_def last_rev not_False_eq_True)
  have "?d \<noteq> []" using r by (metis dropWhile.simps(1) rev.simps(1))
  then have "\<not> is_space (hd ?d)" by (rule hd_dropWhile)
  moreover obtain w where "?d = str_strip s @ w"
    by (metis str_strip_def rev_append rev_rev_ident takeWhile_dropWhile_id)
  ultimately have "\<not> is_space (hd (str_strip s))" using ne by (metis hd_append2)
  with l show ?thesis by simp
qed

lemma strip_plain: "s \<noteq> [] \<Longrightarrow> \<not> is_space (hd s) \<Longrightarrow> \<not> is_space (last s) \<Longrightarrow> str_strip s = s"
  by (simp add: str_strip_def dropWhile_eq_self_iff [THEN iffD2] hd_rev)

lemma lower_fixed: "str_lower s = s \<longleftrightarrow> (\<forall>c \<in> set s. lower_char c = c)"
  by (induction s) (auto simp: str_lower_def)

lemma plain_fixed: "plain s \<Longrightarrow> str_strip s = s \<and> str_lower s = s \<and> trimmed_key s = s"
proof -
  assume s: "plain s"
  have strip: "str_strip s = s" using s strip_plain by (cases "s = []") (auto simp: plain_def str_strip_def)
  have lower: "str_lower s = s" using s by (simp add: plain_def str_lower_def map_idI)
  have "replace_char (CHR '' '') (CHR ''_'') s = s" using s by (simp add: plain_def replace_char_def map_idI)
  with strip lower show ?thesis by (simp add: trimmed_key_def)
qed

lemma plain_trimmed_key: "plain (trimmed_key s)"
proof -
  let ?f = "\<lambda>c. if lower_char c = CHR '' '' then CHR ''_'' else lower_char c"
  have t: "trimmed_key s = map ?f (str_strip s)"
    by (simp add: trimmed_key_def replace_char_def str_lower_def)
  have space: "\<not> is_space (?f c)" if "\<not> is_space c" for c
    using that is_space_lower [of c] by auto
  show ?thesis
    unfolding plain_def t using strip_ends [of s] space by (auto simp: hd_map last_map)
qed

subsection \<open>The key of a key\<close>

lemma table_values:
  "v \<in> snd ` set ANTHROPIC_TO_BEDROCK_MODEL_IDS \<Longrightarrow>
     trimmed_key v = v \<and> str_strip v = v \<and> str_lower v = v \<and> v \<notin> MODEL_ABSENT_ALIASES \<and> v \<notin> PROVIDER_ONLY_QUEUE_ALIASES \<and> v \<noteq> [] \<and>
     \<not> starts_with [''bedrock/''] (str_lower v) \<and> invokable_id (str_lower v) \<and>
     CHR ''/'' \<notin> set v"
proof -
  let ?vs = "map snd ANTHROPIC_TO_BEDROCK_MODEL_IDS"
  assume "v \<in> snd ` set ANTHROPIC_TO_BEDROCK_MODEL_IDS"
  then have pick: "list_all P ?vs \<Longrightarrow> P v" for P by (auto simp: list_all_iff)
  have ends: "v \<noteq> [] \<and> hd v \<in> set ''gu'' \<and> last v \<in> set ''0123456789'' \<and> CHR '' '' \<notin> set v \<and> CHR ''/'' \<notin> set v"
    by (rule pick) code_simp
  have lower: "str_lower v = v \<and> \<not> starts_with [''bedrock/''] v" by (rule pick) code_simp
  have "v \<notin> MODEL_ABSENT_ALIASES \<and> v \<notin> PROVIDER_ONLY_QUEUE_ALIASES" by (rule pick) code_simp
  moreover have "starts_with BEDROCK_REGION_PREFIXES v" by (rule pick) code_simp
  moreover have "has_substring ''.anthropic.'' v" by (rule pick) code_simp
  ultimately have facts: "v \<notin> MODEL_ABSENT_ALIASES \<and> v \<notin> PROVIDER_ONLY_QUEUE_ALIASES \<and> invokable_id v"
    unfolding invokable_id_def by blast
  have space: "list_all (\<lambda>c. \<not> is_space c) (''gu'' @ ''0123456789'')" by code_simp
  then have "\<not> is_space (hd v)" "\<not> is_space (last v)" using ends unfolding list_all_iff set_append by blast+
  with ends lower have "plain v" unfolding plain_def lower_fixed by blast
  then show ?thesis using facts lower ends plain_fixed [of v] by metis
qed

lemma looks_like_plain:
  "plain s \<Longrightarrow> CHR ''/'' \<notin> set s \<Longrightarrow> s \<noteq> [] \<Longrightarrow>
     looks_like_bedrock_model_id (Some s) \<longleftrightarrow> invokable_id s \<or> starts_with [''anthropic.''] s"
  by (simp add: looks_like_bedrock_model_id_def after_slash_def plain_fixed Let_def)

lemma starts_with_slash:
  assumes "CHR ''/'' \<notin> set p" and "CHR ''/'' \<notin> set q"
  shows "starts_with [q @ ''/''] (p @ ''/'' @ s) \<longleftrightarrow> p = q"
proof
  have slash: "takeWhile (\<lambda>c. c \<noteq> CHR ''/'') (x @ ''/'' @ w) = x" if "CHR ''/'' \<notin> set x" for x w
    using that by (induction x) auto
  assume "starts_with [q @ ''/''] (p @ ''/'' @ s)"
  then have "p @ ''/'' @ s = q @ ''/'' @ drop (length q + 1) (p @ ''/'' @ s)"
    by (metis starts_with_Cons starts_with_Nil append_take_drop_id append_assoc length_append list.size(3,4) One_nat_def add_0)
  then show "p = q" using slash assms by metis
qed simp

text \<open>
  Where Harbor finds no provider prefix in a plain name that does not ask for Bedrock, the mapping
  leaves the name alone, unless its Claude id is in the table.
\<close>

lemma bedrock_known_plain:
  assumes "plain s" and "s \<noteq> []" and "\<not> starts_with [''bedrock/''] s"
  shows "to_bedrock_model_id_if_known split s = s \<or>
    to_bedrock_model_id_if_known split s \<in> snd ` set ANTHROPIC_TO_BEDROCK_MODEL_IDS"
  using assms plain_fixed [OF assms(1)]
  by (auto simp: to_bedrock_model_id_if_known_def to_bedrock_model_id_def Let_def
      split: option.splits sum.splits dest!: map_of_SomeD intro: rev_image_eqI)

lemma bedrock_known_prefixed:
  assumes "plain (p @ ''/'' @ s)" and "p \<noteq> []" and "CHR ''/'' \<notin> set p" and "CHR ''/'' \<notin> set s" and "plain s"
    and "s \<noteq> []" and "\<not> starts_with [''bedrock/''] s"
    and "fst (split s) \<in> {None, Some []}" and "to_bedrock_model_id_if_known split s = s"
    and "\<not> invokable_id s"
  shows "to_bedrock_model_id_if_known split (p @ ''/'' @ s) = p @ ''/'' @ s \<or>
    p = ''bedrock'' \<and> to_bedrock_model_id_if_known split (p @ ''/'' @ s) = s"
proof -
  let ?r = "p @ ''/'' @ s"
  have r: "str_strip ?r = ?r" "str_lower ?r = ?r" "?r \<noteq> []" and s: "str_strip s = s" "str_lower s = s"
    using plain_fixed [OF assms(1)] plain_fixed [OF assms(5)] by simp_all
  have tail: "after_slash ?r = s" "after_slash s = s"
    using assms(3,4) by (simp_all add: after_slash_def dropWhile_append)
  have bedrock: "starts_with [''bedrock/''] ?r \<longleftrightarrow> p = ''bedrock''"
    using starts_with_slash [OF assms(3), of "''bedrock''" s] by simp
  have lookup: "has_substring ''claude'' s \<Longrightarrow> map_of ANTHROPIC_TO_BEDROCK_MODEL_IDS (bedrock_table_key s) = None"
  proof (rule ccontr)
    assume c: "has_substring ''claude'' s" and "map_of ANTHROPIC_TO_BEDROCK_MODEL_IDS (bedrock_table_key s) \<noteq> None"
    then obtain v where v: "map_of ANTHROPIC_TO_BEDROCK_MODEL_IDS (bedrock_table_key s) = Some v" by blast
    then have val: "v \<in> snd ` set ANTHROPIC_TO_BEDROCK_MODEL_IDS" by (force dest: map_of_SomeD)
    have "to_bedrock_model_id split (Some s) = Inr (Some v)"
      using assms(6-8,10) s tail c v by (auto simp: to_bedrock_model_id_def Let_def)
    then have "v = s" using assms(9) table_values [OF val] by (simp add: to_bedrock_model_id_if_known_def)
    with table_values [OF val] assms(10) s show False by simp
  qed
  show ?thesis
  proof (cases "p = ''bedrock''")
    case True
    then show ?thesis using assms(8,10) r s tail bedrock lookup
      by (auto simp: to_bedrock_model_id_if_known_def to_bedrock_model_id_def Let_def)
  next
    case False
    then show ?thesis using assms(10) r s tail bedrock lookup
      by (auto simp: to_bedrock_model_id_if_known_def to_bedrock_model_id_def Let_def)
  qed
qed

text \<open>The two results that a second pass keeps at once.\<close>

lemma normalize_default: "normalize_queue_key split litellm ''default'' = ''default''"
proof -
  have "trimmed_key ''default'' = ''default''" by code_simp
  then show ?thesis by (simp add: normalize_queue_key_def MODEL_ABSENT_ALIASES_def)
qed

lemma normalize_kept:
  assumes "trimmed_key r = r" and "r \<noteq> []" and "r \<notin> MODEL_ABSENT_ALIASES" and "r \<notin> PROVIDER_ONLY_QUEUE_ALIASES"
    and "to_bedrock_model_id_if_known split r = r"
    and "looks_like_bedrock_model_id (Some r) \<or>
      CHR ''/'' \<in> set r \<and> \<not> (before_slash r \<in> PROVIDER_ONLY_QUEUE_ALIASES \<and> after_slash r \<in> PROVIDER_ONLY_QUEUE_ALIASES) \<or>
      CHR ''/'' \<notin> set r \<and> infer_provider_prefix split litellm r True = None"
  shows "normalize_queue_key split litellm r = r"
  using assms by (auto simp: normalize_queue_key_def Let_def)

lemma table_value_kept:
  assumes "v \<in> snd ` set ANTHROPIC_TO_BEDROCK_MODEL_IDS"
  shows "looks_like_bedrock_model_id (Some v)" and "normalize_queue_key split litellm v = v"
proof -
  note v = table_values [OF assms]
  then have lower: "str_lower v = v" by blast
  show look: "looks_like_bedrock_model_id (Some v)"
    using v lower by (simp add: looks_like_bedrock_model_id_def after_slash_def Let_def)
  have "to_bedrock_model_id split (Some v) = Inr (Some v)"
    using v lower by (simp add: to_bedrock_model_id_def Let_def)
  then have "to_bedrock_model_id_if_known split v = v"
    using v by (simp add: to_bedrock_model_id_if_known_def)
  with v look show "normalize_queue_key split litellm v = v" by (intro normalize_kept) simp_all
qed

lemma provider_names:
  assumes "\<And>s p. litellm s = Some p \<Longrightarrow> 1 < length p \<and> (\<forall>c \<in> set p. \<not> is_space c \<and> c \<noteq> CHR ''/'')"
    and "fst (split s) \<in> {None, Some []}" and "infer_provider_prefix split litellm s True = Some p"
  shows "1 < length p \<and> (\<forall>c \<in> set p. \<not> is_space c \<and> c \<noteq> CHR ''/'' \<and> lower_char c = c)"
proof -
  have "(case fst (split s) of None \<Rightarrow> [] | Some p \<Rightarrow> p) = []" using assms(2) by (cases "fst (split s)") simp_all
  with assms(3) have given: "(let known = (case litellm s of None \<Rightarrow> [] | Some p \<Rightarrow> p) in
      if known \<noteq> [] then or_none (str_lower_strip known) else bare_model_provider (str_lower_strip s)) = Some p"
    by (simp only: infer_provider_prefix_def Let_def simp_thms if_False if_True)
  consider (known) q where "litellm s = Some q" "p = str_lower_strip q" | (bare) "bare_model_provider (str_lower_strip s) = Some p"
  proof (cases "(case litellm s of None \<Rightarrow> [] | Some p \<Rightarrow> p) = []")
    case True
    with given that(2) show ?thesis by (simp only: Let_def simp_thms if_False)
  next
    case False
    then obtain q where "litellm s = Some q" "q \<noteq> []" by (cases "litellm s") auto
    moreover from this given have "p = str_lower_strip q"
      by (simp only: Let_def option.case or_none_def simp_thms if_True if_False not_False_eq_True option.inject split: if_splits) auto
    ultimately show ?thesis using that(1) by blast
  qed
  then show ?thesis
  proof cases
    case known
    from assms(1) [OF this(1)] have q: "1 < length q" "\<forall>c \<in> set q. \<not> is_space c \<and> c \<noteq> CHR ''/''" by blast+
    from q(1) have "q \<noteq> []" by auto
    with q(2) have "\<not> is_space (hd q)" "\<not> is_space (last q)" using hd_in_set last_in_set by blast+
    with \<open>q \<noteq> []\<close> have "str_strip q = q" by (rule strip_plain)
    then have p: "p = map lower_char q" using known(2) by (simp add: str_lower_strip_def str_lower_def)
    have "lower_char c = CHR ''/'' \<longleftrightarrow> c = CHR ''/''" for c
      unfolding char_eq_code lower_char_code Let_def by simp
    then have "\<not> is_space (lower_char c) \<and> lower_char c \<noteq> CHR ''/'' \<and> lower_char (lower_char c) = lower_char c"
      if "c \<in> set q" for c using q(2) that unfolding is_space_lower lower_char_idem by blast
    then show ?thesis unfolding p set_map ball_simps length_map using q(1) by blast
  next
    case bare
    then have "p \<in> {''openai'', ''anthropic'', ''google'', ''zai'', ''minimax'', ''moonshot'', ''xai'', ''deepseek''}"
      by (auto simp: bare_model_provider_def simp del: starts_with_Cons split: if_splits)
    moreover have "1 < length p \<and> set p \<subseteq> set ''abcdefghijklmnopqrstuvwxyz''"
      using calculation by auto
    moreover have "list_all (\<lambda>c. \<not> is_space c \<and> c \<noteq> CHR ''/'' \<and> lower_char c = c) ''abcdefghijklmnopqrstuvwxyz''"
      by code_simp
    ultimately show ?thesis unfolding list_all_iff by blast
  qed
qed

text \<open>
  The key of a key is the key itself: normalizing twice is normalizing once, for every name
  that does not spell out the transport \<open>bedrock/\<close>, provided that Harbor sees a provider only in
  front of a slash and that the names of LiteLLM's providers are longer than one character and
  have neither blanks nor slashes. So the queue of a trial, the overrides stored for it and the
  limits the dispatcher asks for meet under one key.
\<close>

theorem normalize_queue_key_idempotent:
  assumes "\<And>s. CHR ''/'' \<notin> set s \<Longrightarrow> fst (split s) \<in> {None, Some []}"
    and "\<And>s p. litellm s = Some p \<Longrightarrow> 1 < length p \<and> (\<forall>c \<in> set p. \<not> is_space c \<and> c \<noteq> CHR ''/'')"
    and "\<not> starts_with [''bedrock/''] (trimmed_key model)"
  shows "normalize_queue_key split litellm (normalize_queue_key split litellm model) = normalize_queue_key split litellm model"
proof -
  let ?nk = "normalize_queue_key split litellm"
  define n where "n = trimmed_key model"
  have n: "plain n" "trimmed_key n = n" unfolding n_def using plain_trimmed_key plain_fixed by blast+
  note def = normalize_queue_key_def [of split litellm model, folded n_def, unfolded Let_def]
  show ?thesis
  proof (cases "n = [] \<or> n \<in> MODEL_ABSENT_ALIASES \<or> n \<in> PROVIDER_ONLY_QUEUE_ALIASES")
    case True
    then have "?nk model = ''default''" by (auto simp: def)
    then show ?thesis by (simp add: normalize_default)
  next
    case False
    then have ne: "n \<noteq> []" "n \<notin> MODEL_ABSENT_ALIASES" "n \<notin> PROVIDER_ONLY_QUEUE_ALIASES" by auto
    let ?b = "to_bedrock_model_id_if_known split n"
    from bedrock_known_plain [OF n(1) ne(1), of split] assms(3)
    consider (mapped) "?b \<in> snd ` set ANTHROPIC_TO_BEDROCK_MODEL_IDS" | (same) "?b = n"
      by (auto simp: n_def)
    then show ?thesis
    proof cases
      case mapped
      then have "?nk model = ?b" using ne table_value_kept(1) [OF mapped] by (simp add: def)
      then show ?thesis using table_value_kept(2) [OF mapped] by simp
    next
      case same
      show ?thesis
      proof (cases "?nk model \<in> {''default'', n}")
        case True
        then show ?thesis
        proof
          assume r: "?nk model = ''default''"
          show ?thesis unfolding r by (rule normalize_default)
        next
          assume "?nk model \<in> {n}"
          moreover have "?nk n = ?nk model"
            by (simp add: normalize_queue_key_def n_def [symmetric] n(2))
          ultimately show ?thesis by simp
        qed
      next
        case False
        then obtain p where p: "infer_provider_prefix split litellm n True = Some p" "CHR ''/'' \<notin> set n"
          and plain_model: "\<not> looks_like_bedrock_model_id (Some n)" and r: "?nk model = p @ ''/'' @ n"
          using same ne by (auto simp: def split: if_splits option.splits)
        have "1 < length p \<and> (\<forall>c \<in> set p. \<not> is_space c \<and> c \<noteq> CHR ''/'' \<and> lower_char c = c)"
          by (rule provider_names [OF _ assms(1) [OF p(2)] p(1)]) (rule assms(2))
        then have name: "1 < length p" "\<forall>c \<in> set p. \<not> is_space c \<and> c \<noteq> CHR ''/'' \<and> lower_char c = c" by blast+
        from name(1) have "p \<noteq> []" by auto
        have slash: "CHR ''/'' \<notin> set p" using name(2) by blast
        let ?r = "p @ ''/'' @ n"
        have "\<not> is_space (hd p)" "\<not> is_space (last n)" using name(2) n(1) ne(1) \<open>p \<noteq> []\<close> hd_in_set
          by (blast, simp add: plain_def)
        moreover have "lower_char c = c \<and> c \<noteq> CHR '' ''" if "c \<in> set ?r" for c
        proof -
          from that consider "c \<in> set p" | "c = CHR ''/''" | "c \<in> set n" by auto
          then show ?thesis
          proof cases
            case 1
            with name(2) is_space_blank(1) show ?thesis by blast
          next
            case 2
            then show ?thesis by simp
          next
            case 3
            with n(1) show ?thesis unfolding plain_def by blast
          qed
        qed
        ultimately have plain: "plain ?r"
          using ne(1) \<open>p \<noteq> []\<close> unfolding plain_def by (simp only: hd_append2 last_appendR append_is_Nil_conv not_False_eq_True simp_thms list.simps last_ConsR) blast
        have parts: "before_slash ?r = p" "after_slash ?r = n" using slash
          by (simp_all add: before_slash_def after_slash_def takeWhile_append dropWhile_append takeWhile_eq_all_conv)
        have absent: "?r \<notin> MODEL_ABSENT_ALIASES"
        proof
          assume "?r \<in> MODEL_ABSENT_ALIASES"
          then have "?r = ''n/a''" by (auto simp: MODEL_ABSENT_ALIASES_def append_eq_Cons_conv Cons_eq_append_conv)
          with name(1) ne(1) show False by (auto simp: append_eq_Cons_conv Cons_eq_append_conv)
        qed
        have no_alias: "?r \<notin> PROVIDER_ONLY_QUEUE_ALIASES"
        proof -
          have "\<forall>a \<in> PROVIDER_ONLY_QUEUE_ALIASES. CHR ''/'' \<notin> set a" by code_simp
          then show ?thesis by fastforce
        qed
        have "\<not> invokable_id n" using plain_model looks_like_plain [OF n(1) p(2) ne(1)] by simp
        from bedrock_known_prefixed [where p = p and s = n and split = split, OF plain \<open>p \<noteq> []\<close> slash p(2) n(1) ne(1) _ assms(1) [OF p(2)] same this] assms(3)
        consider (kept) "to_bedrock_model_id_if_known split ?r = ?r"
          | (stripped) "to_bedrock_model_id_if_known split ?r = n" by (auto simp: n_def)
        then have "?nk ?r = ?r"
        proof cases
          case kept
          with plain_fixed [OF plain] absent no_alias parts ne(3) show ?thesis
            by (intro normalize_kept) auto
        next
          case stripped
          with plain_fixed [OF plain] absent no_alias p plain_model show ?thesis
            by (simp add: normalize_queue_key_def Let_def)
        qed
        then show ?thesis by (simp only: r)
      qed
    qed
  qed
qed

definition sample_split :: "string \<Rightarrow> string option \<times> string" where
  "sample_split s = (if CHR ''/'' \<in> set s then (Some (before_slash s), after_slash s) else (None, s))"

definition sample_litellm :: "string \<Rightarrow> string option" where
  "sample_litellm s = (if starts_with [''command-''] s then Some ''cohere'' else None)"

theorem normalize_queue_key_idempotent_witness:
  "normalize_queue_key sample_split sample_litellm (normalize_queue_key sample_split sample_litellm '' Command-R Plus'') =
   ''cohere/command-r_plus''"
proof -
  have once: "normalize_queue_key sample_split sample_litellm '' Command-R Plus'' = ''cohere/command-r_plus''" by code_simp
  have names: "list_all (\<lambda>c. \<not> is_space c \<and> c \<noteq> CHR ''/'') ''cohere''" by code_simp
  have "1 < length p \<and> (\<forall>c \<in> set p. \<not> is_space c \<and> c \<noteq> CHR ''/'')" if "sample_litellm s = Some p" for s p
  proof -
    have p: "p = ''cohere''" using that by (simp add: sample_litellm_def split: if_splits)
    show ?thesis using names unfolding p list_all_iff by simp
  qed
  moreover have "fst (sample_split s) \<in> {None, Some []}" if "CHR ''/'' \<notin> set s" for s
    using that by (simp add: sample_split_def)
  moreover have "\<not> starts_with [''bedrock/''] (trimmed_key '' Command-R Plus'')" by code_simp
  ultimately show ?thesis
    using normalize_queue_key_idempotent [of sample_split sample_litellm "'' Command-R Plus''"] unfolding once by blast
qed

text \<open>The exception is real: dropping the transport can leave a name that means nothing on its own.\<close>

lemma bedrock_transport_not_kept:
  "normalize_queue_key sample_split sample_litellm ''bedrock/openai'' = ''openai''"
  "normalize_queue_key sample_split sample_litellm ''openai'' = ''default''"
  by code_simp+

subsection \<open>Deployed limits\<close>

lemma get_model_concurrency_nonneg: "0 \<le> get_model_concurrency nk cfg key"
  by (simp add: get_model_concurrency_def Let_def split: option.split)

end
