(* ===== verification/Baseline_Gate.thy ===== *)
theory Baseline_Gate
  imports Worker_Jobs Verdict_State Queue_Keys
begin

text \<open>
  The baseline gate: \<open>core/baseline_gate.py\<close>, the baseline agents of \<open>config.py\<close> and the
  functions of \<open>queue.py\<close> that hold the trials of language models back until the \<open>nop\<close> and
  \<open>oracle\<close> trials of the same task version and experiment have finished, and then release or
  cancel them.
\<close>

subsection \<open>Baseline agents in the database\<close>

text \<open>The SQL counterpart; \<open>LIKE 'p%'\<close> is a prefix test, for patterns without other wildcards.\<close>

definition baseline_agent_clause :: "string option \<Rightarrow> bool" where
  "baseline_agent_clause agent =
     (let lower = str_lower (case agent of None \<Rightarrow> [] | Some a \<Rightarrow> a) in
      lower = ''nop'' \<or> lower = ''oracle'' \<or>
      starts_with [''nop-''] lower \<or> starts_with [''oracle-''] lower \<or>
      starts_with [''agent-nop''] lower \<or> starts_with [''agent-oracle''] lower)"

subsection \<open>The verdict of the baselines\<close>

datatype gate_outcome = VALID | FAULTY

definition GATE_SKIP_MESSAGE :: string where
  "GATE_SKIP_MESSAGE = ''Trial skipped: nop/oracle validation failed''"

definition rewards_by_kind ::
  "(string option \<times> py_float option) list \<Rightarrow> (string, py_float option list) dict" where
  "rewards_by_kind results =
     map (\<lambda>kind. (kind, map snd (filter (\<lambda>(agent, _). nop_oracle_kind agent = Some kind) results)))
       [''oracle'', ''nop'']"

definition kind_failed :: "string \<times> py_float option list \<Rightarrow> bool" where
  "kind_failed kr \<longleftrightarrow>
     fst kr = ''oracle'' \<and> \<not> list_all (\<lambda>r. case r of None \<Rightarrow> False | Some x \<Rightarrow> float_positive x) (snd kr) \<or>
     fst kr = ''nop'' \<and> \<not> list_all (\<lambda>r. case r of None \<Rightarrow> False | Some x \<Rightarrow> float_zero x) (snd kr)"

definition evaluate_baseline_gate ::
  "(string option \<times> py_float option) list \<Rightarrow> gate_outcome \<times> string" where
  "evaluate_baseline_gate results =
     (let present = filter (\<lambda>(_, rs). rs \<noteq> []) (rewards_by_kind results) in
      if present = [] then (FAULTY, GATE_SKIP_MESSAGE)
      else if list_ex kind_failed present then (FAULTY, GATE_SKIP_MESSAGE)
      else (VALID, ''baselines validated (all oracle passed, all nop failed)''))"

subsection \<open>Arming the gate\<close>

text \<open>
  \<open>armed\<close> is the global flag \<open>gate_llm_on_baselines\<close>, \<open>opted_in\<close> the flag of the submission and
  \<open>agents\<close> the agents of its trials.
\<close>

definition submission_gates_llm_trials :: "bool \<Rightarrow> bool \<Rightarrow> string list \<Rightarrow> bool" where
  "submission_gates_llm_trials armed opted_in agents \<longleftrightarrow>
     (if \<not> armed \<or> \<not> opted_in then False
      else list_ex (\<lambda>a. is_nop_oracle_agent (Some a)) agents \<and>
           list_ex (\<lambda>a. \<not> is_nop_oracle_agent (Some a)) agents)"

definition initial_trial_job_status :: "string \<Rightarrow> bool \<Rightarrow> worker_job_status" where
  "initial_trial_job_status agent gating =
     (if gating \<and> \<not> is_nop_oracle_agent (Some agent) then BLOCKED else QUEUED)"

definition trial_job_of :: "string list \<Rightarrow> worker_job \<Rightarrow> bool" where
  "trial_job_of ids j \<longleftrightarrow> wj_subject_table j = Some ''trials'' \<and> wj_kind j = Kind_trial \<and>
     (\<exists>i \<in> set ids. wj_subject_id j = Some i)"

definition block_worker_jobs_for_trials :: "string list \<Rightarrow> queue_db \<Rightarrow> queue_db" where
  "block_worker_jobs_for_trials ids db =
     (if ids = [] then db
      else db\<lparr>db_jobs := update_where (\<lambda>j. trial_job_of ids j \<and> wj_status j = QUEUED)
        (\<lambda>j. j\<lparr>wj_status := BLOCKED\<rparr>) (db_jobs db)\<rparr>)"

subsection \<open>Resolving it\<close>

definition unblock_worker_jobs_for_trials :: "int \<Rightarrow> string list \<Rightarrow> queue_db \<Rightarrow> queue_db" where
  "unblock_worker_jobs_for_trials now ids db =
     (if ids = [] then db
      else db\<lparr>db_jobs := update_where (\<lambda>j. trial_job_of ids j \<and> wj_status j = BLOCKED)
        (\<lambda>j. j\<lparr>wj_status := QUEUED, wj_available_after := now\<rparr>) (db_jobs db)\<rparr>)"

definition active_trial_status :: "trial_status \<Rightarrow> bool" where
  "active_trial_status s \<longleftrightarrow>
     s \<in> {Trial_pending, Trial_queued, Trial_running, Trial_paused, Trial_retrying}"

definition skipped_trial :: "int \<Rightarrow> string \<Rightarrow> trial_row \<Rightarrow> trial_row" where
  "skipped_trial now reason tr = tr\<lparr>tr_status := Trial_skipped, tr_error_message := Some reason,
     tr_finished_at := Some now, tr_harbor_stage := Some ''cancelled'', tr_current_worker_id := None,
     tr_current_queue_slot := None\<rparr>"

definition cancelled_job :: "int \<Rightarrow> string \<Rightarrow> worker_job \<Rightarrow> worker_job" where
  "cancelled_job now reason j = j\<lparr>wj_status := CANCELLED, wj_finished_at := Some now,
     wj_error_message := Some reason, wj_current_worker_id := None, wj_current_queue_slot := None,
     wj_modal_function_call_id := None, wj_payload := drop_registry_auth (wj_payload j)\<rparr>"

definition skippable_trial :: "string list \<Rightarrow> trial_row \<Rightarrow> bool" where
  "skippable_trial ids tr \<longleftrightarrow> tr_id tr \<in> set ids \<and> active_trial_status (tr_status tr) \<and> tr_deleted_at tr = None"

definition cancel_gated_llm_trials :: "int \<Rightarrow> string list \<Rightarrow> string \<Rightarrow> queue_db \<Rightarrow> queue_db" where
  "cancel_gated_llm_trials now ids reason db =
     (if ids = [] then db
      else db\<lparr>db_trials := update_where (skippable_trial ids) (skipped_trial now reason) (db_trials db),
              db_jobs := update_where (\<lambda>j. trial_job_of ids j \<and> wj_status j = BLOCKED)
                (cancelled_job now reason) (db_jobs db)\<rparr>)"

text \<open>
  The scope of a gate. The session's filter on deleted rows is added to statements whose top-level
  entity is a registered model, so it reaches the trials of the two counts and of the rows
  below, but not the sub-selects of the statements over \<open>worker_jobs\<close>.
\<close>

record gate_scope =
  gs_task_id :: string
  gs_task_version_id :: "string option"
  gs_experiment_id :: string

definition in_scope :: "gate_scope \<Rightarrow> trial_row \<Rightarrow> bool" where
  "in_scope sc tr \<longleftrightarrow> tr_task_id tr = gs_task_id sc \<and> tr_experiment_id tr = gs_experiment_id sc \<and>
     tr_task_version_id tr = gs_task_version_id sc"

definition scope_baseline :: "gate_scope \<Rightarrow> trial_row \<Rightarrow> bool" where
  "scope_baseline sc tr \<longleftrightarrow> in_scope sc tr \<and> tr_queue_key tr = NOP_ORACLE_QUEUE_KEY \<and>
     tr_superseded_by_trial_id tr = None \<and> tr_deleted_at tr = None"

definition gated_job :: "worker_job \<Rightarrow> bool" where
  "gated_job j \<longleftrightarrow> wj_kind j = Kind_trial \<and> wj_subject_table j = Some ''trials'' \<and> wj_status j = BLOCKED"

definition task_has_blocked :: "string \<Rightarrow> queue_db \<Rightarrow> bool" where
  "task_has_blocked task_id db \<longleftrightarrow> (\<exists>j \<in> set (db_jobs db). gated_job j \<and>
     (\<exists>tr \<in> set (db_trials db). tr_task_id tr = task_id \<and> wj_subject_id j = Some (tr_id tr)))"

definition task_visible :: "string \<Rightarrow> queue_db \<Rightarrow> bool" where
  "task_visible task_id db \<longleftrightarrow> (\<exists>tk \<in> set (db_tasks db). tk_id tk = task_id \<and> tk_deleted_at tk = None)"

definition scope_trial_ids :: "gate_scope \<Rightarrow> queue_db \<Rightarrow> string list" where
  "scope_trial_ids sc db = map tr_id (filter (in_scope sc) (db_trials db))"

definition blocked_trial_ids :: "gate_scope \<Rightarrow> queue_db \<Rightarrow> string list" where
  "blocked_trial_ids sc db = List.map_filter wj_subject_id
     (filter (\<lambda>j. gated_job j \<and> trial_job_of (scope_trial_ids sc db) j) (db_jobs db))"

definition active_baseline_job :: "queue_db \<Rightarrow> trial_row \<Rightarrow> bool" where
  "active_baseline_job db tr \<longleftrightarrow> (\<exists>j \<in> set (db_jobs db). trial_job_of [tr_id tr] j \<and>
     wj_status j \<in> {QUEUED, RUNNING, RETRYING, BLOCKED})"

definition pending_baseline :: "gate_scope \<Rightarrow> queue_db \<Rightarrow> trial_row \<Rightarrow> bool" where
  "pending_baseline sc db tr \<longleftrightarrow> scope_baseline sc tr \<and>
     (active_trial_status (tr_status tr) \<or> active_baseline_job db tr)"

definition evaluable_baselines :: "gate_scope \<Rightarrow> queue_db \<Rightarrow> (string option \<times> py_float option) list" where
  "evaluable_baselines sc db = map (\<lambda>tr. (Some (tr_agent tr), tr_reward tr))
     (filter (\<lambda>tr. scope_baseline sc tr \<and> tr_harbor_stage tr \<noteq> Some ''cancelled'') (db_trials db))"

text \<open>\<open>None\<close> until the gate is resolved, \<open>Some []\<close> when it cancelled, else the trials it released.\<close>

definition resolve_baseline_gate_for_scope ::
  "int \<Rightarrow> gate_scope \<Rightarrow> queue_db \<Rightarrow> queue_db \<times> string list option" where
  "resolve_baseline_gate_for_scope now sc db =
     (let blocked = blocked_trial_ids sc db; baselines = evaluable_baselines sc db in
      if \<not> task_has_blocked (gs_task_id sc) db then (db, None)
      else if \<not> task_visible (gs_task_id sc) db then (db, None)
      else if blocked = [] then (db, None)
      else if list_ex (pending_baseline sc db) (db_trials db) then (db, None)
      else if baselines = [] then (unblock_worker_jobs_for_trials now blocked db, Some blocked)
      else (case evaluate_baseline_gate baselines of
              (VALID, _) \<Rightarrow> (unblock_worker_jobs_for_trials now blocked db, Some blocked)
            | (FAULTY, reason) \<Rightarrow> (cancel_gated_llm_trials now blocked reason db, Some [])))"

definition scope_of :: "trial_row \<Rightarrow> gate_scope" where
  "scope_of tr = \<lparr>gs_task_id = tr_task_id tr, gs_task_version_id = tr_task_version_id tr,
     gs_experiment_id = tr_experiment_id tr\<rparr>"

definition visible_trial :: "string \<Rightarrow> queue_db \<Rightarrow> trial_row option" where
  "visible_trial i db = find (\<lambda>tr. tr_id tr = i \<and> tr_deleted_at tr = None) (db_trials db)"

definition maybe_gate_llm_trials :: "int \<Rightarrow> string \<Rightarrow> queue_db \<Rightarrow> queue_db \<times> bool" where
  "maybe_gate_llm_trials now trial_id db =
     (case visible_trial trial_id db of
        None \<Rightarrow> (db, False)
      | Some tr \<Rightarrow>
          if \<not> is_nop_oracle_agent (Some (tr_agent tr)) then (db, False)
          else apsnd (\<lambda>released. released \<noteq> None) (resolve_baseline_gate_for_scope now (scope_of tr) db))"

definition release_gate_after_quota_cancel :: "int \<Rightarrow> string \<Rightarrow> queue_db \<Rightarrow> queue_db \<times> string list" where
  "release_gate_after_quota_cancel now trial_id db =
     (case visible_trial trial_id db of
        None \<Rightarrow> (db, [])
      | Some tr \<Rightarrow>
          if \<not> is_nop_oracle_agent (Some (tr_agent tr)) then (db, [])
          else apsnd (\<lambda>released. case released of None \<Rightarrow> [] | Some ids \<Rightarrow> ids)
                 (resolve_baseline_gate_for_scope now (scope_of tr) db))"

subsection \<open>What the gate decides\<close>

lemma rewards_of_kind:
  "list_all P (map snd (filter (\<lambda>(agent, _). nop_oracle_kind agent = Some k) rs)) \<longleftrightarrow>
     (\<forall>(a, r) \<in> set rs. nop_oracle_kind a = Some k \<longrightarrow> P r)"
  by (auto simp: list_all_iff)

text \<open>
  C32. The gate opens exactly for a task that has a baseline, whose every oracle run scored above
  zero and whose every nop run scored exactly zero, a run without a reward counting as neither;
  in every other case the reason is the one stamped on the skipped trials. The runs of other
  agents have no say.
\<close>

theorem gate_verdict_exact:
  "(fst (evaluate_baseline_gate rs) = VALID \<longleftrightarrow>
      (\<exists>(a, r) \<in> set rs. is_nop_oracle_agent a) \<and>
      (\<forall>(a, r) \<in> set rs. nop_oracle_kind a = Some ''oracle'' \<longrightarrow> (\<exists>x. r = Some x \<and> float_positive x)) \<and>
      (\<forall>(a, r) \<in> set rs. nop_oracle_kind a = Some ''nop'' \<longrightarrow> r = Some (Finite 0))) \<and>
   (fst (evaluate_baseline_gate rs) = FAULTY \<longrightarrow> snd (evaluate_baseline_gate rs) = GATE_SKIP_MESSAGE)"
proof -
  let ?of = "\<lambda>k. map snd (filter (\<lambda>(agent, _). nop_oracle_kind agent = Some k) rs)"
  have none: "?of k = [] \<longleftrightarrow> \<not> (\<exists>(a, r) \<in> set rs. nop_oracle_kind a = Some k)" for k
    by (auto simp: filter_empty_conv)
  have any: "(\<exists>(a, r) \<in> set rs. is_nop_oracle_agent a) \<longleftrightarrow> ?of ''oracle'' \<noteq> [] \<or> ?of ''nop'' \<noteq> []"
    unfolding none nop_oracle_kind_iff using nop_oracle_kind_range by fastforce
  have pos: "(case r of None \<Rightarrow> False | Some x \<Rightarrow> float_positive x) = (\<exists>x. r = Some x \<and> float_positive x)" for r
    by (cases r) auto
  have zero: "(case r of None \<Rightarrow> False | Some x \<Rightarrow> float_zero x) = (r = Some (Finite 0))" for r
    by (cases r) (auto simp: float_zero_def)
  have "evaluate_baseline_gate rs =
    (if ?of ''oracle'' = [] \<and> ?of ''nop'' = [] then (FAULTY, GATE_SKIP_MESSAGE)
     else if \<not> list_all (\<lambda>r. \<exists>x. r = Some x \<and> float_positive x) (?of ''oracle'') \<or>
             \<not> list_all (\<lambda>r. r = Some (Finite 0)) (?of ''nop'') then (FAULTY, GATE_SKIP_MESSAGE)
     else (VALID, ''baselines validated (all oracle passed, all nop failed)''))"
    by (simp add: evaluate_baseline_gate_def rewards_by_kind_def kind_failed_def pos zero Let_def)
  then show ?thesis unfolding any rewards_of_kind by (simp only: split: if_split) auto
qed

lemma gate_message: "fst (evaluate_baseline_gate rs) = FAULTY \<Longrightarrow> snd (evaluate_baseline_gate rs) = GATE_SKIP_MESSAGE"
  by (auto simp: evaluate_baseline_gate_def Let_def split: if_splits)

definition sample_results :: "(string option \<times> py_float option) list" where
  "sample_results = [(Some ''Oracle-v2'', Some (Finite (1/2))), (Some ''agent-nop'', Some (Finite 0)), (Some ''codex'', None)]"

theorem gate_verdict_exact_witness:
  "fst (evaluate_baseline_gate sample_results) = VALID \<and>
   fst (evaluate_baseline_gate ((Some ''nop'', None) # sample_results)) = FAULTY"
proof -
  have kinds: "nop_oracle_kind (Some ''Oracle-v2'') = Some ''oracle''" "nop_oracle_kind (Some ''agent-nop'') = Some ''nop''"
      "nop_oracle_kind (Some ''codex'') = None" "nop_oracle_kind (Some ''nop'') = Some ''nop''"
    by code_simp+
  have "fst (evaluate_baseline_gate sample_results) = VALID"
    using gate_verdict_exact [of sample_results] by (simp add: sample_results_def kinds nop_oracle_kind_iff)
  moreover have "fst (evaluate_baseline_gate ((Some ''nop'', None) # sample_results)) \<noteq> VALID"
    using gate_verdict_exact [of "(Some ''nop'', None) # sample_results"] by (simp add: kinds)
  ultimately show ?thesis using gate_outcome.exhaust by blast
qed

subsection \<open>The clause of the database and the predicate of the program\<close>

text \<open>
  The clause that filters baselines in the database and the predicate of the program agree on
  every agent name without blanks around it, and on a missing name.
\<close>

theorem baseline_clause_agrees:
  assumes "\<And>a. agent = Some a \<Longrightarrow> str_strip a = a"
  shows "baseline_agent_clause agent = is_nop_oracle_agent agent"
proof -
  have "normalized_agent agent = str_lower (case agent of None \<Rightarrow> [] | Some a \<Rightarrow> a)"
    using assms by (cases agent) (simp_all add: normalized_agent_def str_lower_strip_def str_strip_def)
  then show ?thesis
    by (auto simp: baseline_agent_clause_def is_nop_oracle_agent_def Let_def NOP_AGENT_PREFIXES_def
      ORACLE_AGENT_PREFIXES_def)
qed

theorem baseline_clause_agrees_witness:
  "baseline_agent_clause (Some ''Agent-Nop-7'') = is_nop_oracle_agent (Some ''Agent-Nop-7'')"
  by (rule baseline_clause_agrees) (simp, code_simp)

text \<open>With blanks around the name they do not.\<close>

lemma baseline_clause_blank: "is_nop_oracle_agent (Some '' nop'')" "\<not> baseline_agent_clause (Some '' nop'')"
  by code_simp+

subsection \<open>What its resolution does\<close>

lemma blocked_trial_ids_eq:
  "trial_job_of (blocked_trial_ids sc db) j \<and> wj_status j = BLOCKED \<longleftrightarrow>
     trial_job_of (scope_trial_ids sc db) j \<and> wj_status j = BLOCKED" if "j \<in> set (db_jobs db)"
  using that by (auto simp: trial_job_of_def blocked_trial_ids_def gated_job_def List.map_filter_def)

lemma gate_rows:
  assumes "ids \<noteq> []"
  shows "db_jobs (unblock_worker_jobs_for_trials now ids db) =
      update_where (\<lambda>j. trial_job_of ids j \<and> wj_status j = BLOCKED)
        (\<lambda>j. j\<lparr>wj_status := QUEUED, wj_available_after := now\<rparr>) (db_jobs db)"
    and "db_trials (unblock_worker_jobs_for_trials now ids db) = db_trials db"
    and "db_runs (unblock_worker_jobs_for_trials now ids db) = db_runs db"
    and "db_leases (unblock_worker_jobs_for_trials now ids db) = db_leases db"
    and "db_tasks (unblock_worker_jobs_for_trials now ids db) = db_tasks db"
    and "db_jobs (cancel_gated_llm_trials now ids reason db) =
      update_where (\<lambda>j. trial_job_of ids j \<and> wj_status j = BLOCKED) (cancelled_job now reason) (db_jobs db)"
    and "db_trials (cancel_gated_llm_trials now ids reason db) =
      update_where (skippable_trial ids) (skipped_trial now reason) (db_trials db)"
    and "db_runs (cancel_gated_llm_trials now ids reason db) = db_runs db"
    and "db_leases (cancel_gated_llm_trials now ids reason db) = db_leases db"
    and "db_tasks (cancel_gated_llm_trials now ids reason db) = db_tasks db"
  using assms by (simp_all add: unblock_worker_jobs_for_trials_def cancel_gated_llm_trials_def)

lemma update_where_cong:
  assumes "\<And>r. r \<in> set t \<Longrightarrow> P r = Q r"
  shows "update_where P f t = update_where Q f t"
  using assms by (induction t) (auto simp: update_where_def)


definition gate_trial :: "string \<Rightarrow> string \<Rightarrow> trial_status \<Rightarrow> py_float option \<Rightarrow> trial_row" where
  "gate_trial i agent status reward = \<lparr>tr_id = i, tr_task_id = ''k'', tr_task_version_id = None,
     tr_experiment_id = ''e'', tr_kind = ''agent'', tr_agent = agent,
     tr_queue_key = (if is_nop_oracle_agent (Some agent) then NOP_ORACLE_QUEUE_KEY else ''q''),
     tr_reward = reward, tr_status = status, tr_environment = None, tr_attempts = 1,
     tr_current_worker_id = None, tr_current_queue_slot = None, tr_next_retry_at = None,
     tr_heartbeat_at = None, tr_error_message = None, tr_superseded_by_trial_id = None, tr_deleted_at = None,
     tr_finished_at = None, tr_stale_reaped_at = None, tr_harbor_stage = None, tr_imported_at = None, tr_has_trajectory = True, tr_created_at = 0,
     tr_name = ''t'', tr_org_id = None, tr_model = None, tr_max_attempts = 3, tr_cost_usd = None, tr_analysis = JNull, tr_analysis_payload = JNull,
     tr_analysis_status = None,
     tr_analysis_error = None, tr_analysis_finished_at = None\<rparr>"

definition gate_db :: queue_db where
  "gate_db = empty_db\<lparr>
     db_tasks := [sample_task],
     db_trials := [gate_trial ''t1'' ''oracle'' Trial_success (Some (Finite 1)),
       gate_trial ''t2'' ''nop'' Trial_success (Some (Finite 0)), gate_trial ''t3'' ''codex'' Trial_queued None],
     db_jobs := [job_row ''j3'' 0 (sample_request\<lparr>er_subject_id := Some ''t3'', er_status := BLOCKED\<rparr>) []]\<rparr>"


end
