(* ===== verification/Job_Lifecycle.thy ===== *)
theory Job_Lifecycle
  imports Queue_Cleanup Baseline_Gate
begin

text \<open>
  What holds of the operations of \<open>Worker_Jobs\<close>: who may change a row and how, the state
  machine of a job over any sequence of operations, and the loop that drains a queue.
\<close>

subsection \<open>One claim\<close>

definition wf_jobs :: "worker_job list \<Rightarrow> bool" where
  "wf_jobs jobs \<longleftrightarrow> distinct (map wj_id jobs)"

lemma job_updates [table_simps]:
  "wj_id (claim_job now ca j) = wj_id j" "wj_id (beat now n e j) = wj_id j"
  "wj_id (mark_success now s j) = wj_id j" "wj_id (mark_failed now m j) = wj_id j"
  "wj_id (mark_retrying now m t j) = wj_id j" "wj_id (reroute_job now r b j) = wj_id j"
  by (simp_all add: claim_job_def beat_def mark_success_def mark_failed_def mark_retrying_def reroute_job_def)

lemma claim_sql_Some:
  assumes "claim_worker_job_sql now skip kinds ca db = (db', Some j')"
  obtains j where "claim_first wj_id (claim_order db ca) (claim_candidate now skip kinds db ca)
        (claim_job now ca) (db_jobs db) = (db_jobs db', Some j)"
    and "j' = claim_job now ca j"
    and "db_leases db' = update_where (bindable_lease ca) (bind_lease now (wj_id j)) (db_leases db)"
    and "db_slots db' = clear_launch ca (db_slots db)"
    and "db_runs db' = db_runs db" and "db_trials db' = db_trials db" and "db_tasks db' = db_tasks db"
    and "ca_capacity_provider ca = None \<or> (\<exists>l \<in> set (db_leases db). bindable_lease ca l)"
proof -
  obtain jobs r where c: "claim_first wj_id (claim_order db ca) (claim_candidate now skip kinds db ca)
      (claim_job now ca) (db_jobs db) = (jobs, r)" by (cases "claim_first wj_id (claim_order db ca)
      (claim_candidate now skip kinds db ca) (claim_job now ca) (db_jobs db)")
  show thesis
  proof (cases r)
    case None
    with assms c show ?thesis by (simp add: claim_worker_job_sql_def)
  next
    case (Some j)
    with assms c show ?thesis
      by (intro that [of j]) (auto simp: claim_worker_job_sql_def split: if_splits)
  qed
qed

text \<open>A candidate of a provider lane comes with the worker's own unbound lease.\<close>

lemma capacity_row_bindable: "capacity_row now ca l \<Longrightarrow> bindable_lease ca l"
  by (simp add: capacity_row_def bindable_lease_def)

lemma claim_sql_None:
  assumes "claim_worker_job_sql now skip kinds ca db = (db', None)"
  shows "db' = db \<and> (\<forall>j \<in> set (db_jobs db). \<not> claim_candidate now skip kinds db ca j)"
proof -
  obtain jobs r where c: "claim_first wj_id (claim_order db ca) (claim_candidate now skip kinds db ca)
      (claim_job now ca) (db_jobs db) = (jobs, r)" by (cases "claim_first wj_id (claim_order db ca)
      (claim_candidate now skip kinds db ca) (claim_job now ca) (db_jobs db)")
  show ?thesis
  proof (cases r)
    case None
    with assms c show ?thesis by (simp add: claim_worker_job_sql_def claim_first_None)
  next
    case (Some j)
    with c have "claim_candidate now skip kinds db ca j" by (auto dest: claim_first_Some)
    then have "ca_capacity_provider ca = None \<or> (\<exists>l \<in> set (db_leases db). bindable_lease ca l)"
      by (auto simp: claim_candidate_def intro: capacity_row_bindable)
    with assms c Some show ?thesis by (simp add: claim_worker_job_sql_def)
  qed
qed

lemma claim_single_cases:
  assumes "claim_single_worker_job now skip kinds ca db = (db', Inr r)"
  shows "claim_worker_job_sql now skip kinds ca db = (db', r)"
    and "ca_capacity_provider ca = capacity_provider_for_execution_lane (ca_execution_lane ca)"
  using assms
  by (cases "claim_worker_job_sql now skip kinds ca db";
      auto simp: claim_single_worker_job_def split: option.splits if_splits)+

subsection \<open>One outcome\<close>

lemma record_status_jobs [simp]:
  "db_jobs (fst (record_status s i w f db)) = update_where (owned_row i w) f (db_jobs db)"
  "db_leases (fst (record_status s i w f db)) = db_leases db"
  "db_trials (fst (record_status s i w f db)) = db_trials db"
  by (simp_all add: record_status_def)

text \<open>
  The job rows after an outcome that is not a reroute: the owned row is marked with the status
  the runner returns, or nothing happens.
\<close>

definition failure_mark :: "int \<Rightarrow> job_failure \<Rightarrow> worker_job_status \<times> int option \<Rightarrow> worker_job \<Rightarrow> worker_job" where
  "failure_mark now f sr = (if fst sr = RETRYING then mark_retrying now (jf_error_message f) (snd sr)
     else mark_failed now (jf_error_message f))"

lemma record_failure_cases:
  assumes "record_failure now jitter worker cj f db = (db', Inr res)"
  obtains status retry_at where "status = RETRYING \<or> status = FAILED"
    and "db_jobs db' = update_where (owned_row (cj_id cj) worker)
      (failure_mark now f (status, retry_at)) (db_jobs db)"
    and "res = (if length (filter (owned_row (cj_id cj) worker) (db_jobs db)) = 1 then Some status else None)"
    and "status = RETRYING \<longleftrightarrow> jf_retryable f \<and> fst (retry_decision cj db) < snd (retry_decision cj db)"
    and "status = RETRYING \<Longrightarrow> cj_kind cj = Kind_trial \<Longrightarrow>
      \<exists>d. calculate_trial_retry_delay_seconds (fst (retry_decision cj db)) (Some (jf_error_message f))
        jitter (jf_retry_after_seconds f) = Inr d \<and> retry_at = Some (now + timedelta d)"
    and "status = RETRYING \<Longrightarrow> cj_kind cj \<noteq> Kind_trial \<Longrightarrow> retry_at = None"
    and "db_leases db' = db_leases db" and "db_runs db' = db_runs db" and "db_slots db' = db_slots db"
proof -
  obtain a m where am: "retry_decision cj db = (a, m)" by (cases "retry_decision cj db")
  show thesis
  proof (cases "jf_retryable f \<and> a < m")
    case False
    with assms am show ?thesis
      by (intro that [of FAILED None]) (auto simp: record_failure_def record_status_def failure_mark_def)
  next
    case True
    obtain retry_at where at: "failure_retry_at now jitter cj a f = Inr retry_at"
      using assms am True by (cases "failure_retry_at now jitter cj a f") (auto simp: record_failure_def)
    have "db_jobs db' = update_where (owned_row (cj_id cj) worker)
        (mark_retrying now (jf_error_message f) retry_at) (db_jobs db)"
      and "res = (if length (filter (owned_row (cj_id cj) worker) (db_jobs db)) = 1 then Some RETRYING else None)"
      and "db_leases db' = db_leases db" "db_runs db' = db_runs db" "db_slots db' = db_slots db"
      using assms am True at by (auto simp: record_failure_def record_status_def Let_def split: if_splits)
    with am True at show ?thesis
      by (intro that [of RETRYING retry_at])
        (auto simp: failure_mark_def failure_retry_at_def bind_err_Inr split: if_splits)
  qed
qed

text \<open>The reroute transaction: nothing, or one update of each of the rows it checked.\<close>

lemma update_one_Inr:
  "update_one e P f t = Inr t' \<longleftrightarrow> length (filter P t) = 1 \<and> t' = update_where P f t"
  by (auto simp: update_one_def)

definition teardown_pending :: "sandbox_run \<Rightarrow> bool" where
  "teardown_pending run \<longleftrightarrow> sr_external_id run \<noteq> None \<and> sr_state run \<noteq> TERMINATED"

definition reroute_target :: "claimed_job \<Rightarrow> string \<Rightarrow> worker_job \<Rightarrow> bool" where
  "reroute_target cj worker j \<longleftrightarrow> wj_id j = cj_id cj \<and> wj_status j = RUNNING \<and>
     wj_current_worker_id j = Some worker \<and> wj_attempts j = cj_attempts cj \<and>
     wj_execution_lane j = ''thunder_trial''"

lemma reroute_updates_Inr:
  assumes "reroute_updates now cj worker r run lease db = Inr db'"
  shows "db_jobs db' = update_where (reroute_target cj worker) (reroute_job now r (teardown_pending run)) (db_jobs db)"
    and "length (filter (reroute_target cj worker) (db_jobs db)) = 1"
    and "db_trials db' = update_where (\<lambda>tr. Some (tr_id tr) = cj_subject_id cj \<and> tr_status tr = Trial_running \<and>
        tr_current_worker_id tr = Some worker \<and> tr_deleted_at tr = None \<and> tr_superseded_by_trial_id tr = None)
        (reroute_trial now (jr_target_environment r)) (db_trials db)"
    and "db_leases db' = (if teardown_pending run then db_leases db
      else update_where (\<lambda>l. lease_id l = lease_id lease \<and> cl_locked_by l = Some worker \<and>
        cl_worker_job_id l = Some (cj_id cj)) unlock_lease (db_leases db))"
    and "db_slots db' = db_slots db"
  using assms
  by (auto simp: reroute_updates_def Let_def bind_err_Inr update_one_Inr teardown_pending_def
    reroute_target_def [abs_def] split: if_splits)

lemma reroute_outcome_cases:
  assumes "record_reroute_outcome now cfg worker cj r db = (db', res)"
  obtains (same) "db' = db" and "\<forall>st. res \<noteq> Inr (Some st)"
  | (moved) j tr run lease where "res = Inr (Some RETRYING)" and "reroute_supported cfg cj r"
      and "reroute_rows cj worker r db = Some (j, tr, run, lease)"
      and "reroute_updates now cj worker r run lease db = Inr db'"
  using assms by (auto simp: record_reroute_outcome_def split: if_splits option.splits sum.splits)

lemma reroute_target_owned: "reroute_target cj worker j \<Longrightarrow> owned_row (cj_id cj) worker j"
  by (simp add: reroute_target_def owned_row_def)

text \<open>Every outcome updates job rows the worker owns, to a status that is not \<open>RUNNING\<close>.\<close>

definition outcome_update :: "claimed_job \<Rightarrow> string \<Rightarrow> queue_db \<Rightarrow> queue_db \<Rightarrow> (worker_job \<Rightarrow> bool) \<Rightarrow>
    (worker_job \<Rightarrow> worker_job) \<Rightarrow> bool" where
  "outcome_update cj worker db db' P f \<longleftrightarrow>
     db_jobs db' = update_where P f (db_jobs db) \<and> (\<forall>j. P j \<longrightarrow> owned_row (cj_id cj) worker j) \<and>
     (\<forall>j. wj_id (f j) = wj_id j \<and> wj_status (f j) \<in> {SUCCESS, FAILED, RETRYING})"

lemma outcome_updates:
  assumes "record_outcome now jitter cfg worker cj oc db = (db', res)"
  obtains P f where "outcome_update cj worker db db' P f"
    and "\<forall>st. res = Inr (Some st) \<longrightarrow> length (filter P (db_jobs db)) = 1 \<and> (\<forall>j. wj_status (f j) = st)"
    and "oc_reroute oc = None \<longrightarrow> P = owned_row (cj_id cj) worker \<or> isl res"
proof -
  have none: "outcome_update cj worker db db (\<lambda>j. False) (mark_failed now [])"
    by (simp add: outcome_update_def mark_failed_def)
  show thesis
  proof (cases "oc_reroute oc")
    case (Some r)
    with assms have "record_reroute_outcome now cfg worker cj r db = (db', res)"
      by (simp add: record_outcome_def)
    then show ?thesis
    proof (cases rule: reroute_outcome_cases)
      case same
      with none Some show ?thesis by (intro that [of "\<lambda>j. False" "mark_failed now []"]) auto
    next
      case (moved j tr run lease)
      note u = reroute_updates_Inr [OF moved(4)]
      have "outcome_update cj worker db db' (reroute_target cj worker) (reroute_job now r (teardown_pending run))"
        using u(1) reroute_target_owned by (simp add: outcome_update_def reroute_job_def)
      with u(2) moved(1) Some show ?thesis
        by (intro that [of "reroute_target cj worker" "reroute_job now r (teardown_pending run)"])
          (auto simp: reroute_job_def)
    qed
  next
    case None
    show ?thesis
    proof (cases "oc_success oc")
      case (Some summary)
      with None assms show ?thesis
        by (intro that [of "owned_row (cj_id cj) worker" "mark_success now summary"])
          (auto simp: record_outcome_def record_status_def outcome_update_def mark_success_def split: if_splits)
    next
      case no_success: None
      show ?thesis
      proof (cases "oc_failure oc")
        case no_failure: None
        with None no_success assms none show ?thesis
          by (intro that [of "\<lambda>j. False" "mark_failed now []"]) (auto simp: record_outcome_def)
      next
        case (Some f)
        with None no_success assms have rf: "record_failure now jitter worker cj f db = (db', res)"
          by (simp add: record_outcome_def)
        show ?thesis
        proof (cases res)
          case (Inl e)
          with rf have "db' = db"
            by (auto simp: record_failure_def record_status_def Let_def split: if_splits sum.splits prod.splits)
          with none Inl show ?thesis by (intro that [of "\<lambda>j. False" "mark_failed now []"]) auto
        next
          case (Inr st)
          from rf [unfolded Inr] show ?thesis
          proof (rule record_failure_cases)
            fix status retry_at
            assume "status = RETRYING \<or> status = FAILED"
              and "db_jobs db' = update_where (owned_row (cj_id cj) worker) (failure_mark now f (status, retry_at)) (db_jobs db)"
              and "st = (if length (filter (owned_row (cj_id cj) worker) (db_jobs db)) = 1 then Some status else None)"
            then show ?thesis using Inr
              by (intro that [of "owned_row (cj_id cj) worker" "failure_mark now f (status, retry_at)"])
                (auto simp: outcome_update_def failure_mark_def mark_retrying_def mark_failed_def split: if_splits)
          qed
        qed
      qed
    qed
  qed
qed

subsection \<open>The state machine of a job\<close>

definition terminal :: "worker_job \<Rightarrow> bool" where
  "terminal j \<longleftrightarrow> wj_status j = SUCCESS \<or> wj_status j = FAILED \<or> wj_status j = CANCELLED"

definition rerouted :: "worker_job \<Rightarrow> int" where
  "rerouted j = (if wj_reroute_from_environment j = None then 0 else 1)"

text \<open>
  What every row satisfies: a running row has an owner and has not used more attempts than its
  limit, a waiting one has no owner and attempts left; a handoff to another provider, which a
  job can do once, leaves it one attempt more.
\<close>

definition job_ok :: "worker_job \<Rightarrow> bool" where
  "job_ok j \<longleftrightarrow> 0 \<le> wj_attempts j \<and> wj_attempts j \<le> wj_max_attempts j + rerouted j \<and>
     (wj_reroute_from_environment j \<noteq> None \<longrightarrow> wj_execution_lane j = ''default'') \<and>
     (case wj_status j of
        RUNNING \<Rightarrow> wj_current_worker_id j \<noteq> None \<and> 1 \<le> wj_attempts j
      | QUEUED \<Rightarrow> wj_current_worker_id j = None \<and> wj_attempts j < wj_max_attempts j + rerouted j
      | RETRYING \<Rightarrow> wj_current_worker_id j = None \<and> wj_attempts j < wj_max_attempts j + rerouted j
      | BLOCKED \<Rightarrow> wj_current_worker_id j = None \<and> wj_attempts j < wj_max_attempts j + rerouted j
      | _ \<Rightarrow> True)"

definition jobs_ok :: "queue_db \<Rightarrow> bool" where
  "jobs_ok db \<longleftrightarrow> wf_jobs (db_jobs db) \<and> (\<forall>j \<in> set (db_jobs db). job_ok j)"

text \<open>
  What the cleanup sweep and the sandbox lifecycle do, each operation as one transaction: the
  ledger rows they create get fresh identifiers.
\<close>

inductive sandbox_step :: "queue_db \<Rightarrow> queue_db \<Rightarrow> bool" where
  reap: "reap_stale_worker_jobs now jitter locked mins db = Inr (db', r) \<Longrightarrow> sandbox_step db db'"
| handoffs: "complete_pending_thunder_capacity_handoffs now skip db = (db', done_rows) \<Longrightarrow> sandbox_step db db'"
| recover: "recover_thunder_inventory_handles now inventory db = (db', n) \<Longrightarrow> sandbox_step db db'"
| provisioned: "mark_environment_provisioned now c provider x w db = (db', res) \<Longrightarrow> sandbox_step db db'"
| create_ec2: "create_ec2_sandbox_run backend i token job attempt trial db = (db', res) \<Longrightarrow>
    i \<notin> sr_id ` set (db_runs db) \<Longrightarrow> sandbox_step db db'"
| create_thunder: "create_thunder_sandbox_run i token job attempt trial db = (db', res) \<Longrightarrow>
    i \<notin> sr_id ` set (db_runs db) \<Longrightarrow> sandbox_step db db'"
| request: "request_sandbox_termination now i err db = (db', res) \<Longrightarrow> sandbox_step db db'"
| run_failed: "sandbox_step db (mark_sandbox_failed i err db)"
| run_terminated: "sandbox_step db (mark_sandbox_terminated now i db)"
| finalize_thunder: "finalize_unprovisioned_thunder_runs touched now grace inventory db = (db', n) \<Longrightarrow>
    sandbox_step db db'"
| finalize_ec2: "finalize_unprovisioned_sandbox_runs touched now grace instances db = (db', n) \<Longrightarrow>
    sandbox_step db db'"
| ec2_orphans: "decide_ec2_orphan_targets instances deployment account now mins db = Inr (db', res) \<Longrightarrow>
    sandbox_step db db'"

text \<open>The baseline gate: arming it and resolving it.\<close>

inductive gate_step :: "queue_db \<Rightarrow> queue_db \<Rightarrow> bool" where
  arm: "gate_step db (block_worker_jobs_for_trials ids db)"
| resolve: "resolve_baseline_gate_for_scope now sc db = (db', res) \<Longrightarrow> gate_step db db'"

inductive job_step :: "queue_db \<Rightarrow> queue_db \<Rightarrow> bool" where
  enqueue: "enqueue_worker_job hooks validate i now r (db_jobs db) = Inr jobs \<Longrightarrow>
    i \<notin> wj_id ` set (db_jobs db) \<Longrightarrow> er_status r \<in> {QUEUED, BLOCKED} \<Longrightarrow> 0 < er_max_attempts r \<Longrightarrow>
    job_step db (db\<lparr>db_jobs := jobs\<rparr>)"
| claim: "claim_single_worker_job now skip kinds ca db = (db', res) \<Longrightarrow> job_step db db'"
| heartbeat: "heartbeat_worker_job now i w pending e db = (db', res) \<Longrightarrow> job_step db db'"
| outcome: "record_outcome now jitter cfg worker cj oc db = (db', res) \<Longrightarrow> job_step db db'"
| stamp: "job_step db (db\<lparr>db_jobs := stamp_dispatch_stage now spawned why (db_jobs db)\<rparr>)"
| sandbox: "sandbox_step db db' \<Longrightarrow> job_step db db'"
| gate: "gate_step db db' \<Longrightarrow> job_step db db'"

inductive_cases job_stepE: "job_step db db'"

inductive jobs_reachable :: "queue_db \<Rightarrow> bool" where
  init: "db_jobs db = [] \<Longrightarrow> db_runs db = [] \<Longrightarrow> jobs_reachable db"
| step: "jobs_reachable db \<Longrightarrow> job_step db db' \<Longrightarrow> jobs_reachable db'"

lemma jobs_ok_update:
  assumes "jobs_ok db" and "db_jobs db' = update_where P f (db_jobs db)"
    and "\<And>j. wj_id (f j) = wj_id j" and "\<And>j. j \<in> set (db_jobs db) \<Longrightarrow> P j \<Longrightarrow> job_ok j \<Longrightarrow> job_ok (f j)"
  shows "jobs_ok db'"
  using assms unfolding jobs_ok_def wf_jobs_def
  by (auto simp: in_update_where update_where_map)

lemma claim_job_ok: "job_ok j \<Longrightarrow> claimable_row now j \<Longrightarrow> job_ok (claim_job now' ca j)"
  by (auto simp: job_ok_def claim_job_def claimable_row_def waiting_status_def rerouted_def)

lemma job_ok_cong:
  assumes "job_ok j" and "wj_status j' = wj_status j" and "wj_attempts j' = wj_attempts j"
    and "wj_max_attempts j' = wj_max_attempts j" and "wj_execution_lane j' = wj_execution_lane j"
    and "wj_reroute_from_environment j' = wj_reroute_from_environment j"
    and "wj_current_worker_id j' = wj_current_worker_id j"
  shows "job_ok j'"
  using assms by (cases "wj_status j") (simp_all add: job_ok_def rerouted_def)

lemma beat_ok: "job_ok j \<Longrightarrow> job_ok (beat now p e j)"
  by (erule job_ok_cong) (simp_all add: beat_def)

lemma find_owned:
  assumes "wf_jobs jobs" and "j \<in> set jobs" and "wj_id j = i"
  shows "find (\<lambda>j. wj_id j = i) jobs = Some j"
proof -
  obtain xs ys where jobs: "jobs = xs @ j # ys" "\<forall>x \<in> set xs \<union> set ys. wj_id x \<noteq> wj_id j"
    by (rule split_by_key [OF assms(1) [unfolded wf_jobs_def] assms(2)])
  then show ?thesis unfolding jobs(1) using assms(3) by (intro find_split) auto
qed

lemma failure_ok:
  assumes "jobs_ok db" and "record_failure now jitter worker cj f db = (db', res)"
  shows "jobs_ok db'"
proof (cases res)
  case (Inl e)
  with assms show ?thesis
    by (auto simp: record_failure_def record_status_def Let_def split: if_splits sum.splits prod.splits)
next
  case (Inr st)
  from assms(2) [unfolded Inr] show ?thesis
  proof (rule record_failure_cases)
    fix status retry_at
    assume status: "status = RETRYING \<or> status = FAILED"
      and jobs: "db_jobs db' = update_where (owned_row (cj_id cj) worker) (failure_mark now f (status, retry_at)) (db_jobs db)"
      and retry: "status = RETRYING \<longleftrightarrow> jf_retryable f \<and> fst (retry_decision cj db) < snd (retry_decision cj db)"
    from assms(1) jobs show ?thesis
    proof (rule jobs_ok_update)
      show "wj_id (failure_mark now f (status, retry_at) j) = wj_id j" for j
        by (simp add: failure_mark_def job_updates)
      fix j
      assume j: "j \<in> set (db_jobs db)" "owned_row (cj_id cj) worker j" "job_ok j"
      then have "retry_decision cj db = (wj_attempts j, wj_max_attempts j)"
        using find_owned [of "db_jobs db" j "cj_id cj"] assms(1)
        by (simp add: retry_decision_def jobs_ok_def owned_row_def)
      with retry j(3) status show "job_ok (failure_mark now f (status, retry_at) j)"
        by (auto simp: job_ok_def failure_mark_def mark_retrying_def mark_failed_def rerouted_def)
    qed
  qed
qed

lemma reroute_ok:
  assumes "jobs_ok db" and "record_reroute_outcome now cfg worker cj r db = (db', res)"
  shows "jobs_ok db'"
  using assms(2)
proof (cases rule: reroute_outcome_cases)
  case same
  with assms(1) show ?thesis by simp
next
  case (moved j tr run lease)
  have lane: "jr_target_execution_lane r = ''default''" using moved(2) by (simp add: reroute_supported_def)
  from assms(1) reroute_updates_Inr(1) [OF moved(4)] show ?thesis
  proof (rule jobs_ok_update)
    show "wj_id (reroute_job now r (teardown_pending run) x) = wj_id x" for x by (simp add: job_updates)
    fix x
    assume "reroute_target cj worker x" "job_ok x"
    with lane show "job_ok (reroute_job now r (teardown_pending run) x)"
      by (auto simp: job_ok_def reroute_target_def reroute_job_def rerouted_def split: if_splits)
  qed
qed

lemma outcome_ok_step:
  assumes "jobs_ok db" and "record_outcome now jitter cfg worker cj oc db = (db', res)"
  shows "jobs_ok db'"
proof (cases "oc_reroute oc")
  case (Some r)
  with assms reroute_ok show ?thesis by (simp add: record_outcome_def)
next
  case None
  show ?thesis
  proof (cases "oc_success oc")
    case (Some summary)
    with None assms(2) have "db_jobs db' = update_where (owned_row (cj_id cj) worker) (mark_success now summary) (db_jobs db)"
      by (auto simp: record_outcome_def record_status_def)
    then show ?thesis
      by (rule jobs_ok_update [OF assms(1)])
        (auto simp: job_updates job_ok_def mark_success_def rerouted_def owned_row_def)
  next
    case no_success: None
    with None assms failure_ok show ?thesis by (auto simp: record_outcome_def split: option.splits)
  qed
qed

text \<open>The stamps touch waiting rows only, and only their two columns.\<close>

definition stamped :: "worker_job \<Rightarrow> worker_job \<Rightarrow> bool" where
  "stamped j j' \<longleftrightarrow> (\<exists>a b. j' = j\<lparr>wj_spawned_at := a, wj_admission_reason := b\<rparr>)"

lemma stamped_refl: "stamped j j"
  unfolding stamped_def by (intro exI [of _ "wj_spawned_at j"] exI [of _ "wj_admission_reason j"]) (cases j, simp)

lemma stamped_trans: "stamped j k \<Longrightarrow> stamped k l \<Longrightarrow> stamped j l"
  unfolding stamped_def by (elim exE, hypsubst) (simp, blast)

definition stamp_only :: "worker_job list \<Rightarrow> worker_job list \<Rightarrow> bool" where
  "stamp_only jobs jobs' \<longleftrightarrow> map wj_id jobs' = map wj_id jobs \<and>
     (\<forall>j \<in> set jobs. \<not> waiting_status (wj_status j) \<longrightarrow> j \<in> set jobs') \<and>
     (\<forall>j' \<in> set jobs'. \<exists>j \<in> set jobs. stamped j j')"

lemma stamp_only_update:
  assumes "\<And>j. j \<in> set jobs \<Longrightarrow> P j \<Longrightarrow> waiting_status (wj_status j)" and "\<And>j. stamped j (f j)"
  shows "stamp_only jobs (update_where P f jobs)"
proof -
  have id: "wj_id (f j) = wj_id j" for j using assms(2) [of j] by (auto simp: stamped_def)
  have "j \<in> set (update_where P f jobs)" if "j \<in> set jobs" "\<not> waiting_status (wj_status j)" for j
    using that assms(1) by (intro update_where_untouched) auto
  moreover have "\<exists>j \<in> set jobs. stamped j j'" if "j' \<in> set (update_where P f jobs)" for j'
    using that assms(2) stamped_refl unfolding in_update_where by metis
  ultimately show ?thesis using id by (simp add: stamp_only_def update_where_map)
qed

lemma stamp_only_trans: "stamp_only a b \<Longrightarrow> stamp_only b c \<Longrightarrow> stamp_only a c"
proof -
  assume ab: "stamp_only a b" and bc: "stamp_only b c"
  have "\<exists>j \<in> set a. stamped j j'" if j': "j' \<in> set c" for j'
  proof -
    obtain m where m: "m \<in> set b" "stamped m j'" using bc j' unfolding stamp_only_def by blast
    obtain j where "j \<in> set a" "stamped j m" using ab m(1) unfolding stamp_only_def by blast
    with m(2) show ?thesis using stamped_trans by blast
  qed
  with ab bc show ?thesis unfolding stamp_only_def by simp
qed

lemma stamp_only_refl: "stamp_only a a"
  unfolding stamp_only_def using stamped_refl by blast

lemma stamp_reason_only: "stamp_only jobs (stamp_reason kr jobs)"
proof -
  have "stamped j (j\<lparr>wj_admission_reason := r\<rparr>)" for j r
    unfolding stamped_def by (intro exI [of _ "wj_spawned_at j"] exI [of _ r]) (cases j, simp)
  then show ?thesis
    unfolding stamp_reason_def by (intro stamp_only_update) (auto simp: stampable_def)
qed

lemma stamp_spawned_only:
  assumes "wf_jobs jobs"
  shows "stamp_only jobs (stamp_spawned now ks jobs)"
proof (cases "snd ks \<le> 0")
  case True
  then show ?thesis by (cases ks) (simp add: stamp_spawned_def stamp_only_refl)
next
  case False
  let ?rows = "filter (\<lambda>j. stampable (fst ks) j \<and> wj_spawned_at j = None) jobs"
  let ?ids = "map wj_id (take (nat (snd ks)) (sort_key stamp_order ?rows))"
  have "waiting_status (wj_status j)" if "j \<in> set jobs" "wj_id j \<in> set ?ids" for j
  proof -
    from that(2) obtain x where x: "x \<in> set (take (nat (snd ks)) (sort_key stamp_order ?rows))" "wj_id x = wj_id j"
      by auto
    from in_set_takeD [OF x(1)] have "x \<in> set jobs" "stampable (fst ks) x" by auto
    with that(1) x(2) assms have "x = j" by (metis distinct_map inj_onD wf_jobs_def)
    with \<open>stampable (fst ks) x\<close> show ?thesis by (simp add: stampable_def)
  qed
  moreover have "stamped j (j\<lparr>wj_spawned_at := Some now, wj_admission_reason := None\<rparr>)" for j
    unfolding stamped_def by blast
  ultimately have "stamp_only jobs (update_where (\<lambda>j. wj_id j \<in> set ?ids)
      (\<lambda>j. j\<lparr>wj_spawned_at := Some now, wj_admission_reason := None\<rparr>) jobs)"
    by (intro stamp_only_update)
  with False show ?thesis by (cases ks) (simp add: stamp_spawned_def Let_def)
qed

lemma stamp_stage_only:
  assumes "wf_jobs jobs"
  shows "stamp_only jobs (stamp_dispatch_stage now spawned why jobs)"
proof -
  have reasons: "stamp_only jobs (fold stamp_reason why jobs)" for jobs
  proof (induction why arbitrary: jobs)
    case (Cons kr why)
    from stamp_only_trans [OF stamp_reason_only Cons.IH] show ?case by simp
  qed (simp add: stamp_only_refl)
  have spawn: "stamp_only jobs (fold (stamp_spawned now) ks jobs)" if "wf_jobs jobs" for jobs ks
    using that
  proof (induction ks arbitrary: jobs)
    case (Cons k ks)
    have s: "stamp_only jobs (stamp_spawned now k jobs)" by (rule stamp_spawned_only [OF Cons.prems])
    then have "wf_jobs (stamp_spawned now k jobs)" using Cons.prems by (simp add: stamp_only_def wf_jobs_def)
    from stamp_only_trans [OF s Cons.IH [OF this]] show ?case by simp
  qed (simp add: stamp_only_refl)
  have "wf_jobs (fold stamp_reason why jobs)"
    using reasons [of jobs] assms by (simp add: stamp_only_def wf_jobs_def)
  from stamp_only_trans [OF reasons spawn [OF this]] show ?thesis by (simp add: stamp_dispatch_stage_def)
qed

text \<open>A claim and a heartbeat, as updates of the job rows.\<close>

lemma claim_single_jobs:
  assumes "claim_single_worker_job now skip kinds ca db = (db', res)"
  shows "db_jobs db' = db_jobs db \<or> (\<exists>j. claim_candidate now skip kinds db ca j \<and> j \<in> set (db_jobs db) \<and>
      db_jobs db' = update_where (\<lambda>x. wj_id x = wj_id j) (claim_job now ca) (db_jobs db))"
proof -
  have sql: "db_jobs db2 = db_jobs db \<or> (\<exists>j. claim_candidate now skip kinds db ca j \<and> j \<in> set (db_jobs db) \<and>
      db_jobs db2 = update_where (\<lambda>x. wj_id x = wj_id j) (claim_job now ca) (db_jobs db))"
    if "claim_worker_job_sql now skip kinds ca db = (db2, r)" for db2 r
  proof (cases r)
    case None
    with that claim_sql_None show ?thesis by blast
  next
    case (Some j')
    from that [unfolded Some] show ?thesis
      by (rule claim_sql_Some) (auto dest: claim_first_Some)
  qed
  obtain db2 r where "claim_worker_job_sql now skip kinds ca db = (db2, r)"
    by (cases "claim_worker_job_sql now skip kinds ca db")
  with assms sql [OF this] show ?thesis
    by (auto simp: claim_single_worker_job_def split: option.splits if_splits)
qed

lemma heartbeat_jobs:
  "heartbeat_worker_job now i w pending e db = (db', res) \<Longrightarrow>
     db_jobs db' = update_where (owned_running i w) (beat now pending e) (db_jobs db)"
  by (auto simp: heartbeat_worker_job_def Let_def)

lemma same_id: "wf_jobs jobs \<Longrightarrow> j \<in> set jobs \<Longrightarrow> x \<in> set jobs \<Longrightarrow> wj_id x = wj_id j \<Longrightarrow> x = j"
  by (metis distinct_map inj_onD wf_jobs_def)

text \<open>
  What the sandbox operations and the sweep do to the job rows: an update of rows that are not
  terminal, to rows that are as well formed as before. Such updates compose.
\<close>

definition jobs_evolve :: "worker_job list \<Rightarrow> worker_job list \<Rightarrow> bool" where
  "jobs_evolve jobs jobs' \<longleftrightarrow> map wj_id jobs' = map wj_id jobs \<and>
     (\<forall>j \<in> set jobs. terminal j \<longrightarrow> j \<in> set jobs') \<and>
     (\<forall>j' \<in> set jobs'. \<exists>j \<in> set jobs. job_ok j \<longrightarrow> job_ok j')"

lemma evolve_refl [simp]: "jobs_evolve jobs jobs"
  unfolding jobs_evolve_def by blast

lemma evolve_trans: "jobs_evolve a b \<Longrightarrow> jobs_evolve b c \<Longrightarrow> jobs_evolve a c"
  unfolding jobs_evolve_def by metis

lemma evolve_wf: "jobs_evolve a b \<Longrightarrow> wf_jobs a \<Longrightarrow> wf_jobs b"
  by (simp add: jobs_evolve_def wf_jobs_def)

lemma evolve_ok: "jobs_evolve (db_jobs db) (db_jobs db') \<Longrightarrow> jobs_ok db \<Longrightarrow> jobs_ok db'"
  unfolding jobs_ok_def using evolve_wf by (metis jobs_evolve_def)

lemma evolve_update:
  assumes "\<And>j. wj_id (f j) = wj_id j" and "\<And>j. j \<in> set jobs \<Longrightarrow> P j \<Longrightarrow> \<not> terminal j"
    and "\<And>j. j \<in> set jobs \<Longrightarrow> P j \<Longrightarrow> job_ok j \<Longrightarrow> job_ok (f j)"
  shows "jobs_evolve jobs (update_where P f jobs)"
proof -
  have "j \<in> set (update_where P f jobs)" if "j \<in> set jobs" "terminal j" for j
    using that assms(2) by (intro update_where_untouched) auto
  moreover have "\<exists>j \<in> set jobs. job_ok j \<longrightarrow> job_ok j'" if "j' \<in> set (update_where P f jobs)" for j'
    using that assms(3) unfolding in_update_where by metis
  ultimately show ?thesis using assms(1) by (simp add: jobs_evolve_def update_where_map)
qed

text \<open>The same for an update by identifier, of one known row.\<close>

lemma evolve_update_id:
  assumes "wf_jobs jobs" and "j \<in> set jobs" and "\<not> terminal j" and "wj_id j = i"
    and "\<And>j. wj_id (f j) = wj_id j" and "job_ok j \<Longrightarrow> job_ok (f j)"
  shows "jobs_evolve jobs (update_where (\<lambda>x. wj_id x = i) f jobs)"
proof (rule evolve_update [OF assms(5)])
  fix x
  assume x: "x \<in> set jobs" "wj_id x = i"
  then have [simp]: "x = j" using same_id [OF assms(1,2) x(1)] assms(4) by simp
  from assms(3) show "\<not> terminal x" by simp
  show "job_ok (f x)" if "job_ok x" using that assms(6) by simp
qed

lemma reap_job_ok: "job_ok j \<Longrightarrow> stale_heartbeat now mins j \<Longrightarrow> job_ok (reap_job now' mins j)"
  by (auto simp: job_ok_def reap_job_def Let_def rerouted_def stale_heartbeat_def)

lemma reap_job_id [simp]: "wj_id (reap_job now mins j) = wj_id j"
  by (simp add: reap_job_def Let_def)

text \<open>The mirror changes at most the retry time of the row it mirrors.\<close>

lemma mirror_jobs:
  assumes "mirror_stale_job now jitter locked j db = Inr (db', t)"
  shows "db_jobs db' = db_jobs db \<or> (wj_status j = RETRYING \<and>
    (\<exists>t. db_jobs db' = update_where (\<lambda>x. wj_id x = wj_id j)
       (\<lambda>x. x\<lparr>wj_next_retry_at := Some t, wj_available_after := t\<rparr>) (db_jobs db)))"
proof -
  have analysis: "db_jobs db' = db_jobs db" if "mirror_analysis now locked j s db = Inr (db', t)" for s
  proof (cases "the_trial locked s db")
    case (Inr found)
    with that show ?thesis by (cases found) (auto simp: mirror_analysis_def)
  qed (use that in \<open>simp add: mirror_analysis_def\<close>)
  have audit: "db_jobs db' = db_jobs db" if "mirror_audit now locked j s db = Inr (db', t)" for s
  proof (cases "the_task locked s db")
    case (Inr found)
    with that show ?thesis by (cases found) (auto simp: mirror_audit_def split: option.splits)
  qed (use that in \<open>simp add: mirror_audit_def\<close>)
  have qa: "db_jobs db' = db_jobs db" if "mirror_qa now locked j s db = Inr (db', t)" for s
  proof (cases "the_task locked s db")
    case (Inr found)
    with that show ?thesis by (cases found) (auto simp: mirror_qa_def Let_def split: if_splits)
  qed (use that in \<open>simp add: mirror_qa_def\<close>)
  have trial: ?thesis if m: "mirror_trial now jitter locked j s db = Inr (db', t)" for s
  proof (cases "the_trial locked s db")
    case (Inr found)
    show ?thesis
    proof (cases "found = None \<or> wj_status j \<noteq> RETRYING")
      case True
      with m Inr show ?thesis by (cases found) (auto simp: mirror_trial_def)
    next
      case False
      show ?thesis
      proof (cases "calculate_trial_retry_delay_seconds (wj_attempts j) (wj_error_message j) jitter None")
        case (Inl e)
        with m Inr False show ?thesis by (auto simp: mirror_trial_def)
      next
        case delay: (Inr d)
        from m Inr False have "db_jobs db' = update_where (\<lambda>x. wj_id x = wj_id j)
            (\<lambda>x. x\<lparr>wj_next_retry_at := Some (now + timedelta d), wj_available_after := now + timedelta d\<rparr>) (db_jobs db)"
          by (auto simp: mirror_trial_def delay Let_def)
        with False show ?thesis by blast
      qed
    qed
  qed (use m in \<open>simp add: mirror_trial_def\<close>)
  show ?thesis
  proof (cases "truthy (wj_subject_id j)")
    case None
    with assms show ?thesis by (simp add: mirror_stale_job_def)
  next
    case (Some s)
    note m = assms [unfolded mirror_stale_job_def Some option.case]
    show ?thesis
    proof (cases "wj_kind j")
      case Kind_trial
      with m trial show ?thesis by simp
    next
      case Kind_analysis
      with m analysis show ?thesis by simp
    next
      case Kind_qa
      with m audit qa show ?thesis by (cases "payload_get j ''mode'' = Some ''pre_trial''") simp_all
    qed (use m in simp_all)
  qed
qed

lemma unlink_evolve:
  assumes "wf_jobs (db_jobs db)" and "x \<in> set (db_jobs db)" and "wj_id x = wj_id j"
    and "wj_status x = wj_status j"
  shows "jobs_evolve (db_jobs db) (db_jobs (unlink_retry j db))"
proof (cases "wj_status j = RETRYING \<and> truthy (wj_external_id j) \<noteq> None")
  case True
  then have "\<not> terminal x" using assms(4) by (simp add: terminal_def)
  have "jobs_evolve (db_jobs db) (update_where (\<lambda>x. wj_id x = wj_id j)
      (\<lambda>x. x\<lparr>wj_external_id := None, wj_provider := None\<rparr>) (db_jobs db))"
    by (rule evolve_update_id [OF assms(1,2) \<open>\<not> terminal x\<close> assms(3)]) (auto intro: job_ok_cong)
  with True show ?thesis by (simp add: unlink_retry_def)
qed (auto simp: unlink_retry_def)

lemma reap_one_cases:
  assumes "reap_one now jitter locked mins i db = Inr (db', Some jt)"
  obtains j db1 where "j \<in> set (db_jobs db)" and "wj_id j = i" and "stale_heartbeat now mins j"
    and "fst jt = reap_job now mins j"
    and "db1 = db\<lparr>db_jobs := update_where (\<lambda>j. wj_id j = i \<and> stale_heartbeat now mins j)
        (reap_job now mins) (db_jobs db)\<rparr>"
    and "mirror_stale_job now (jitter i) locked (reap_job now mins j) db1 = Inr (db', snd jt)"
proof (cases "find (\<lambda>j. wj_id j = i \<and> stale_heartbeat now mins j) (db_jobs db)")
  case None
  with assms show ?thesis by (simp add: reap_one_def)
next
  case (Some j)
  from find_SomeD [OF Some] have j: "j \<in> set (db_jobs db)" "wj_id j = i" "stale_heartbeat now mins j"
    by simp_all
  let ?db1 = "db\<lparr>db_jobs := update_where (\<lambda>j. wj_id j = i \<and> stale_heartbeat now mins j)
        (reap_job now mins) (db_jobs db)\<rparr>"
  have "bind_err (mirror_stale_job now (jitter i) locked (reap_job now mins j) ?db1)
      (\<lambda>(db2, trial). Inr (db2, Some (reap_job now mins j, trial))) = Inr (db', Some jt)"
    using assms Some unfolding reap_one_def by (simp only: option.case Let_def)
  then have "fst jt = reap_job now mins j"
    "mirror_stale_job now (jitter i) locked (reap_job now mins j) ?db1 = Inr (db', snd jt)"
    by (cases "mirror_stale_job now (jitter i) locked (reap_job now mins j) ?db1"; auto)+
  with j show thesis by (intro that [of j ?db1]) simp_all
qed

lemma reap_one_evolve:
  assumes "reap_one now jitter locked mins i db = Inr (db', Some jt)" and "wf_jobs (db_jobs db)"
  shows "jobs_evolve (db_jobs db) (db_jobs (unlink_retry (fst jt) db'))"
proof -
  obtain j db1 where j: "j \<in> set (db_jobs db)" "wj_id j = i" "stale_heartbeat now mins j"
      "fst jt = reap_job now mins j"
    and db1: "db1 = db\<lparr>db_jobs := update_where (\<lambda>j. wj_id j = i \<and> stale_heartbeat now mins j)
        (reap_job now mins) (db_jobs db)\<rparr>"
    and m: "mirror_stale_job now (jitter i) locked (reap_job now mins j) db1 = Inr (db', snd jt)"
    by (rule reap_one_cases [OF assms(1)])
  let ?r = "reap_job now mins j"
  have e1: "jobs_evolve (db_jobs db) (db_jobs db1)"
  proof -
    have "jobs_evolve (db_jobs db) (update_where (\<lambda>j. wj_id j = i \<and> stale_heartbeat now mins j)
        (reap_job now mins) (db_jobs db))"
      by (rule evolve_update) (auto simp: stale_heartbeat_def terminal_def intro: reap_job_ok)
    then show ?thesis by (simp add: db1)
  qed
  note wf1 = evolve_wf [OF e1 assms(2)]
  have in1: "?r \<in> set (db_jobs db1)" using j unfolding db1 by (force simp: in_update_where)
  have both: "jobs_evolve (db_jobs db1) (db_jobs db') \<and>
      (\<exists>x \<in> set (db_jobs db'). wj_id x = wj_id ?r \<and> wj_status x = wj_status ?r)"
    using mirror_jobs [OF m]
  proof (elim disjE conjE exE)
    assume "db_jobs db' = db_jobs db1"
    with in1 show ?thesis by (intro conjI bexI [of _ ?r]) simp_all
  next
    fix t
    assume st: "wj_status ?r = RETRYING"
      and u: "db_jobs db' = update_where (\<lambda>x. wj_id x = wj_id ?r)
         (\<lambda>x. x\<lparr>wj_next_retry_at := Some t, wj_available_after := t\<rparr>) (db_jobs db1)"
    have "\<not> terminal ?r" using st by (simp add: terminal_def)
    have "jobs_evolve (db_jobs db1) (db_jobs db')"
      unfolding u by (rule evolve_update_id [OF wf1 in1 \<open>\<not> terminal ?r\<close> refl]) (auto intro: job_ok_cong)
    moreover have "?r\<lparr>wj_next_retry_at := Some t, wj_available_after := t\<rparr> \<in> set (db_jobs db')"
      unfolding u in_update_where using in1 by (intro bexI [of _ ?r]) auto
    ultimately show ?thesis by (intro conjI bexI) auto
  qed
  note wf2 = evolve_wf [OF conjunct1 [OF both] wf1]
  from both obtain x where x: "x \<in> set (db_jobs db')" "wj_id x = wj_id ?r" "wj_status x = wj_status ?r"
    by blast
  from evolve_trans [OF e1 evolve_trans [OF conjunct1 [OF both] unlink_evolve [OF wf2 x]]]
  show ?thesis unfolding j(4) .
qed

lemma reap_loop_evolve:
  "reap_loop now jitter locked mins is db r = Inr (db', r') \<Longrightarrow> wf_jobs (db_jobs db) \<Longrightarrow>
     jobs_evolve (db_jobs db) (db_jobs db')"
proof (induction now jitter locked mins "is" db r rule: reap_loop.induct)
  case (2 now jitter locked mins i "is" db r)
  show ?case
  proof (cases "reap_one now jitter locked mins i db")
    case (Inl e)
    with 2 show ?thesis by (cases e) auto
  next
    case (Inr p)
    obtain db1 o1 where p: "p = (db1, o1)" by (cases p)
    show ?thesis
    proof (cases o1)
      case None
      then have "db1 = db"
        using Inr p by (auto simp: reap_one_def Let_def bind_err_Inr split: option.splits)
      with 2 Inr p None show ?thesis by auto
    next
      case (Some jt)
      with Inr p have e: "reap_one now jitter locked mins i db = Inr (db1, Some jt)" by simp
      note ev = reap_one_evolve [OF e 2(5)]
      from 2(3) [OF Inr p [symmetric] Some] 2(4) e evolve_wf [OF ev 2(5)]
      have "jobs_evolve (db_jobs (unlink_retry (fst jt) db1)) (db_jobs db')" by simp
      with evolve_trans [OF ev] show ?thesis by blast
    qed
  qed
qed simp

lemma reap_evolve:
  "reap_stale_worker_jobs now jitter locked mins db = Inr (db', r) \<Longrightarrow> wf_jobs (db_jobs db) \<Longrightarrow>
     jobs_evolve (db_jobs db) (db_jobs db')"
  unfolding reap_stale_worker_jobs_def by (rule reap_loop_evolve)

lemma handoff_evolve: "jobs_evolve (db_jobs (fst acc)) (db_jobs (fst (complete_handoff now row acc)))"
proof -
  have "jobs_evolve jobs (update_where (handoff_job i) (release_handoff now) jobs)" for i jobs
  proof (rule evolve_update)
    show "\<not> terminal j" if "handoff_job i j" for j using that by (auto simp: handoff_job_def terminal_def)
    show "job_ok (release_handoff now j)" if "job_ok j" for j
      by (rule job_ok_cong [OF that]) (simp_all add: release_handoff_def)
  qed (simp add: release_handoff_def)
  then show ?thesis by (simp add: complete_handoff_def Let_def split: prod.splits)
qed

lemma fold_evolve:
  assumes "\<And>x acc. jobs_evolve (db_jobs (fst acc)) (db_jobs (fst (f x acc)))"
  shows "jobs_evolve (db_jobs (fst acc)) (db_jobs (fst (fold f xs acc)))"
proof (induction xs arbitrary: acc)
  case (Cons x xs)
  from evolve_trans [OF assms Cons.IH] show ?case by simp
qed simp

lemma recover_evolve: "jobs_evolve (db_jobs (fst acc)) (db_jobs (fst (recover_thunder_handle now snap acc)))"
proof -
  obtain db n where acc: "acc = (db, n)" by (cases acc)
  show ?thesis
  proof (cases "find (recoverable_run (ts_name snap)) (db_runs db)")
    case (Some run)
    have "jobs_evolve (db_jobs db) (update_where (\<lambda>j. wj_id j = sr_worker_job_id run \<and> wj_status j = RUNNING \<and>
        wj_attempts j = sr_worker_job_attempt run)
      (\<lambda>j. j\<lparr>wj_provider := Some ''thunder'', wj_external_id := Some (ts_external_id snap)\<rparr>) (db_jobs db))"
      by (rule evolve_update) (auto simp: terminal_def intro: job_ok_cong)
    with Some show ?thesis by (simp add: acc recover_thunder_handle_def Let_def)
  qed (simp add: acc recover_thunder_handle_def Let_def)
qed

lemma handle_refusal_kind: "handle_refusal c provider x = Some e \<Longrightarrow> \<exists>m. e = Lifecycle_error m"
  by (auto simp: handle_refusal_def Let_def split: if_splits option.splits prod.splits)

lemma lost_worker_other [simp]:
  "Lifecycle_error m \<noteq> lost_worker c" "lost_worker c \<noteq> Lifecycle_error m"
  by (simp_all add: lost_worker_def)

lemma provisioned_cases:
  assumes "mark_environment_provisioned now c provider x w db = (db', res)"
  obtains (same) "db' = db" and "res \<noteq> Inr ()"
      and "res \<noteq> Inl (lost_worker c)"
  | (late) h run worker where "handle_refusal c provider x = None" and "x = Some h"
      and "find (\<lambda>j. wj_id j = lc_worker_job_id c) (db_jobs db) = Some worker"
      and "find (\<lambda>r. sr_id r = lc_sandbox_run_id c) (db_runs db) = Some run"
      and "\<not> worker_matches c w worker \<or> sr_state run = TERMINATING"
      and "sr_external_id run = None \<or> sr_external_id run = Some h"
      and "db' = with_run (lc_sandbox_run_id c) (persist_late_handle now h) db"
      and "res = Inl (lost_worker c)"
  | (live) h run worker where "handle_refusal c provider x = None" and "x = Some h"
      and "find (\<lambda>j. wj_id j = lc_worker_job_id c) (db_jobs db) = Some worker"
      and "find (\<lambda>r. sr_id r = lc_sandbox_run_id c) (db_runs db) = Some run"
      and "worker_matches c w worker" and "sr_state run \<noteq> TERMINATING" and "sr_state run \<noteq> TERMINATED"
      and "sr_external_id run = None \<or> sr_external_id run = Some h"
      and "db_runs db' = update_where (\<lambda>r. sr_id r = lc_sandbox_run_id c)
        (\<lambda>r. (persist_handle now h r)\<lparr>sr_state := Run_running\<rparr>) (db_runs db)"
      and "db_jobs db' = update_where (\<lambda>j. wj_id j = lc_worker_job_id c)
        (\<lambda>j. j\<lparr>wj_provider := Some (lc_provider c), wj_external_id := Some h,
           wj_sandbox_creating_at := first_set (wj_sandbox_creating_at j) now\<rparr>) (db_jobs db)"
      and "res = Inr ()"
proof (cases "handle_refusal c provider x")
  case (Some e)
  with handle_refusal_kind [OF Some] assms same show thesis by (auto simp: mark_environment_provisioned_def)
next
  case ok: None
  then obtain h where x: "x = Some h"
    by (auto simp: handle_refusal_def Let_def split: option.splits if_splits)
  show thesis
  proof (cases "find (\<lambda>j. wj_id j = lc_worker_job_id c) (db_jobs db)")
    case None
    with ok assms same show thesis by (auto simp: mark_environment_provisioned_def)
  next
    case worker: (Some worker)
    show thesis
    proof (cases "find (\<lambda>r. sr_id r = lc_sandbox_run_id c) (db_runs db)")
      case None
      with ok worker assms same show thesis by (auto simp: mark_environment_provisioned_def)
    next
      case run: (Some run)
      note result = assms [unfolded mark_environment_provisioned_def x ok [unfolded x] option.case Let_def worker run prod.case option.sel]
      show thesis
      proof (cases "sr_external_id run \<noteq> None \<and> sr_external_id run \<noteq> Some h")
        case True
        with result same show thesis by (auto simp: lost_worker_def split: if_splits)
      next
        case False
        then have ext: "sr_external_id run = None \<or> sr_external_id run = Some h" by blast
        show thesis
        proof (cases "\<not> worker_matches c w worker \<or> sr_state run = TERMINATING")
          case True
          with result False show thesis by (intro late [OF ok x worker run True ext]) (auto simp: with_run_def)
        next
          case m: False
          show thesis
          proof (cases "sr_state run = TERMINATED")
            case True
            with result m same show thesis by (auto simp: lost_worker_def)
          next
            case t: False
            from result have "(db', res) = (db\<lparr>db_runs := update_where (\<lambda>r. sr_id r = lc_sandbox_run_id c)
                 (\<lambda>r. (persist_handle now h r)\<lparr>sr_state := Run_running\<rparr>) (db_runs db),
               db_jobs := update_where (\<lambda>j. wj_id j = lc_worker_job_id c)
                 (\<lambda>j. j\<lparr>wj_provider := Some (lc_provider c), wj_external_id := Some h,
                    wj_sandbox_creating_at := first_set (wj_sandbox_creating_at j) now\<rparr>) (db_jobs db)\<rparr>, Inr ())"
              using m t False by (simp only: if_False refl)
            with m t show thesis by (intro live [OF ok x worker run _ _ t ext]) simp_all
          qed
        qed
      qed
    qed
  qed
qed

lemma provisioned_evolve:
  assumes "mark_environment_provisioned now c provider x w db = (db', res)" and "wf_jobs (db_jobs db)"
  shows "jobs_evolve (db_jobs db) (db_jobs db')"
  using assms(1)
proof (cases rule: provisioned_cases)
  case (live h run worker)
  from find_SomeD [OF live(3)] have j: "worker \<in> set (db_jobs db)" "wj_id worker = lc_worker_job_id c" by auto
  have "\<not> terminal worker" using live(5) by (simp add: worker_matches_def terminal_def)
  then show ?thesis
    unfolding live(10) by (intro evolve_update_id [OF assms(2) j(1) _ j(2)]) (auto intro: job_ok_cong)
qed (simp_all add: with_run_def)

lemma sandbox_step_evolve:
  assumes "sandbox_step db db'" and "wf_jobs (db_jobs db)"
  shows "jobs_evolve (db_jobs db) (db_jobs db')"
  using assms
proof (induction rule: sandbox_step.induct)
  case (reap now jitter locked mins db db' r)
  then show ?case by (rule reap_evolve)
next
  case (handoffs now skip db db' done_rows)
  with fold_evolve [of "complete_handoff now" "(db, [])" "pending_handoffs skip db", OF handoff_evolve]
  show ?case by (simp add: complete_pending_thunder_capacity_handoffs_def)
next
  case (recover now inventory db db' n)
  with fold_evolve [of "recover_thunder_handle now" "(db, 0)", OF recover_evolve]
  show ?case by (simp add: recover_thunder_inventory_handles_def) (metis fst_conv)
next
  case (provisioned now c provider x w db db' res)
  then show ?case by (rule provisioned_evolve)
next
  case (ec2_orphans instances deployment account now mins db db' res)
  then show ?case by (auto simp: decide_ec2_orphan_targets_def bind_err_Inr)
next
  case (create_ec2 backend i token job attempt trial db db' res)
  then show ?case
    by (auto simp: create_ec2_sandbox_run_def create_run_transaction_def Let_def split: option.splits sum.splits if_splits)
next
  case (create_thunder i token job attempt trial db db' res)
  then show ?case
    by (auto simp: create_thunder_sandbox_run_def create_run_transaction_def Let_def split: option.splits if_splits)
qed (auto simp: request_sandbox_termination_def mark_sandbox_failed_def mark_sandbox_terminated_def with_run_def
  finalize_unprovisioned_thunder_runs_def finalize_unprovisioned_sandbox_runs_def Let_def)

lemma gate_step_evolve:
  assumes "gate_step db db'"
  shows "jobs_evolve (db_jobs db) (db_jobs db')" and "db_runs db' = db_runs db"
  using assms
proof (induction rule: gate_step.induct)
  case (arm db ids)
  {
    case 1
    show ?case
      by (auto simp: block_worker_jobs_for_trials_def terminal_def job_ok_def rerouted_def intro!: evolve_update)
  next
    case 2
    show ?case by (simp add: block_worker_jobs_for_trials_def)
  }
next
  case (resolve now sc db db' res)
  have released: "jobs_evolve (db_jobs db) (db_jobs (unblock_worker_jobs_for_trials now ids db))"
      "db_runs (unblock_worker_jobs_for_trials now ids db) = db_runs db" for ids
    by (auto simp: unblock_worker_jobs_for_trials_def terminal_def job_ok_def rerouted_def intro!: evolve_update)
  have cancelled: "jobs_evolve (db_jobs db) (db_jobs (cancel_gated_llm_trials now ids reason db))"
      "db_runs (cancel_gated_llm_trials now ids reason db) = db_runs db" for ids reason
    by (auto simp: cancel_gated_llm_trials_def cancelled_job_def terminal_def job_ok_def rerouted_def intro!: evolve_update)
  have "(\<exists>ids. db' = unblock_worker_jobs_for_trials now ids db) \<or>
      (\<exists>ids reason. db' = cancel_gated_llm_trials now ids reason db) \<or> db' = db"
    using resolve by (auto simp: resolve_baseline_gate_for_scope_def Let_def split: if_splits prod.splits gate_outcome.splits)
  then show "jobs_evolve (db_jobs db) (db_jobs db')" "db_runs db' = db_runs db"
    using released cancelled by auto
qed

lemma job_step_ok:
  assumes "job_step db db'" and "jobs_ok db"
  shows "jobs_ok db'"
  using assms
proof (induction rule: job_step.induct)
  case (enqueue hooks validate i now r db jobs)
  from enqueue(1) obtain p where "jobs = db_jobs db @ [job_row i now r p]"
    by (auto simp: enqueue_worker_job_def bind_err_Inr)
  moreover have "job_ok (job_row i now r p)"
    using enqueue(3,4) by (auto simp: job_ok_def job_row_def rerouted_def)
  moreover have "wj_id (job_row i now r p) = i" by (simp add: job_row_def)
  ultimately show ?case using enqueue(2,5) by (auto simp: jobs_ok_def wf_jobs_def)
next
  case (claim now skip kinds ca db db' res)
  from claim_single_jobs [OF claim(1)] show ?case
  proof
    assume "db_jobs db' = db_jobs db"
    with claim(2) show ?thesis by (simp add: jobs_ok_def)
  next
    assume "\<exists>j. claim_candidate now skip kinds db ca j \<and> j \<in> set (db_jobs db) \<and>
      db_jobs db' = update_where (\<lambda>x. wj_id x = wj_id j) (claim_job now ca) (db_jobs db)"
    then obtain j where j: "claim_candidate now skip kinds db ca j" "j \<in> set (db_jobs db)"
      and u: "db_jobs db' = update_where (\<lambda>x. wj_id x = wj_id j) (claim_job now ca) (db_jobs db)" by blast
    from claim(2) u show ?thesis
    proof (rule jobs_ok_update)
      fix x
      assume x: "x \<in> set (db_jobs db)" "wj_id x = wj_id j" "job_ok x"
      then have "x = j" using same_id [OF _ j(2) x(1)] claim(2) by (simp add: jobs_ok_def)
      with j(1) x(3) show "job_ok (claim_job now ca x)"
        by (auto simp: claim_candidate_def intro: claim_job_ok)
    qed (simp add: job_updates)
  qed
next
  case (heartbeat now i w pending e db db' res)
  from heartbeat(2) heartbeat_jobs [OF heartbeat(1)] show ?case
    by (rule jobs_ok_update) (simp_all add: job_updates beat_ok)
next
  case (outcome now jitter cfg worker cj oc db db' res)
  from outcome_ok_step [OF outcome(2,1)] show ?case .
next
  case (stamp db now spawned why)
  then have wf: "wf_jobs (db_jobs db)" by (simp add: jobs_ok_def)
  have s: "stamp_only (db_jobs db) (stamp_dispatch_stage now spawned why (db_jobs db))"
    by (rule stamp_stage_only [OF wf])
  have "job_ok j'" if j': "j' \<in> set (stamp_dispatch_stage now spawned why (db_jobs db))" for j'
  proof -
    obtain j where j: "j \<in> set (db_jobs db)" "stamped j j'" using s j' unfolding stamp_only_def by blast
    with stamp have "job_ok j" by (simp add: jobs_ok_def)
    then show ?thesis by (rule job_ok_cong) (use j(2) in \<open>auto simp: stamped_def\<close>)
  qed
  with s wf show ?case by (simp add: jobs_ok_def wf_jobs_def stamp_only_def)
next
  case (sandbox db db')
  from evolve_ok [OF sandbox_step_evolve [OF sandbox(1)]] sandbox(2) show ?case by (simp add: jobs_ok_def)
next
  case (gate db db')
  from evolve_ok [OF gate_step_evolve(1) [OF gate(1)] gate(2)] show ?case .
qed

lemma jobs_reachable_ok: "jobs_reachable db \<Longrightarrow> jobs_ok db"
proof (induction rule: jobs_reachable.induct)
  case (init db)
  then show ?case by (simp add: jobs_ok_def wf_jobs_def)
next
  case (step db db')
  from job_step_ok [OF step(2,3)] show ?case .
qed

text \<open>A terminal row survives every operation unchanged.\<close>

lemma job_step_terminal:
  assumes "job_step db db'" and "wf_jobs (db_jobs db)" and "j \<in> set (db_jobs db)" and "terminal j"
  shows "j \<in> set (db_jobs db')"
  using assms
proof (induction rule: job_step.induct)
  case (enqueue hooks validate i now r db jobs)
  then show ?case by (auto simp: enqueue_worker_job_def bind_err_Inr)
next
  case (claim now skip kinds ca db db' res)
  from claim_single_jobs [OF claim(1)] show ?case
  proof
    assume "\<exists>c. claim_candidate now skip kinds db ca c \<and> c \<in> set (db_jobs db) \<and>
      db_jobs db' = update_where (\<lambda>x. wj_id x = wj_id c) (claim_job now ca) (db_jobs db)"
    then obtain c where c: "claim_candidate now skip kinds db ca c" "c \<in> set (db_jobs db)"
      and u: "db_jobs db' = update_where (\<lambda>x. wj_id x = wj_id c) (claim_job now ca) (db_jobs db)" by blast
    have "wj_id j \<noteq> wj_id c"
    proof
      assume "wj_id j = wj_id c"
      then have "j = c" by (rule same_id [OF claim(2) c(2) claim(3)])
      with c(1) claim(4) show False
        by (auto simp: claim_candidate_def claimable_row_def waiting_status_def terminal_def)
    qed
    with claim(3) show ?thesis unfolding u by (intro update_where_untouched) auto
  qed (use claim(3) in simp)
next
  case (heartbeat now i w pending e db db' res)
  then show ?case unfolding heartbeat_jobs [OF heartbeat(1)]
    by (intro update_where_untouched) (auto simp: owned_running_def terminal_def)
next
  case (outcome now jitter cfg worker cj oc db db' res)
  from outcome(1) obtain P f where "outcome_update cj worker db db' P f" by (rule outcome_updates)
  then have "db_jobs db' = update_where P f (db_jobs db)" "\<not> P j"
    using outcome(4) by (auto simp: outcome_update_def owned_row_def terminal_def)
  with outcome(3) show ?case by (simp add: update_where_untouched)
next
  case (stamp db now spawned why)
  have "stamp_only (db_jobs db) (stamp_dispatch_stage now spawned why (db_jobs db))"
    by (rule stamp_stage_only [OF stamp(1)])
  with stamp(2,3) show ?case by (auto simp: stamp_only_def terminal_def waiting_status_def)
next
  case (sandbox db db')
  from sandbox_step_evolve [OF sandbox(1,2)] sandbox(3,4) show ?case by (simp add: jobs_evolve_def)
next
  case (gate db db')
  from gate_step_evolve(1) [OF gate(1)] gate(3,4) show ?case by (simp add: jobs_evolve_def)
qed

subsection \<open>Properties of a job's life\<close>

text \<open>
  C3. A claim takes exactly one job and the best one: the returned row was waiting, due, of the
  asked queue, variant and lane, and no other candidate has a higher priority, or the same with
  fewer running trials of its user, or the same and an earlier creation; it now runs under the
  worker with one attempt more, and no other row changed.
\<close>

theorem claim_takes_best_job:
  assumes "wf_jobs (db_jobs db)"
    and "claim_single_worker_job now skip kinds ca db = (db', Inr (Some j'))"
  shows "\<exists>xs j ys. db_jobs db = xs @ j # ys \<and> db_jobs db' = xs @ j' # ys \<and>
    wj_id j' = wj_id j \<and> wj_status j' = RUNNING \<and> wj_current_worker_id j' = Some (ca_worker_id ca) \<and>
    wj_attempts j' = wj_attempts j + 1 \<and> wj_status j \<in> {QUEUED, RETRYING} \<and>
    wj_available_after j \<le> now \<and> \<not> wj_reroute_pending_teardown j \<and> wj_kind j \<in> set kinds \<and>
    wj_queue_key j = ca_queue_key ca \<and> matches_opt (ca_harbor_variant_id ca) (wj_harbor_variant_id j) \<and>
    matches_opt (ca_execution_lane ca) (wj_execution_lane j) \<and>
    (\<forall>x \<in> set (db_jobs db). claim_candidate now skip kinds db ca x \<longrightarrow>
       (- wj_priority j, running_count db ca j, wj_created_at j)
         \<le> (- wj_priority x, running_count db ca x, wj_created_at x))"
proof -
  from claim_single_cases(1) [OF assms(2)] show ?thesis
  proof (rule claim_sql_Some)
    fix j
    assume c: "claim_first wj_id (claim_order db ca) (claim_candidate now skip kinds db ca)
        (claim_job now ca) (db_jobs db) = (db_jobs db', Some j)" and j': "j' = claim_job now ca j"
    obtain xs ys where split: "db_jobs db = xs @ j # ys" "db_jobs db' = xs @ claim_job now ca j # ys"
      "claim_candidate now skip kinds db ca j"
      by (rule claim_first_split [OF c assms(1) [unfolded wf_jobs_def]])
    note best = claim_first_Some(4) [OF c, unfolded claim_order_def]
    show ?thesis
      by (intro exI [of _ xs] exI [of _ j] exI [of _ ys] conjI ballI impI)
        (use split j' best in \<open>simp_all add: claim_job_def claim_candidate_def claimable_row_def waiting_status_def\<close>)
  qed
qed


text \<open>
  C10. Only the owner records an outcome: rows that are not running under the calling worker
  are untouched, so a worker that lost its job, was cancelled or finished before changes
  nothing and is told so; a status is returned exactly of the one row that now has it.
\<close>

theorem outcome_only_by_owner:
  assumes "wf_jobs (db_jobs db)" and "record_outcome now jitter cfg worker cj oc db = (db', res)"
  shows "(\<forall>j \<in> set (db_jobs db).
      \<not> (wj_id j = cj_id cj \<and> wj_status j = RUNNING \<and> wj_current_worker_id j = Some worker) \<longrightarrow> j \<in> set (db_jobs db')) \<and>
    ((\<forall>j \<in> set (db_jobs db). \<not> (wj_id j = cj_id cj \<and> wj_status j = RUNNING \<and> wj_current_worker_id j = Some worker)) \<longrightarrow>
       db_jobs db' = db_jobs db \<and> (\<forall>st. res \<noteq> Inr (Some st))) \<and>
    (\<forall>st. res = Inr (Some st) \<longrightarrow> st \<in> {SUCCESS, FAILED, RETRYING} \<and>
       (\<exists>j \<in> set (db_jobs db'). wj_id j = cj_id cj \<and> wj_status j = st))"
proof -
  from assms(2) obtain P f where u: "outcome_update cj worker db db' P f"
    and st: "\<forall>st. res = Inr (Some st) \<longrightarrow> length (filter P (db_jobs db)) = 1 \<and> (\<forall>j. wj_status (f j) = st)"
    and "oc_reroute oc = None \<longrightarrow> P = owned_row (cj_id cj) worker \<or> isl res"
    by (rule outcome_updates)
  from u have jobs: "db_jobs db' = update_where P f (db_jobs db)"
    and own: "\<And>j. P j \<Longrightarrow> owned_row (cj_id cj) worker j"
    and upd: "\<And>j. wj_id (f j) = wj_id j" "\<And>j. wj_status (f j) \<in> {SUCCESS, FAILED, RETRYING}"
    unfolding outcome_update_def by blast+
  have "j \<in> set (db_jobs db')" if "j \<in> set (db_jobs db)" "\<not> owned_row (cj_id cj) worker j" for j
    unfolding jobs using that own by (intro update_where_untouched) auto
  moreover have "db_jobs db' = db_jobs db \<and> (\<forall>st. res \<noteq> Inr (Some st))"
    if none: "\<forall>j \<in> set (db_jobs db). \<not> owned_row (cj_id cj) worker j"
  proof -
    have no: "\<not> P j" if "j \<in> set (db_jobs db)" for j using none own that by blast
    then have "filter P (db_jobs db) = []" by simp
    with st have "\<forall>st. res \<noteq> Inr (Some st)" by fastforce
    with no jobs show ?thesis by simp
  qed
  moreover have "st' \<in> {SUCCESS, FAILED, RETRYING} \<and> (\<exists>j \<in> set (db_jobs db'). wj_id j = cj_id cj \<and> wj_status j = st')"
    if "res = Inr (Some st')" for st'
  proof -
    from st that have one: "length (filter P (db_jobs db)) = 1" and s: "\<And>j. wj_status (f j) = st'" by auto
    from one obtain j where j: "filter P (db_jobs db) = [j]" by (auto simp: length_Suc_conv)
    then have "j \<in> set (filter P (db_jobs db))" by simp
    then have "j \<in> set (db_jobs db)" "P j" by auto
    then have "f j \<in> set (db_jobs db')" unfolding jobs by (auto simp: in_update_where)
    moreover have "wj_id (f j) = cj_id cj" using own [OF \<open>P j\<close>] upd(1) by (simp add: owned_row_def)
    ultimately show ?thesis using s upd(2) by metis
  qed
  ultimately show ?thesis unfolding owned_row_def [symmetric] by blast
qed

subsection \<open>Sample rows\<close>

definition queued_db :: queue_db where
  "queued_db = empty_db\<lparr>db_jobs := [job_row ''j1'' 0 sample_request [],
     job_row ''j2'' 0 (sample_request\<lparr>er_priority := 5\<rparr>) []]\<rparr>"

definition sample_claim :: claim_args where
  "sample_claim = \<lparr>ca_queue_key = ''q'', ca_worker_id = ''w'', ca_queue_slot = 0, ca_modal_function_call_id = None,
     ca_harbor_variant_id = Some ''default'', ca_execution_lane = Some ''default'', ca_priority_class = None,
     ca_org_id = None, ca_capacity_provider = None, ca_capacity_slot = None\<rparr>"

definition sample_claimed :: "queue_db \<times> (exc + worker_job option)" where
  "sample_claimed = claim_single_worker_job 1 (\<lambda>j. False) [Kind_trial] sample_claim queued_db"

definition claimed_db :: queue_db where
  "claimed_db = fst sample_claimed"

definition claimed_j2 :: worker_job where
  "claimed_j2 = claim_job 1 sample_claim (job_row ''j2'' 0 (sample_request\<lparr>er_priority := 5\<rparr>) [])"

lemma sample_claim_runs:
  "claim_single_worker_job 1 (\<lambda>j. False) [Kind_trial] sample_claim queued_db = (claimed_db, Inr (Some claimed_j2))"
  unfolding claimed_db_def sample_claimed_def by code_simp

lemma queued_db_wf: "wf_jobs (db_jobs queued_db)"
  by (simp add: wf_jobs_def queued_db_def job_row_def)

theorem claim_takes_best_job_witness:
  "\<exists>xs j ys. db_jobs queued_db = xs @ j # ys \<and> db_jobs claimed_db = xs @ claimed_j2 # ys \<and>
     wj_status claimed_j2 = RUNNING \<and> wj_attempts claimed_j2 = wj_attempts j + 1"
  using claim_takes_best_job [OF queued_db_wf sample_claim_runs] by blast

lemma claimed_db_reachable: "jobs_reachable claimed_db"
proof -
  let ?db1 = "empty_db\<lparr>db_jobs := [job_row ''j1'' 0 sample_request []]\<rparr>"
  have "jobs_reachable empty_db" by (rule jobs_reachable.init) (simp_all add: empty_db_def)
  moreover have "job_step empty_db ?db1"
    by (rule job_step.enqueue [where hooks = "\<lambda>k. None" and validate = True and i = "''j1''" and now = 0
        and r = sample_request])
      (simp_all add: enqueue_worker_job_def validated_payload_def empty_db_def sample_request_def)
  ultimately have "jobs_reachable ?db1" by (rule jobs_reachable.step)
  moreover have "job_step ?db1 (?db1\<lparr>db_jobs := db_jobs queued_db\<rparr>)"
    by (rule job_step.enqueue [where hooks = "\<lambda>k. None" and validate = True and i = "''j2''" and now = 0
        and r = "sample_request\<lparr>er_priority := 5\<rparr>"])
      (simp_all add: enqueue_worker_job_def validated_payload_def queued_db_def sample_request_def job_row_def)
  ultimately have "jobs_reachable (?db1\<lparr>db_jobs := db_jobs queued_db\<rparr>)" by (rule jobs_reachable.step)
  moreover have "?db1\<lparr>db_jobs := db_jobs queued_db\<rparr> = queued_db" by (simp add: queued_db_def)
  ultimately have "jobs_reachable queued_db" by simp
  then show ?thesis by (rule jobs_reachable.step) (rule job_step.claim [OF sample_claim_runs])
qed

definition sample_cj :: claimed_job where
  "sample_cj = claimed_of claimed_j2"

definition finished_db :: queue_db where
  "finished_db = fst (record_outcome 2 0 \<lparr>rs_thunder_capacity_fallback = False, rs_thunder_fallback_provider = []\<rparr>
     ''w'' sample_cj (outcome_ok None) claimed_db)"

lemma finished_db_runs:
  "record_outcome 2 0 \<lparr>rs_thunder_capacity_fallback = False, rs_thunder_fallback_provider = []\<rparr>
     ''w'' sample_cj (outcome_ok None) claimed_db = (finished_db, Inr (Some SUCCESS))"
  unfolding finished_db_def by code_simp


theorem outcome_only_by_owner_witness:
  "\<exists>j \<in> set (db_jobs finished_db). wj_id j = ''j2'' \<and> wj_status j = SUCCESS"
proof -
  have "wf_jobs (db_jobs claimed_db)"
    using jobs_reachable_ok [OF claimed_db_reachable] by (simp add: jobs_ok_def)
  from outcome_only_by_owner [OF this finished_db_runs]
  have "\<exists>j \<in> set (db_jobs finished_db). wj_id j = cj_id sample_cj \<and> wj_status j = SUCCESS" by blast
  then show ?thesis by (simp add: sample_cj_def claimed_of_def claimed_j2_def claim_job_def job_row_def)
qed

subsection \<open>Capacity, retries and handoffs\<close>


definition sample_ec2_claim :: claim_args where
  "sample_ec2_claim = sample_claim\<lparr>ca_execution_lane := Some ''ec2_trial'',
     ca_capacity_provider := Some ''ec2'', ca_capacity_slot := Some 0\<rparr>"

definition ec2_db :: queue_db where
  "ec2_db = empty_db\<lparr>db_jobs := [job_row ''j1'' 0 (sample_request\<lparr>er_execution_lane := ''ec2_trial''\<rparr>) []],
     db_leases := [take_lease 0 ''w'' 120 (empty_lease ''ec2'' 0)]\<rparr>"


text \<open>The owned row of a job is unique.\<close>

lemma owned_unique:
  assumes "wf_jobs jobs" and "j \<in> set jobs" and "owned_row i w j"
  shows "filter (owned_row i w) jobs = [j]"
proof -
  obtain xs ys where s: "jobs = xs @ j # ys" "\<forall>x \<in> set xs \<union> set ys. wj_id x \<noteq> wj_id j"
    by (rule split_by_key [OF assms(1) [unfolded wf_jobs_def] assms(2)])
  have "filter (owned_row i w) xs = []" "filter (owned_row i w) ys = []"
    using s(2) assms(3) by (auto simp: filter_empty_conv owned_row_def)
  then show ?thesis unfolding s(1) using assms(3) by simp
qed

lemma timedelta_bounds:
  assumes "of_int a \<le> d" and "d \<le> of_int b"
  shows "1000000 * a \<le> timedelta d" and "timedelta d \<le> 1000000 * b"
proof -
  let ?y = "d * 1000000"
  have f: "timedelta d = floor ?y \<or> timedelta d = floor ?y + 1 \<and> of_int (floor ?y) < ?y"
    unfolding timedelta_def Let_def by auto
  have "of_int (1000000 * a) \<le> ?y" using assms(1) by simp
  then have lo: "1000000 * a \<le> floor ?y" by (simp only: le_floor_iff)
  with f show "1000000 * a \<le> timedelta d" by linarith
  have hi: "?y \<le> of_int (1000000 * b)" using assms(2) by simp
  then have le: "floor ?y \<le> 1000000 * b" by (metis floor_mono floor_of_int)
  show "timedelta d \<le> 1000000 * b"
  proof (cases "timedelta d = floor ?y")
    case True
    with le show ?thesis by simp
  next
    case False
    with f have t: "timedelta d = floor ?y + 1" "of_int (floor ?y) < ?y" by auto
    then have "of_int (floor ?y) < (of_int (1000000 * b) :: rat)" using hi by linarith
    then have "floor ?y < 1000000 * b" by (simp only: of_int_less_iff)
    with t show ?thesis by linarith
  qed
qed

lemma delay_range:
  assumes "calculate_trial_retry_delay_seconds a m jitter ra = Inr d"
  shows "30 \<le> d" and "d \<le> 1800"
proof -
  have "\<not> 1024 \<le> nat (max (a - 1) 0)"
    using assms by (auto simp: calculate_trial_retry_delay_seconds_def Let_def split: if_splits)
  then have "a \<le> 1024" by linarith
  from delay_value [OF this, of m jitter ra] assms have d: "d = delay_of (base_of m) a jitter ra" by simp
  have base: "30 \<le> base_of m" "base_of m \<le> 1800" by (simp_all add: base_of_def)
  with delay_of_bounds [of "base_of m" a jitter ra] show "30 \<le> d" "d \<le> 1800" unfolding d by linarith+
qed

text \<open>
  C27. Whether a failed attempt is retried is decided on the row as it is: the failure of a
  running job is retried exactly when it is retryable and the row, whose limit an operator may
  have lowered since the claim, has attempts left; a retried row is free again, a trial's not
  before half a minute and not after half an hour, and otherwise the row ends as failed.
\<close>

theorem failure_decision:
  assumes "wf_jobs (db_jobs db)" and "j \<in> set (db_jobs db)" and "owned_row (cj_id cj) worker j"
    and "record_outcome now jitter cfg worker cj
      \<lparr>oc_success = None, oc_failure = Some f, oc_reroute = None\<rparr> db = (db', Inr res)"
  shows "\<exists>j' \<in> set (db_jobs db'). wj_id j' = wj_id j \<and> wj_error_message j' = Some (jf_error_message f) \<and>
    (if jf_retryable f \<and> wj_attempts j < wj_max_attempts j
     then res = Some RETRYING \<and> wj_status j' = RETRYING \<and> wj_current_worker_id j' = None \<and>
       (if cj_kind cj = Kind_trial
        then now + 30000000 \<le> wj_available_after j' \<and> wj_available_after j' \<le> now + 1800000000
        else wj_available_after j' = now)
     else res = Some FAILED \<and> wj_status j' = FAILED \<and> wj_finished_at j' = Some now)"
proof -
  have "record_failure now jitter worker cj f db = (db', Inr res)"
    using assms(4) by (simp add: record_outcome_def)
  then show ?thesis
  proof (rule record_failure_cases)
    fix status retry_at
    assume st: "status = RETRYING \<or> status = FAILED"
      and jobs: "db_jobs db' = update_where (owned_row (cj_id cj) worker) (failure_mark now f (status, retry_at)) (db_jobs db)"
      and res: "res = (if length (filter (owned_row (cj_id cj) worker) (db_jobs db)) = 1 then Some status else None)"
      and retry: "status = RETRYING \<longleftrightarrow> jf_retryable f \<and> fst (retry_decision cj db) < snd (retry_decision cj db)"
      and trial: "status = RETRYING \<Longrightarrow> cj_kind cj = Kind_trial \<Longrightarrow>
        \<exists>d. calculate_trial_retry_delay_seconds (fst (retry_decision cj db)) (Some (jf_error_message f))
          jitter (jf_retry_after_seconds f) = Inr d \<and> retry_at = Some (now + timedelta d)"
      and other: "status = RETRYING \<Longrightarrow> cj_kind cj \<noteq> Kind_trial \<Longrightarrow> retry_at = None"
    have "retry_decision cj db = (wj_attempts j, wj_max_attempts j)"
      using find_owned [OF assms(1,2)] assms(3) by (simp add: retry_decision_def owned_row_def)
    with retry have dec: "status = RETRYING \<longleftrightarrow> jf_retryable f \<and> wj_attempts j < wj_max_attempts j" by simp
    let ?j' = "failure_mark now f (status, retry_at) j"
    have in': "?j' \<in> set (db_jobs db')" unfolding jobs using assms(2,3) by (auto simp: in_update_where)
    have res': "res = Some status" using res owned_unique [OF assms(1-3)] by simp
    have range: "now + 30000000 \<le> wj_available_after ?j' \<and> wj_available_after ?j' \<le> now + 1800000000"
      if r: "status = RETRYING" "cj_kind cj = Kind_trial"
    proof -
      from trial [OF r] obtain d where d: "calculate_trial_retry_delay_seconds (fst (retry_decision cj db))
          (Some (jf_error_message f)) jitter (jf_retry_after_seconds f) = Inr d" "retry_at = Some (now + timedelta d)"
        by blast
      from timedelta_bounds [of 30 d 1800] delay_range [OF d(1)]
      have "30000000 \<le> timedelta d" "timedelta d \<le> 1800000000" by simp_all
      with r(1) d(2) show ?thesis by (simp add: failure_mark_def mark_retrying_def)
    qed
    show ?thesis
      using in' res' dec st range other
      by (intro bexI [OF _ in'])
        (auto simp: failure_mark_def mark_retrying_def mark_failed_def)
  qed
qed

theorem failure_decision_witness:
  "\<exists>j' \<in> set (db_jobs (fst (record_outcome 2 0 \<lparr>rs_thunder_capacity_fallback = False, rs_thunder_fallback_provider = []\<rparr>
      ''w'' sample_cj (outcome_fail ''boom'' True None) claimed_db))).
     wj_status j' = RETRYING \<and> 30000002 \<le> wj_available_after j'"
proof -
  let ?run = "record_outcome 2 0 \<lparr>rs_thunder_capacity_fallback = False, rs_thunder_fallback_provider = []\<rparr>
      ''w'' sample_cj (outcome_fail ''boom'' True None) claimed_db"
  have wf: "wf_jobs (db_jobs claimed_db)"
    using jobs_reachable_ok [OF claimed_db_reachable] by (simp add: jobs_ok_def)
  have j: "claimed_j2 \<in> set (db_jobs claimed_db)" "owned_row (cj_id sample_cj) ''w'' claimed_j2"
    unfolding claimed_db_def by code_simp+
  have oc: "outcome_fail ''boom'' True None = \<lparr>oc_success = None, oc_failure = Some \<lparr>jf_error_message = ''boom'',
      jf_retryable = True, jf_retry_after_seconds = None\<rparr>, oc_reroute = None\<rparr>"
    by (simp add: outcome_fail_def)
  have "\<not> isl (snd ?run)"
  proof -
    have "retry_decision sample_cj claimed_db = (1, 2)" by code_simp
    moreover have "cj_kind sample_cj = Kind_trial" by code_simp
    ultimately show ?thesis
      by (simp add: outcome_fail_def record_outcome_def record_failure_def failure_retry_at_def Let_def
        delay_value split: prod.splits)
  qed
  then have run: "?run = (fst ?run, Inr (projr (snd ?run)))" by simp
  have n: "jf_retryable \<lparr>jf_error_message = ''boom'', jf_retryable = True, jf_retry_after_seconds = None\<rparr>
      \<and> wj_attempts claimed_j2 < wj_max_attempts claimed_j2" "cj_kind sample_cj = Kind_trial"
    by code_simp+
  from failure_decision [OF wf j run [unfolded oc]] n show ?thesis unfolding oc by auto
qed


definition thunder_job :: worker_job where
  "thunder_job = (claim_job 1 sample_claim (job_row ''j1'' 0 (sample_request\<lparr>er_execution_lane := ''thunder_trial''\<rparr>) []))
     \<lparr>wj_provider := Some ''thunder'', wj_external_id := Some ''x''\<rparr>"

definition thunder_db :: queue_db where
  "thunder_db = empty_db\<lparr>db_jobs := [thunder_job],
     db_trials := [\<lparr>tr_id = ''t1'', tr_task_id = ''k'', tr_task_version_id = None, tr_experiment_id = ''e'',
       tr_kind = ''agent'', tr_agent = ''codex'', tr_queue_key = ''q'', tr_reward = None, tr_status = Trial_running, tr_environment = Some ''thunder'',
       tr_attempts = 1, tr_current_worker_id = Some ''w'', tr_current_queue_slot = None, tr_next_retry_at = None,
       tr_heartbeat_at = None, tr_error_message = None, tr_superseded_by_trial_id = None, tr_deleted_at = None,
       tr_finished_at = None, tr_stale_reaped_at = None, tr_harbor_stage = None, tr_imported_at = None, tr_has_trajectory = True, tr_created_at = 0,
     tr_name = ''t'', tr_org_id = None, tr_model = None, tr_max_attempts = 3, tr_cost_usd = None, tr_analysis = JNull, tr_analysis_payload = JNull,
     tr_analysis_status = None,
       tr_analysis_error = None, tr_analysis_finished_at = None\<rparr>],
     db_runs := [sample_run\<lparr>sr_worker_job_id := ''j1'', sr_trial_id := ''t1'', sr_provider := ''thunder''\<rparr>],
     db_leases := [bind_lease 1 ''j1'' (take_lease 0 ''w'' 120 (empty_lease ''thunder'' 0))]\<rparr>"

definition sample_reroute :: job_reroute where
  "sample_reroute = \<lparr>jr_target_environment = ''daytona'', jr_target_execution_lane = ''default'',
     jr_reason = THUNDER_CAPACITY_UNAVAILABLE_CODE, jr_retry_after_seconds = None, jr_subject_attempt = Some 1\<rparr>"

definition sample_reroute_run :: "queue_db \<times> (exc + worker_job_status option)" where
  "sample_reroute_run = record_reroute_outcome 5
     \<lparr>rs_thunder_capacity_fallback = True, rs_thunder_fallback_provider = ''daytona''\<rparr> ''w''
     (claimed_of thunder_job) sample_reroute thunder_db"


subsection \<open>Draining\<close>

lemma drain_loop_terminates:
  assumes "\<And>s s'. run s = (s', Inr True) \<Longrightarrow> clock s + \<delta> \<le> clock s'" and "0 < \<delta>"
  shows "\<exists>s' r. drain_loop run clock deadline s n = Some (s', r) \<and>
    (\<forall>m. r = Inr m \<longrightarrow> m \<le> n + 1 \<or> (int m - int n - 1) * \<delta> < deadline - clock s)"
proof (induction "nat (deadline - clock s)" arbitrary: s n rule: less_induct)
  case less
  obtain s1 res where run: "run s = (s1, res)" by (cases "run s")
  show ?case
  proof (cases res)
    case (Inl e)
    with run show ?thesis by (subst drain_loop.simps) simp
  next
    case (Inr found)
    show ?thesis
    proof (cases "found \<and> clock s1 < deadline")
      case False
      with run Inr show ?thesis by (subst drain_loop.simps) auto
    next
      case True
      with run Inr have adv: "clock s + \<delta> \<le> clock s1" using assms(1) by simp
      with True assms(2) have "nat (deadline - clock s1) < nat (deadline - clock s)" by linarith
      from less [OF this, of "Suc n"] obtain s' r where
        ih: "drain_loop run clock deadline s1 (Suc n) = Some (s', r)"
          "\<forall>m. r = Inr m \<longrightarrow> m \<le> Suc n + 1 \<or> (int m - int (Suc n) - 1) * \<delta> < deadline - clock s1" by blast
      have "drain_loop run clock deadline s n = Some (s', r)"
        using run Inr True ih(1) by (subst drain_loop.simps) simp
      moreover have "m \<le> n + 1 \<or> (int m - int n - 1) * \<delta> < deadline - clock s" if "r = Inr m" for m
      proof -
        from ih(2) that consider "m \<le> n + 1" | "m = n + 2" | "(int m - int (Suc n) - 1) * \<delta> < deadline - clock s1"
          by fastforce
        then show ?thesis
        proof cases
          case 2
          have "\<delta> < deadline - clock s" using adv True by linarith
          with 2 show ?thesis by simp
        next
          case 3
          have "(int m - int n - 1) * \<delta> = (int m - int (Suc n) - 1) * \<delta> + \<delta>" by (simp add: algebra_simps)
          with 3 adv show ?thesis by linarith
        qed simp
      qed
      ultimately show ?thesis by blast
    qed
  qed
qed

text \<open>
  C29. Draining ends: when every job that runs takes some time at least, the loop returns, and
  all jobs but the last fit into the budget at that pace.
\<close>

theorem drain_worker_jobs_terminates:
  assumes "\<And>s s'. run s = (s', Inr True) \<Longrightarrow> clock s + \<delta> \<le> clock s'" and "0 < \<delta>"
  shows "\<exists>s' r. drain_worker_jobs run clock budget s = Some (s', r) \<and>
    (\<forall>m. r = Inr m \<longrightarrow> m \<le> 1 \<or> (int m - 1) * \<delta> < budget)"
  using drain_loop_terminates [of run clock \<delta> "clock s + budget" s 0, OF assms]
  by (simp add: drain_worker_jobs_def)

theorem drain_worker_jobs_terminates_witness:
  "\<exists>s' r. drain_worker_jobs (\<lambda>s. (s + 3, Inr (s < 7))) (\<lambda>s. s) 8 (0 :: int) = Some (s', r) \<and>
     (\<forall>m. r = Inr m \<longrightarrow> m \<le> 1 \<or> (int m - 1) * 3 < 8)"
  by (rule drain_worker_jobs_terminates) auto

subsection \<open>A whole run\<close>

lemma outcome_recorded:
  assumes "wf_jobs (db_jobs db)" and "j \<in> set (db_jobs db)" and "owned_row (cj_id cj) worker j"
    and "oc_reroute oc = None" and "record_outcome now jitter cfg worker cj oc db = (db', Inr res)"
  shows "res \<noteq> None \<and> \<not> (\<exists>x \<in> set (db_jobs db'). owned_row (cj_id cj) worker x)"
proof -
  note one = owned_unique [OF assms(1-3)]
  from assms(5) obtain P f where u: "outcome_update cj worker db db' P f"
    and "\<forall>st. (Inr res :: exc + worker_job_status option) = Inr (Some st) \<longrightarrow>
        length (filter P (db_jobs db)) = 1 \<and> (\<forall>j. wj_status (f j) = st)"
    and P: "oc_reroute oc = None \<longrightarrow> P = owned_row (cj_id cj) worker \<or> isl (Inr res :: exc + worker_job_status option)"
    by (rule outcome_updates)
  then have P: "P = owned_row (cj_id cj) worker" using assms(4) by simp
  have "\<not> owned_row (cj_id cj) worker x" if x: "x \<in> set (db_jobs db')" for x
  proof -
    from x u obtain y where y: "x = (if owned_row (cj_id cj) worker y then f y else y)"
      unfolding outcome_update_def P by (auto simp: in_update_where)
    have "wj_status (f y) \<noteq> RUNNING" using u unfolding outcome_update_def by (metis (no_types, lifting)
      empty_iff insert_iff worker_job_status.distinct)
    with y show ?thesis by (auto simp: owned_row_def)
  qed
  moreover have "res \<noteq> None"
  proof (cases "oc_success oc")
    case (Some summary)
    with assms(4,5) one show ?thesis by (auto simp: record_outcome_def record_status_def)
  next
    case None
    show ?thesis
    proof (cases "oc_failure oc")
      case no: None
      with None assms(4,5) show ?thesis by (simp add: record_outcome_def)
    next
      case (Some f)
      with None assms(4,5) have "record_failure now jitter worker cj f db = (db', Inr res)"
        by (simp add: record_outcome_def)
      then show ?thesis by (rule record_failure_cases) (simp add: one)
    qed
  qed
  ultimately show ?thesis by blast
qed

lemma claim_kwargs_worker [simp]: "ca_worker_id (claim_kwargs ca) = ca_worker_id ca"
  by (simp add: claim_kwargs_def Let_def)


definition sample_env :: run_env where
  "sample_env = \<lparr>re_claim_now = 1, re_outcome_now = 2, re_jitter = 0, re_skip = (\<lambda>j. False),
     re_registry = [(Kind_trial, \<lparr>ha_kind = Kind_trial, ha_identity = 0\<rparr>)],
     re_handler_result = (\<lambda>j. Inr \<lparr>oc_success = None, oc_failure = None, oc_reroute = None\<rparr>),
     re_meanwhile = (\<lambda>d. d), re_hooks = [], re_settings =
       \<lparr>rs_thunder_capacity_fallback = False, rs_thunder_fallback_provider = []\<rparr>\<rparr>"


end
