(* ===== verification/Ledger_Lifecycle.thy ===== *)
theory Ledger_Lifecycle
  imports Job_Lifecycle
begin

text \<open>
  The ledger of remote sandboxes over every operation of the system: what a row may become, what
  the arrival of a provider handle does when the job is lost, and how creating a row twice is
  one row.
\<close>

subsection \<open>What a row may become\<close>

definition run_identity :: "sandbox_run \<Rightarrow> sandbox_launch_context" where
  "run_identity r = context_from_run r"

definition closing :: "sandbox_run_state \<Rightarrow> bool" where
  "closing s \<longleftrightarrow> s = TERMINATING \<or> s = TERMINATED"

text \<open>
  With a handle, teardown cannot be undone and a terminated run stays terminated; without one,
  only the arrival of a handle from the provider's inventory reopens it.
\<close>

definition state_progress :: "bool \<Rightarrow> sandbox_run_state \<Rightarrow> bool \<Rightarrow> sandbox_run_state \<Rightarrow> bool" where
  "state_progress h s h' s' \<longleftrightarrow> (h \<longrightarrow> h') \<and> (s' = PROVISIONING \<longrightarrow> s = PROVISIONING) \<and>
     (s = TERMINATED \<and> (h \<or> \<not> h') \<longrightarrow> s' = TERMINATED) \<and>
     (s = TERMINATED \<longrightarrow> closing s') \<and>
     (s = TERMINATING \<and> (h \<or> \<not> h') \<longrightarrow> closing s')"

definition run_progress :: "sandbox_run \<Rightarrow> sandbox_run \<Rightarrow> bool" where
  "run_progress r r' \<longleftrightarrow> run_identity r' = run_identity r \<and>
     (sr_external_id r \<noteq> None \<longrightarrow> sr_external_id r' = sr_external_id r) \<and>
     (sr_provisioned_at r \<noteq> None \<longrightarrow> sr_provisioned_at r' = sr_provisioned_at r) \<and>
     (sr_terminated_at r \<noteq> None \<longrightarrow> sr_terminated_at r' = sr_terminated_at r) \<and>
     (sr_termination_requested_at r \<noteq> None \<longrightarrow> sr_termination_requested_at r' \<noteq> None) \<and>
     state_progress (sr_external_id r \<noteq> None) (sr_state r) (sr_external_id r' \<noteq> None) (sr_state r')"

definition run_ok :: "sandbox_run \<Rightarrow> bool" where
  "run_ok r \<longleftrightarrow>
     (sr_state r = Run_running \<longrightarrow> sr_external_id r \<noteq> None) \<and>
     (sr_provisioned_at r \<noteq> None \<longrightarrow> sr_external_id r \<noteq> None) \<and>
     (sr_state r = PROVISIONING \<longrightarrow> sr_external_id r = None \<and> sr_termination_requested_at r = None) \<and>
     (closing (sr_state r) \<longrightarrow> sr_termination_requested_at r \<noteq> None) \<and>
     (sr_state r = TERMINATED \<longrightarrow> sr_terminated_at r \<noteq> None) \<and>
     (sr_terminated_at r \<noteq> None \<longrightarrow> closing (sr_state r))"

lemma run_progress_refl [simp]: "run_progress r r"
  by (auto simp: run_progress_def state_progress_def closing_def)

lemma state_progress_trans:
  "state_progress h s h' s' \<Longrightarrow> state_progress h' s' h'' s'' \<Longrightarrow> state_progress h s h'' s''"
  by (cases h; cases h'; cases h''; cases s; cases s') (auto simp: state_progress_def closing_def)

lemma run_progress_trans:
  assumes "run_progress a b" and "run_progress b c"
  shows "run_progress a c"
proof -
  have "state_progress (sr_external_id a \<noteq> None) (sr_state a) (sr_external_id c \<noteq> None) (sr_state c)"
    using assms state_progress_trans unfolding run_progress_def by blast
  then show ?thesis using assms unfolding run_progress_def by metis
qed

text \<open>The steps of one row.\<close>

lemmas run_step_defs = run_progress_def state_progress_def closing_def run_ok_def run_identity_def context_from_run_def first_set_def

lemma request_run: "run_ok r \<Longrightarrow> run_progress r (request_termination now e r) \<and> run_ok (request_termination now e r)"
  by (auto simp: request_termination_def Let_def run_step_defs split: option.splits)

lemma failed_run: "run_ok r \<Longrightarrow> run_progress r (run_failed e r) \<and> run_ok (run_failed e r)"
  by (cases "sr_state r") (auto simp: run_failed_def Let_def run_step_defs)

lemma terminated_run: "run_ok r \<Longrightarrow> run_progress r (run_terminated now r) \<and> run_ok (run_terminated now r)"
  by (auto simp: run_terminated_def run_step_defs split: option.splits)

lemma rerouted_run: "run_ok r \<Longrightarrow> run_progress r (reroute_run_terminated now r) \<and> run_ok (reroute_run_terminated now r)"
  by (auto simp: reroute_run_terminated_def run_step_defs split: option.splits)

lemma finalized_run_ok:
  "run_ok r \<Longrightarrow> sr_terminated_at r = None \<Longrightarrow>
     run_progress r (finalized_run now m r) \<and> run_ok (finalized_run now m r)"
  by (auto simp: finalized_run_def run_step_defs split: option.splits)

lemma orphaned_run:
  "run_ok r \<Longrightarrow> sr_external_id r = None \<Longrightarrow> run_progress r (mark_ec2_orphan now x r) \<and> run_ok (mark_ec2_orphan now x r)"
  by (auto simp: mark_ec2_orphan_def run_step_defs split: option.splits)

lemma recovered_run:
  "run_ok r \<Longrightarrow> sr_external_id r = None \<Longrightarrow> sr_terminated_at r = None \<Longrightarrow>
     run_progress r (recover_run now x live r) \<and> run_ok (recover_run now x live r)"
  by (auto simp: recover_run_def persist_handle_def run_step_defs split: option.splits)

lemma late_run:
  "run_ok r \<Longrightarrow> sr_external_id r = None \<or> sr_external_id r = Some x \<Longrightarrow>
     run_progress r (persist_late_handle now x r) \<and> run_ok (persist_late_handle now x r)"
  by (auto simp: persist_late_handle_def persist_handle_def Let_def run_step_defs split: option.splits)

lemma live_run:
  "run_ok r \<Longrightarrow> sr_external_id r = None \<or> sr_external_id r = Some x \<Longrightarrow> \<not> closing (sr_state r) \<Longrightarrow>
     run_progress r ((persist_handle now x r)\<lparr>sr_state := Run_running\<rparr>) \<and>
     run_ok ((persist_handle now x r)\<lparr>sr_state := Run_running\<rparr>)"
  by (auto simp: persist_handle_def run_step_defs split: option.splits)

subsection \<open>What the ledger may become\<close>

definition runs_ok :: "sandbox_run list \<Rightarrow> bool" where
  "runs_ok rs \<longleftrightarrow> distinct (map sr_id rs) \<and> (\<forall>r \<in> set rs. run_ok r)"

definition runs_evolve :: "sandbox_run list \<Rightarrow> sandbox_run list \<Rightarrow> bool" where
  "runs_evolve rs rs' \<longleftrightarrow> (runs_ok rs \<longrightarrow> runs_ok rs' \<and> (\<forall>r \<in> set rs. \<exists>r' \<in> set rs'. run_progress r r'))"

lemma runs_refl [simp]: "runs_evolve rs rs"
  unfolding runs_evolve_def using run_progress_refl by blast

lemma runs_trans: "runs_evolve a b \<Longrightarrow> runs_evolve b c \<Longrightarrow> runs_evolve a c"
  unfolding runs_evolve_def using run_progress_trans by metis

lemma runs_update:
  assumes "\<And>r. r \<in> set rs \<Longrightarrow> P r \<Longrightarrow> run_ok r \<Longrightarrow> runs_ok rs \<Longrightarrow> run_progress r (f r) \<and> run_ok (f r)"
    and "\<And>r. sr_id (f r) = sr_id r"
  shows "runs_evolve rs (update_where P f rs)"
  unfolding runs_evolve_def
proof (intro impI conjI ballI)
  assume ok: "runs_ok rs"
  then have each: "run_ok r" if "r \<in> set rs" for r using that by (simp add: runs_ok_def)
  have "run_ok r'" if "r' \<in> set (update_where P f rs)" for r'
    using that each assms(1) [OF _ _ _ ok] unfolding in_update_where by metis
  with ok assms(2) show "runs_ok (update_where P f rs)" by (simp add: runs_ok_def update_where_map)
  fix r
  assume r: "r \<in> set rs"
  show "\<exists>r' \<in> set (update_where P f rs). run_progress r r'"
  proof (cases "P r")
    case True
    with r have "f r \<in> set (update_where P f rs)" by (auto simp: in_update_where)
    with assms(1) [OF r True each [OF r] ok] show ?thesis by blast
  next
    case False
    with r have "r \<in> set (update_where P f rs)" by (rule update_where_untouched)
    then show ?thesis using run_progress_refl by blast
  qed
qed

lemma with_run_evolve:
  assumes "\<And>r. run_ok r \<Longrightarrow> run_progress r (f r) \<and> run_ok (f r)" and "\<And>r. sr_id (f r) = sr_id r"
  shows "runs_evolve (db_runs db) (db_runs (with_run i f db))"
proof -
  have "runs_evolve (db_runs db) (update_where (\<lambda>r. sr_id r = i) f (db_runs db))"
    by (rule runs_update) (use assms in blast)+
  then show ?thesis by (simp add: with_run_def)
qed

lemma request_id [simp]: "sr_id (request_termination now e r) = sr_id r"
  by (auto simp: request_termination_def Let_def split: option.splits)

lemma request_evolve: "runs_evolve (db_runs db) (db_runs (with_run i (request_termination now e) db))"
  by (intro with_run_evolve request_run request_id)

text \<open>A row known by its identifier.\<close>

lemma runs_update_id:
  assumes "r0 \<in> set rs" and "sr_id r0 = i" and "run_ok r0 \<Longrightarrow> run_progress r0 (f r0) \<and> run_ok (f r0)"
    and "\<And>r. sr_id (f r) = sr_id r"
  shows "runs_evolve rs (update_where (\<lambda>r. sr_id r = i) f rs)"
proof (rule runs_update [OF _ assms(4)])
  fix r
  assume r: "r \<in> set rs" "sr_id r = i" "run_ok r" "runs_ok rs"
  then have "r = r0" using assms(1,2) by (metis distinct_map inj_onD runs_ok_def)
  with r(3) assms(3) show "run_progress r (f r) \<and> run_ok (f r)" by simp
qed

subsection \<open>The operations\<close>

lemma create_evolve:
  assumes "create_run_transaction lane provider owner i token job attempt trial db = (db', res)"
    and "i \<notin> sr_id ` set (db_runs db)"
  shows "runs_evolve (db_runs db) (db_runs db')"
proof -
  have "db_runs db' = db_runs db \<or>
      db_runs db' = db_runs db @ [new_sandbox_run i token job attempt trial provider owner]"
    using assms(1) by (auto simp: create_run_transaction_def Let_def split: option.splits if_splits)
  moreover have "runs_evolve (db_runs db) (db_runs db @ [new_sandbox_run i token job attempt trial provider owner])"
  proof -
    let ?new = "new_sandbox_run i token job attempt trial provider owner"
    have "sr_id ?new = i" and "run_ok ?new"
      by (simp_all add: new_sandbox_run_def run_ok_def closing_def split: prod.splits)
    with assms(2) have "runs_ok (db_runs db) \<longrightarrow> runs_ok (db_runs db @ [?new])" by (auto simp: runs_ok_def)
    then show ?thesis unfolding runs_evolve_def using run_progress_refl by (metis Un_iff set_append)
  qed
  ultimately show ?thesis by auto
qed

lemma provisioned_runs:
  assumes "mark_environment_provisioned now c provider x w db = (db', res)"
  shows "runs_evolve (db_runs db) (db_runs db')"
  using assms
proof (cases rule: provisioned_cases)
  case (late h run worker)
  from find_SomeD [OF late(4)] have r: "run \<in> set (db_runs db)" "sr_id run = lc_sandbox_run_id c" by auto
  have "runs_evolve (db_runs db) (update_where (\<lambda>r. sr_id r = lc_sandbox_run_id c) (persist_late_handle now h) (db_runs db))"
    using late(6) by (intro runs_update_id [OF r] late_run)
      (auto simp: persist_late_handle_def persist_handle_def Let_def)
  then show ?thesis by (simp add: late(7) with_run_def)
next
  case (live h run worker)
  from find_SomeD [OF live(4)] have r: "run \<in> set (db_runs db)" "sr_id run = lc_sandbox_run_id c" by auto
  show ?thesis unfolding live(9)
    using live(6-8) by (intro runs_update_id [OF r] live_run) (auto simp: persist_handle_def closing_def)
qed simp

lemma reroute_runs:
  assumes "reroute_updates now cj worker r run lease db = Inr db'"
  shows "runs_evolve (db_runs db) (db_runs db')"
proof -
  have "db_runs db' = db_runs db \<or> db_runs db' = update_where
      (\<lambda>x. sr_id x = sr_id run \<and> sr_external_id x = None) (reroute_run_terminated now) (db_runs db)"
    using assms by (auto simp: reroute_updates_def Let_def bind_err_Inr update_one_Inr split: if_splits)
  moreover have "runs_evolve (db_runs db) (update_where
      (\<lambda>x. sr_id x = sr_id run \<and> sr_external_id x = None) (reroute_run_terminated now) (db_runs db))"
    by (rule runs_update) (use rerouted_run in \<open>auto simp: reroute_run_terminated_def\<close>)
  ultimately show ?thesis by auto
qed

lemma outcome_runs:
  assumes "record_outcome now jitter cfg worker cj oc db = (db', res)"
  shows "runs_evolve (db_runs db) (db_runs db')"
proof (cases "oc_reroute oc")
  case (Some r)
  with assms have "record_reroute_outcome now cfg worker cj r db = (db', res)" by (simp add: record_outcome_def)
  then show ?thesis by (cases rule: reroute_outcome_cases) (auto intro: reroute_runs)
next
  case None
  have "db_runs db' = db_runs db"
  proof (cases "oc_success oc")
    case (Some s)
    with None assms show ?thesis by (auto simp: record_outcome_def record_status_def)
  next
    case no: None
    show ?thesis
    proof (cases "oc_failure oc")
      case (Some f)
      with None no assms have "record_failure now jitter worker cj f db = (db', res)" by (simp add: record_outcome_def)
      then show ?thesis
        by (auto simp: record_failure_def record_status_def Let_def split: if_splits sum.splits prod.splits)
    qed (use None no assms in \<open>simp add: record_outcome_def\<close>)
  qed
  then show ?thesis by simp
qed

lemma mirror_runs: "mirror_stale_job now jitter locked j db = Inr (db', t) \<Longrightarrow> db_runs db' = db_runs db"
  by (auto simp: mirror_stale_job_def mirror_trial_def mirror_analysis_def mirror_audit_def mirror_qa_def
      bind_err_def Let_def split: option.splits worker_job_kind.splits if_splits sum.splits)

lemma reap_one_runs:
  assumes "reap_one now jitter locked mins i db = Inr (db', o1)"
  shows "db_runs db' = db_runs db"
proof (cases o1)
  case None
  with assms show ?thesis by (auto simp: reap_one_def Let_def bind_err_Inr split: option.splits)
next
  case (Some jt)
  with assms have "reap_one now jitter locked mins i db = Inr (db', Some jt)" by simp
  then show ?thesis by (rule reap_one_cases) (auto dest: mirror_runs)
qed

lemma unlink_runs [simp]: "db_runs (unlink_retry j db) = db_runs db"
  by (simp add: unlink_retry_def)

lemma reap_loop_runs:
  "reap_loop now jitter locked mins is db r = Inr (db', r') \<Longrightarrow> db_runs db' = db_runs db"
proof (induction now jitter locked mins "is" db r rule: reap_loop.induct)
  case (2 now jitter locked mins i "is" db r)
  show ?case
  proof (cases "reap_one now jitter locked mins i db")
    case (Inl e)
    with 2 show ?thesis by (cases e) auto
  next
    case (Inr p)
    obtain db1 o1 where p: "p = (db1, o1)" by (cases p)
    have same: "db_runs db1 = db_runs db" using Inr p by (auto intro: reap_one_runs)
    show ?thesis
    proof (cases o1)
      case None
      from 2(2) [OF Inr p [symmetric] None] 2(4) Inr p None same show ?thesis by simp
    next
      case (Some jt)
      from 2(3) [OF Inr p [symmetric] Some] 2(4) Inr p Some same show ?thesis by simp
    qed
  qed
qed simp

lemma handoff_runs: "db_runs (fst (fold (complete_handoff now) rows acc)) = db_runs (fst acc)"
  by (induction rows arbitrary: acc) (auto simp: complete_handoff_def Let_def split: prod.splits)

lemma recover_runs: "runs_evolve (db_runs (fst acc)) (db_runs (fst (recover_thunder_handle now snap acc)))"
proof -
  obtain db n where acc: "acc = (db, n)" by (cases acc)
  show ?thesis
  proof (cases "find (recoverable_run (ts_name snap)) (db_runs db)")
    case (Some run)
    have "runs_evolve (db_runs db) (update_where (recoverable_run (ts_name snap))
        (recover_run now (ts_external_id snap) live) (db_runs db))" for live
    proof (rule runs_update)
      fix r
      assume "recoverable_run (ts_name snap) r" "run_ok r"
      then show "run_progress r (recover_run now (ts_external_id snap) live r) \<and>
          run_ok (recover_run now (ts_external_id snap) live r)"
        by (intro recovered_run) (simp_all add: recoverable_run_def)
    qed (simp add: recover_run_def persist_handle_def)
    with Some show ?thesis by (simp add: acc recover_thunder_handle_def Let_def)
  qed (simp add: acc recover_thunder_handle_def Let_def)
qed

lemma recover_fold_runs: "runs_evolve (db_runs (fst acc)) (db_runs (fst (fold (recover_thunder_handle now) ss acc)))"
proof (induction ss arbitrary: acc)
  case (Cons s ss)
  from runs_trans [OF recover_runs Cons.IH] show ?case by simp
qed simp

lemma finalize_runs:
  assumes "\<And>r. P r \<Longrightarrow> sr_terminated_at r = None"
  shows "runs_evolve rs (update_where P (finalized_run now m) rs)"
  by (rule runs_update) (use finalized_run_ok assms in \<open>auto simp: finalized_run_def\<close>)

lemma orphan_target_runs:
  assumes "ec2_orphan_target dep acct now ledger ws hs i acc = Inr acc'"
  shows "runs_evolve (fst acc) (fst acc')"
proof -
  have "fst acc' = fst acc \<or> (\<exists>k. fst acc' = update_where (\<lambda>r. sr_id r = k \<and> sr_external_id r = None)
      (mark_ec2_orphan now (ec2_external_id i)) (fst acc))"
  proof (cases "tagged_ledger ledger i")
    case (Some run)
    with assms have "fst acc' = fst acc \<or>
        fst acc' = update_where (\<lambda>r. sr_id r = sr_id run \<and> sr_external_id r = None)
          (mark_ec2_orphan now (ec2_external_id i)) (fst acc)"
      by (auto simp: ec2_orphan_target_def Let_def bind_err_Inr split: prod.splits if_splits)
    then show ?thesis by blast
  qed (use assms in \<open>simp add: ec2_orphan_target_def Let_def split: prod.splits\<close>)
  moreover have "runs_evolve rs (update_where (\<lambda>r. sr_id r = k \<and> sr_external_id r = None)
      (mark_ec2_orphan now x) rs)" for rs k x
    by (rule runs_update) (use orphaned_run in \<open>auto simp: mark_ec2_orphan_def\<close>)
  ultimately show ?thesis by auto
qed

lemma orphan_loop_runs:
  "ec2_orphan_loop dep acct now ledger ws hs is acc = Inr acc' \<Longrightarrow> runs_evolve (fst acc) (fst acc')"
proof (induction "is" arbitrary: acc)
  case (Cons i "is")
  then obtain a where "ec2_orphan_target dep acct now ledger ws hs i acc = Inr a"
      "ec2_orphan_loop dep acct now ledger ws hs is a = Inr acc'"
    by (auto simp: bind_err_Inr)
  with runs_trans [OF orphan_target_runs Cons.IH] show ?case by blast
qed simp

lemma sandbox_step_runs:
  assumes "sandbox_step db db'"
  shows "runs_evolve (db_runs db) (db_runs db')"
  using assms
proof (induction rule: sandbox_step.induct)
  case (reap now jitter locked mins db db' r)
  then show ?case by (simp add: reap_stale_worker_jobs_def reap_loop_runs)
next
  case (handoffs now skip db db' done_rows)
  with handoff_runs [of now "pending_handoffs skip db" "(db, [])"] show ?case
    by (simp add: complete_pending_thunder_capacity_handoffs_def)
next
  case (recover now inventory db db' n)
  with recover_fold_runs [of "(db, 0)" now] show ?case
    by (simp add: recover_thunder_inventory_handles_def) (metis fst_conv)
next
  case (provisioned now c provider x w db db' res)
  then show ?case by (rule provisioned_runs)
next
  case (create_ec2 backend i token job attempt trial db db' res)
  then show ?case
    by (auto simp: create_ec2_sandbox_run_def Let_def split: option.splits sum.splits if_splits intro: create_evolve)
next
  case (create_thunder i token job attempt trial db db' res)
  then show ?case by (auto simp: create_thunder_sandbox_run_def intro: create_evolve)
next
  case (request now i err db db' res)
  with request_evolve [of db i now err] show ?case by (auto simp: request_sandbox_termination_def)
next
  case (run_failed db i err)
  show ?case unfolding mark_sandbox_failed_def
    by (rule with_run_evolve) (use failed_run in \<open>auto simp: run_failed_def Let_def\<close>)
next
  case (run_terminated db now i)
  show ?case unfolding mark_sandbox_terminated_def
    by (rule with_run_evolve) (use terminated_run in \<open>auto simp: run_terminated_def\<close>)
next
  case (finalize_thunder touched now grace inventory db db' n)
  have "runs_evolve (db_runs db) (update_where (finalizable_thunder_run touched now grace inventory (db_jobs db))
      (finalized_run now m) (db_runs db))" for m
    by (rule finalize_runs) (simp add: finalizable_thunder_run_def unprovisioned_run_def)
  with finalize_thunder show ?case by (auto simp: finalize_unprovisioned_thunder_runs_def Let_def)
next
  case (finalize_ec2 touched now grace instances db db' n)
  have "runs_evolve (db_runs db) (update_where (finalizable_ec2_run touched now grace instances (db_jobs db))
      (finalized_run now m) (db_runs db))" for m
    by (rule finalize_runs) (simp add: finalizable_ec2_run_def unprovisioned_run_def)
  with finalize_ec2 show ?case by (auto simp: finalize_unprovisioned_sandbox_runs_def Let_def)
next
  case (ec2_orphans instances deployment account now mins db db' res)
  then obtain runs targets kept where
    "ec2_orphan_loop deployment account now (db_runs db)
         (map (worker_liveness now mins) (filter (orphan_worker instances) (db_jobs db)))
         (map ec2_external_id instances) instances (db_runs db, [], 0) = Inr (runs, targets, kept)"
    and "db_runs db' = runs"
    by (auto simp: decide_ec2_orphan_targets_def bind_err_Inr split: prod.splits)
  with orphan_loop_runs show ?case by fastforce
qed

lemma job_step_runs:
  assumes "job_step db db'"
  shows "runs_evolve (db_runs db) (db_runs db')"
  using assms
proof (induction rule: job_step.induct)
  case (claim now skip kinds ca db db' res)
  have sql: "db_runs db2 = db_runs db" if "claim_worker_job_sql now skip kinds ca db = (db2, r)" for db2 r
    using that by (auto simp: claim_worker_job_sql_def split: prod.splits option.splits)
  from claim have "db_runs db' = db_runs db"
    by (auto simp: claim_single_worker_job_def apsnd_def map_prod_def split: option.splits if_splits prod.splits dest: sql)
  then show ?case by simp
next
  case (heartbeat now i w pending e db db' res)
  then show ?case by (auto simp: heartbeat_worker_job_def Let_def)
next
  case (outcome now jitter cfg worker cj oc db db' res)
  then show ?case by (rule outcome_runs)
next
  case (sandbox db db')
  then show ?case by (rule sandbox_step_runs)
next
  case (gate db db')
  from gate_step_evolve(2) [OF gate] show ?case by simp
qed simp_all

lemma reachable_runs_ok: "jobs_reachable db \<Longrightarrow> runs_ok (db_runs db)"
proof (induction rule: jobs_reachable.induct)
  case (init db)
  then show ?case by (simp add: runs_ok_def)
next
  case (step db db')
  with job_step_runs [OF step(2)] show ?case by (simp add: runs_evolve_def)
qed

subsection \<open>Properties\<close>


definition ledger_ctx :: sandbox_launch_context where
  "ledger_ctx = \<lparr>lc_sandbox_run_id = ''run1'', lc_worker_job_id = ''j1'', lc_worker_job_attempt = 1,
     lc_trial_id = ''t1'', lc_launch_token = ''token'', lc_deployment = ''thunder'', lc_aws_account_id = [],
     lc_region = [], lc_provider = ''thunder''\<rparr>"

text \<open>A reachable ledger: a job is enqueued and claimed on the Thunder lane, then a run is created.\<close>

definition lane_claim :: claim_args where
  "lane_claim = sample_claim\<lparr>ca_execution_lane := Some ''thunder_trial'',
     ca_capacity_provider := Some ''thunder'', ca_capacity_slot := Some 0\<rparr>"

definition lane_db :: queue_db where
  "lane_db = empty_db\<lparr>db_leases := [take_lease 0 ''w'' 120 (empty_lease ''thunder'' 0)]\<rparr>"

definition lane_queued :: queue_db where
  "lane_queued = lane_db\<lparr>db_jobs := [job_row ''j1'' 0 (sample_request\<lparr>er_execution_lane := ''thunder_trial''\<rparr>) []]\<rparr>"

definition lane_claimed :: queue_db where
  "lane_claimed = fst (claim_single_worker_job 1 (\<lambda>j. False) [Kind_trial] lane_claim lane_queued)"

definition lane_created :: queue_db where
  "lane_created = fst (create_thunder_sandbox_run ''run1'' ''token'' ''j1'' 1 ''t1'' lane_claimed)"

lemma lane_created_reachable: "jobs_reachable lane_created"
proof -
  have "jobs_reachable lane_db" by (rule jobs_reachable.init) (simp_all add: lane_db_def empty_db_def)
  moreover have "job_step lane_db lane_queued" unfolding lane_queued_def
    by (rule job_step.enqueue [where hooks = "\<lambda>k. None" and validate = True and i = "''j1''" and now = 0
        and r = "sample_request\<lparr>er_execution_lane := ''thunder_trial''\<rparr>"])
      (simp_all add: enqueue_worker_job_def validated_payload_def lane_db_def empty_db_def sample_request_def)
  ultimately have "jobs_reachable lane_queued" by (rule jobs_reachable.step)
  moreover have "job_step lane_queued lane_claimed"
    unfolding lane_claimed_def
    by (rule job_step.claim [where res = "snd (claim_single_worker_job 1 (\<lambda>j. False) [Kind_trial] lane_claim lane_queued)"])
      simp
  ultimately have "jobs_reachable lane_claimed" by (rule jobs_reachable.step)
  moreover have "db_runs lane_claimed = []" unfolding lane_claimed_def by code_simp
  then have "job_step lane_claimed lane_created"
    unfolding lane_created_def
    by (intro job_step.sandbox sandbox_step.create_thunder [where
        res = "snd (create_thunder_sandbox_run ''run1'' ''token'' ''j1'' 1 ''t1'' lane_claimed)"]) simp_all
  ultimately show ?thesis by (rule jobs_reachable.step)
qed

definition lane_run :: sandbox_run where
  "lane_run = new_sandbox_run ''run1'' ''token'' ''j1'' 1 ''t1'' ''thunder'' (''thunder'', [], [])"

lemma lane_run_in: "lane_run \<in> set (db_runs lane_created)"
  unfolding lane_created_def lane_run_def by code_simp




text \<open>
  C21. An attempt has one ledger row, however often it is created: when a creation succeeds,
  exactly one row carries the job and the attempt, it is the row of the returned context, and any
  later creation, with other identifiers and another token, returns the same context and changes
  nothing.
\<close>

theorem sandbox_run_created_once:
  assumes "create_run_transaction lane provider owner i token job attempt trial db = (db', Inr ctx)"
    and "length (filter (\<lambda>r. sr_worker_job_id r = job \<and> sr_worker_job_attempt r = attempt) (db_runs db)) \<le> 1"
  shows "map context_from_run (filter (\<lambda>r. sr_worker_job_id r = job \<and> sr_worker_job_attempt r = attempt) (db_runs db'))
      = [ctx] \<and>
    (\<forall>i' token' owner'. create_run_transaction lane provider owner' i' token' job attempt trial db' = (db', Inr ctx))"
proof -
  let ?key = "\<lambda>r. sr_worker_job_id r = job \<and> sr_worker_job_attempt r = attempt"
  have find_filter: "find P xs = (case filter P xs of [] \<Rightarrow> None | x # _ \<Rightarrow> Some x)" for P and xs :: "sandbox_run list"
    by (induction xs) auto
  have jobs: "db_jobs db' = db_jobs db"
    and free: "launch_refusal lane provider job attempt (find (\<lambda>j. wj_id j = job) (db_jobs db)) = None"
    using assms(1) by (auto simp: create_run_transaction_def Let_def split: option.splits if_splits)
  obtain run where run: "filter ?key (db_runs db') = [run]" "ctx = context_from_run run"
      "sr_trial_id run = trial" "sr_provider run = provider"
  proof (cases "filter ?key (db_runs db)")
    case Nil
    let ?new = "new_sandbox_run i token job attempt trial provider owner"
    have "find ?key (db_runs db) = None" unfolding find_filter Nil by simp
    with assms(1) free have "db_runs db' = db_runs db @ [?new]" and "ctx = context_from_run ?new"
      by (auto simp: create_run_transaction_def Let_def)
    with Nil show thesis
      by (intro that [of ?new]) (simp_all add: new_sandbox_run_def split: prod.splits)
  next
    case (Cons run rest)
    with assms(2) have one: "filter ?key (db_runs db) = [run]" by simp
    then have "find ?key (db_runs db) = Some run" unfolding find_filter by simp
    with assms(1) free one show thesis
      by (intro that [of run]) (auto simp: create_run_transaction_def split: if_splits)
  qed
  have "find ?key (db_runs db') = Some run" unfolding find_filter run(1) by simp
  with free run jobs show ?thesis by (simp add: create_run_transaction_def)
qed

theorem sandbox_run_created_once_witness:
  "create_thunder_sandbox_run ''run2'' ''other'' ''j1'' 1 ''t1'' lane_created = (lane_created, Inr ledger_ctx)"
proof -
  let ?c = "create_thunder_sandbox_run ''run1'' ''token'' ''j1'' 1 ''t1'' lane_claimed"
  have "snd ?c = Inr ledger_ctx" by code_simp
  then have "create_run_transaction ''thunder_trial'' ''thunder'' (''thunder'', [], []) ''run1'' ''token'' ''j1'' 1 ''t1''
      lane_claimed = (lane_created, Inr ledger_ctx)"
    unfolding lane_created_def create_thunder_sandbox_run_def by (metis prod.collapse)
  moreover have "length (filter (\<lambda>r. sr_worker_job_id r = ''j1'' \<and> sr_worker_job_attempt r = 1) (db_runs lane_claimed)) \<le> 1"
    unfolding lane_claimed_def by code_simp
  ultimately show ?thesis
    using sandbox_run_created_once unfolding create_thunder_sandbox_run_def by blast
qed


definition lane_provisioned :: queue_db where
  "lane_provisioned = fst (mark_environment_provisioned 5 ledger_ctx (Some ''thunder'') (Some ''x'') (Some ''w'') lane_created)"

definition sample_teardown :: teardown_env where
  "sample_teardown = \<lparr>te_ec2 = None, te_hosted = (\<lambda>p x. Inr (p = ''thunder'' \<and> x = ''x'')), te_meanwhile = (\<lambda>d. d)\<rparr>"

lemma lane_provisioned_reachable: "jobs_reachable lane_provisioned"
proof (rule jobs_reachable.step [OF lane_created_reachable])
  show "job_step lane_created lane_provisioned"
    unfolding lane_provisioned_def
    by (intro job_step.sandbox sandbox_step.provisioned [where res =
        "snd (mark_environment_provisioned 5 ledger_ctx (Some ''thunder'') (Some ''x'') (Some ''w'') lane_created)"]) simp
qed


subsection \<open>Two gaps\<close>

text \<open>
  A handle that arrives after its run was terminated without one, as the handoff of an
  unprovisioned trial leaves it, is kept, but no sweep takes the run for an orphan, and no
  capacity lease is protected by it.
\<close>

lemma late_handle_after_termination:
  assumes "sr_state run = TERMINATED" and "sr_terminated_at run \<noteq> None"
  shows "sr_external_id (persist_late_handle now h run) = Some h"
    and "\<not> orphaned_thunder_run jobs (persist_late_handle now h run)"
    and "\<not> recoverable_run name (persist_late_handle now h run)"
    and "\<not> sandbox_may_exist [persist_late_handle now h run] l"
  using assms
  by (auto simp: persist_late_handle_def persist_handle_def Let_def orphaned_thunder_run_def
    recoverable_run_def sandbox_may_exist_def)

text \<open>
  The recovery of an EC2 instance whose run was finalized reopens the run but leaves its time of
  termination, so that the capacity statements take the sandbox for gone.
\<close>

lemma recovered_orphan_unprotected:
  assumes "sr_terminated_at run \<noteq> None"
  shows "sr_state (mark_ec2_orphan now x run) = TERMINATING"
    and "\<not> sandbox_may_exist [mark_ec2_orphan now x run] l"
  using assms by (auto simp: mark_ec2_orphan_def sandbox_may_exist_def)

end
