(* ===== verification/Reaper.thy ===== *)
theory Reaper
  imports Job_Lifecycle
begin

text \<open>
  The stale-heartbeat sweep, row by row: which rows it moves, where to, and what it defers.
\<close>

subsection \<open>One job of the sweep\<close>

text \<open>A row as the sweep leaves it: reaped, with its retry time set or its handle dropped.\<close>

definition reaped_as :: "int \<Rightarrow> int \<Rightarrow> worker_job \<Rightarrow> worker_job \<Rightarrow> bool" where
  "reaped_as now mins j j' \<longleftrightarrow> wj_id j' = wj_id j \<and>
     wj_status j' = (if wj_attempts j < wj_max_attempts j then RETRYING else FAILED) \<and>
     wj_attempts j' = wj_attempts j \<and> wj_current_worker_id j' = None \<and> wj_current_queue_slot j' = None \<and>
     wj_stale_reaped_at j' = Some now \<and> wj_error_message j' = Some (stall_message mins j)"

lemma reap_job_reaped: "reaped_as now mins j (reap_job now mins j)"
  by (simp add: reaped_as_def reap_job_def Let_def)

text \<open>The subject of a job that another transaction holds.\<close>

definition subject_locked :: "(string \<Rightarrow> bool) \<Rightarrow> worker_job \<Rightarrow> bool" where
  "subject_locked locked j \<longleftrightarrow> (\<exists>s. truthy (wj_subject_id j) = Some s \<and> locked s)"

lemma mirror_unlocked:
  assumes "\<not> subject_locked locked j"
  shows "mirror_stale_job now jitter locked j db \<noteq> Inl Domain_row_locked"
proof (cases "truthy (wj_subject_id j)")
  case None
  then show ?thesis by (simp add: mirror_stale_job_def)
next
  case (Some s)
  with assms have free: "\<not> locked s" by (simp add: subject_locked_def)
  have row: "\<exists>o1. locked_or_missing locked key visible s rows = Inr o1" for key visible and rows :: "'r list"
    using free by (simp add: locked_or_missing_def split: option.splits)
  from row [of tr_id "\<lambda>tr. tr_deleted_at tr = None" "db_trials db"]
  obtain ot where ot: "the_trial locked s db = Inr ot" by blast
  from row [of tk_id "\<lambda>tk. tk_deleted_at tk = None" "db_tasks db"]
  obtain ok where ok: "the_task locked s db = Inr ok" by blast
  have "mirror_trial now jitter locked j s db \<noteq> Inl Domain_row_locked"
    by (simp add: mirror_trial_def ot Let_def split: sum.splits)
  moreover have "mirror_analysis now locked j s db \<noteq> Inl Domain_row_locked"
    by (simp add: mirror_analysis_def ot)
  moreover have "mirror_audit now locked j s db \<noteq> Inl Domain_row_locked"
    by (simp add: mirror_audit_def ok split: option.splits)
  moreover have "mirror_qa now locked j s db \<noteq> Inl Domain_row_locked"
    by (simp add: mirror_qa_def ok Let_def)
  ultimately show ?thesis using Some by (cases "wj_kind j") (simp_all add: mirror_stale_job_def)
qed

lemma unlink_jobs:
  "db_jobs (unlink_retry j db) = db_jobs db \<or>
   db_jobs (unlink_retry j db) = update_where (\<lambda>x. wj_id x = wj_id j)
     (\<lambda>x. x\<lparr>wj_external_id := None, wj_provider := None\<rparr>) (db_jobs db)"
  by (simp add: unlink_retry_def)

text \<open>
  What processing an identifier does to the rows: the others stay, the stale row is reaped.
\<close>

lemma reap_one_rows:
  assumes "reap_one now jitter locked mins i db = Inr (db', Some jt)" and "wf_jobs (db_jobs db)"
  shows "\<forall>x \<in> set (db_jobs db). wj_id x \<noteq> i \<longrightarrow> x \<in> set (db_jobs (unlink_retry (fst jt) db'))"
    and "\<exists>j \<in> set (db_jobs db). wj_id j = i \<and> stale_heartbeat now mins j \<and>
      (\<exists>j' \<in> set (db_jobs (unlink_retry (fst jt) db')). reaped_as now mins j j')"
proof -
  obtain j db1 where j: "j \<in> set (db_jobs db)" "wj_id j = i" "stale_heartbeat now mins j"
      "fst jt = reap_job now mins j"
    and db1: "db1 = db\<lparr>db_jobs := update_where (\<lambda>j. wj_id j = i \<and> stale_heartbeat now mins j)
        (reap_job now mins) (db_jobs db)\<rparr>"
    and m: "mirror_stale_job now (jitter i) locked (reap_job now mins j) db1 = Inr (db', snd jt)"
    by (rule reap_one_cases [OF assms(1)])
  let ?r = "reap_job now mins j"
  have keep: "x \<in> set (update_where (\<lambda>x. wj_id x = wj_id ?r) f jobs)"
    if "x \<in> set jobs" "wj_id x \<noteq> i" for x f jobs
    using that j(2) by (intro update_where_untouched) auto
  have move: "\<exists>y \<in> set (update_where (\<lambda>x. wj_id x = wj_id ?r) f jobs). reaped_as now mins j y"
    if "\<exists>y \<in> set jobs. reaped_as now mins j y" "\<And>y. reaped_as now mins j y \<Longrightarrow> reaped_as now mins j (f y)" for f jobs
  proof -
    from that(1) obtain y where y: "y \<in> set jobs" "reaped_as now mins j y" by blast
    let ?y = "if wj_id y = wj_id ?r then f y else y"
    have "?y \<in> set (update_where (\<lambda>x. wj_id x = wj_id ?r) f jobs)"
      unfolding in_update_where using y(1) by (intro bexI [of _ y]) simp_all
    moreover have "reaped_as now mins j ?y" using y(2) that(2) by simp
    ultimately show ?thesis by blast
  qed
  have in1: "\<exists>y \<in> set (db_jobs db1). reaped_as now mins j y"
  proof -
    have "?r \<in> set (update_where (\<lambda>j. wj_id j = i \<and> stale_heartbeat now mins j) (reap_job now mins) (db_jobs db))"
      unfolding in_update_where using j(1-3) by (intro bexI [of _ j]) simp_all
    then have "?r \<in> set (db_jobs db1)" unfolding db1 by simp
    with reap_job_reaped show ?thesis by blast
  qed
  have k1: "x \<in> set (db_jobs db1)" if "x \<in> set (db_jobs db)" "wj_id x \<noteq> i" for x
    using that unfolding db1 by (simp add: update_where_untouched)
  have m': "db_jobs db' = db_jobs db1 \<or> (\<exists>t. db_jobs db' = update_where (\<lambda>x. wj_id x = wj_id ?r)
       (\<lambda>x. x\<lparr>wj_next_retry_at := Some t, wj_available_after := t\<rparr>) (db_jobs db1))"
    using mirror_jobs [OF m] by blast
  have in2: "\<exists>y \<in> set (db_jobs db'). reaped_as now mins j y"
    using m'
  proof (elim disjE exE)
    fix t
    assume u: "db_jobs db' = update_where (\<lambda>x. wj_id x = wj_id ?r)
       (\<lambda>x. x\<lparr>wj_next_retry_at := Some t, wj_available_after := t\<rparr>) (db_jobs db1)"
    show ?thesis unfolding u by (rule move [OF in1]) (simp add: reaped_as_def)
  qed (use in1 in simp)
  have k2: "x \<in> set (db_jobs db')" if "x \<in> set (db_jobs db)" "wj_id x \<noteq> i" for x
    using m' keep [OF k1 [OF that] that(2)] k1 [OF that] by metis
  have k3: "x \<in> set (db_jobs (unlink_retry (fst jt) db'))" if "x \<in> set (db_jobs db)" "wj_id x \<noteq> i" for x
    using unlink_jobs [of "fst jt" db'] keep [OF k2 [OF that] that(2)] k2 [OF that] unfolding j(4) by metis
  then show "\<forall>x \<in> set (db_jobs db). wj_id x \<noteq> i \<longrightarrow> x \<in> set (db_jobs (unlink_retry (fst jt) db'))" by blast
  have "\<exists>j' \<in> set (db_jobs (unlink_retry (fst jt) db')). reaped_as now mins j j'"
    using unlink_jobs [of "fst jt" db']
  proof
    assume "db_jobs (unlink_retry (fst jt) db') = update_where (\<lambda>x. wj_id x = wj_id (fst jt))
       (\<lambda>x. x\<lparr>wj_external_id := None, wj_provider := None\<rparr>) (db_jobs db')"
    then show ?thesis unfolding j(4) by (simp only:) (rule move [OF in2], simp add: reaped_as_def)
  qed (use in2 in simp)
  with j(1-3) show "\<exists>j \<in> set (db_jobs db). wj_id j = i \<and> stale_heartbeat now mins j \<and>
      (\<exists>j' \<in> set (db_jobs (unlink_retry (fst jt) db')). reaped_as now mins j j')" by blast
qed

subsection \<open>The sweep\<close>

text \<open>What the sweep over the identifiers \<open>is\<close> leaves of a row.\<close>

definition swept ::
  "int \<Rightarrow> int \<Rightarrow> (string \<Rightarrow> bool) \<Rightarrow> string list \<Rightarrow> worker_job list \<Rightarrow> worker_job \<Rightarrow> bool" where
  "swept now mins locked is jobs' j \<longleftrightarrow> (wj_id j \<notin> set is \<longrightarrow> j \<in> set jobs') \<and>
     (wj_id j \<in> set is \<and> stale_heartbeat now mins j \<longrightarrow>
        (if subject_locked locked j then j \<in> set jobs' \<or> (\<exists>j' \<in> set jobs'. reaped_as now mins j j')
         else \<exists>j' \<in> set jobs'. reaped_as now mins j j'))"

lemma swept_other: "wj_id j \<noteq> i \<Longrightarrow> swept now mins locked is jobs' j \<Longrightarrow> swept now mins locked (i # is) jobs' j"
  by (simp add: swept_def)

lemma swept_reaped: "j' \<in> set jobs' \<Longrightarrow> reaped_as now mins j j' \<Longrightarrow> wj_id j = i \<Longrightarrow>
    swept now mins locked (i # is) jobs' j"
  by (auto simp: swept_def)

lemma swept_kept: "j \<in> set jobs' \<Longrightarrow> stale_heartbeat now mins j \<longrightarrow> subject_locked locked j \<Longrightarrow>
    swept now mins locked is jobs' j"
  by (auto simp: swept_def)

lemma reap_loop_rows:
  assumes "reap_loop now jitter locked mins is db r = Inr (db', r')" and "wf_jobs (db_jobs db)" and "distinct is"
  shows "\<forall>j \<in> set (db_jobs db). swept now mins locked is (db_jobs db') j"
  using assms
proof (induction now jitter locked mins "is" db r rule: reap_loop.induct)
  case (2 now jitter locked mins i "is" db r)
  note wf = "2.prems"(2)
  have dist: "distinct is" "i \<notin> set is" using "2.prems"(3) by simp_all
  show ?case
  proof (cases "reap_one now jitter locked mins i db")
    case (Inl e)
    with "2.prems"(1) have e: "e = Domain_row_locked" by (cases e) simp_all
    with "2.prems"(1) Inl have rest: "reap_loop now jitter locked mins is db r = Inr (db', r')" by simp
    note IH = "2.IH"(1) [OF Inl [unfolded e] refl rest wf dist(1)]
    have "subject_locked locked j" if j: "j \<in> set (db_jobs db)" "wj_id j = i" "stale_heartbeat now mins j" for j
    proof -
      obtain x where x: "find (\<lambda>j. wj_id j = i \<and> stale_heartbeat now mins j) (db_jobs db) = Some x"
      proof (cases "find (\<lambda>j. wj_id j = i \<and> stale_heartbeat now mins j) (db_jobs db)")
        case None
        then have "reap_one now jitter locked mins i db = Inr (db, None)"
          unfolding reap_one_def by (simp only: option.case)
        with Inl show thesis by simp
      qed (rule that)
      from find_SomeD [OF x] have "x \<in> set (db_jobs db)" "wj_id x = wj_id j" using j(2) by simp_all
      then have "x = j" by (rule same_id [OF wf j(1)])
      let ?db1 = "db\<lparr>db_jobs := update_where (\<lambda>j. wj_id j = i \<and> stale_heartbeat now mins j)
        (reap_job now mins) (db_jobs db)\<rparr>"
      have "bind_err (mirror_stale_job now (jitter i) locked (reap_job now mins j) ?db1)
          (\<lambda>(db2, trial). Inr (db2, Some (reap_job now mins j, trial))) = Inl Domain_row_locked"
        using Inl unfolding reap_one_def x \<open>x = j\<close> e by (simp only: option.case Let_def)
      then have "mirror_stale_job now (jitter i) locked (reap_job now mins j) ?db1 = Inl Domain_row_locked"
        by (cases "mirror_stale_job now (jitter i) locked (reap_job now mins j) ?db1") (simp_all split: prod.splits)
      with mirror_unlocked have "subject_locked locked (reap_job now mins j)" by metis
      then show ?thesis by (simp add: subject_locked_def reap_job_def Let_def)
    qed
    then have locked: "stale_heartbeat now mins j \<longrightarrow> subject_locked locked j"
      if "j \<in> set (db_jobs db)" "wj_id j = i" for j using that by blast
    show ?thesis
    proof
      fix j
      assume j: "j \<in> set (db_jobs db)"
      with IH have sw: "swept now mins locked is (db_jobs db') j" by blast
      show "swept now mins locked (i # is) (db_jobs db') j"
      proof (cases "wj_id j = i")
        case True
        with sw dist(2) have "j \<in> set (db_jobs db')" by (simp add: swept_def)
        then show ?thesis using locked [OF j True] by (rule swept_kept)
      qed (rule swept_other [OF _ sw])
    qed
  next
    case (Inr p)
    obtain db1 o1 where p: "p = (db1, o1)" by (cases p)
    show ?thesis
    proof (cases o1)
      case None
      have none: "find (\<lambda>j. wj_id j = i \<and> stale_heartbeat now mins j) (db_jobs db) = None" and same: "db1 = db"
        using Inr p None by (auto simp: reap_one_def Let_def bind_err_Inr split: option.splits)
      have rest: "reap_loop now jitter locked mins is db1 r = Inr (db', r')" using "2.prems"(1) Inr p None by simp
      have IH: "\<forall>j \<in> set (db_jobs db). swept now mins locked is (db_jobs db') j"
        using "2.IH"(2) [OF Inr p [symmetric] None rest _ dist(1)] wf unfolding same by blast
      show ?thesis
      proof
        fix j
        assume j: "j \<in> set (db_jobs db)"
        with IH have sw: "swept now mins locked is (db_jobs db') j" by blast
        show "swept now mins locked (i # is) (db_jobs db') j"
        proof (cases "wj_id j = i")
          case True
          with sw dist(2) have "j \<in> set (db_jobs db')" by (simp add: swept_def)
          moreover have "\<not> stale_heartbeat now mins j" using none j True by (simp add: find_None_iff)
          ultimately show ?thesis by (simp add: swept_kept)
        qed (rule swept_other [OF _ sw])
      qed
    next
      case (Some jt)
      with Inr p have e: "reap_one now jitter locked mins i db = Inr (db1, Some jt)" by simp
      let ?db2 = "unlink_retry (fst jt) db1"
      note rows = reap_one_rows [OF e wf]
      have wf2: "wf_jobs (db_jobs ?db2)" by (rule evolve_wf [OF reap_one_evolve [OF e wf] wf])
      have "reap_loop now jitter locked mins is ?db2 (reap_note jt r) = Inr (db', r')"
        using "2.prems"(1) e by simp
      note IH = "2.IH"(3) [OF Inr p [symmetric] Some this wf2 dist(1)]
      obtain j j' where j: "j \<in> set (db_jobs db)" "wj_id j = i" "j' \<in> set (db_jobs ?db2)" "reaped_as now mins j j'"
        using rows(2) by blast
      have "wj_id j' = i" using j(2,4) by (simp add: reaped_as_def)
      moreover have "swept now mins locked is (db_jobs db') j'" using IH j(3) by blast
      ultimately have j': "j' \<in> set (db_jobs db')" using dist(2) by (simp add: swept_def)
      show ?thesis
      proof
        fix x
        assume x: "x \<in> set (db_jobs db)"
        show "swept now mins locked (i # is) (db_jobs db') x"
        proof (cases "wj_id x = i")
          case True
          with j(2) have "x = j" by (intro same_id [OF wf j(1) x]) simp
          then show ?thesis using swept_reaped [OF j' j(4,2)] by simp
        next
          case False
          with rows(1) x have "x \<in> set (db_jobs ?db2)" by blast
          with IH have "swept now mins locked is (db_jobs db') x" by blast
          with False show ?thesis by (rule swept_other)
        qed
      qed
    qed
  qed
qed (simp add: swept_def)

text \<open>
  C6. The sweep reaps exactly the stale jobs: when it succeeds, every job that runs with a stale
  heartbeat, unless another transaction holds its domain row, waits for a retry if it has attempts
  left and has failed otherwise, without an owner, stamped, and with a message; a job whose domain row is
  held is left as it was or reaped, and every other row is left as it was.
\<close>

theorem stale_jobs_reaped:
  assumes "wf_jobs (db_jobs db)" and "reap_stale_worker_jobs now jitter locked mins db = Inr (db', r)"
    and "j \<in> set (db_jobs db)"
  shows "if \<not> stale_heartbeat now mins j then j \<in> set (db_jobs db')
    else if subject_locked locked j
    then j \<in> set (db_jobs db') \<or> (\<exists>j' \<in> set (db_jobs db'). reaped_as now mins j j')
    else \<exists>j' \<in> set (db_jobs db'). wj_id j' = wj_id j \<and>
      wj_status j' = (if wj_attempts j < wj_max_attempts j then RETRYING else FAILED) \<and>
      wj_current_worker_id j' = None \<and> wj_stale_reaped_at j' = Some now \<and> wj_error_message j' \<noteq> None"
proof -
  let ?ids = "sort (map wj_id (filter (stale_heartbeat now mins) (db_jobs db)))"
  have "distinct ?ids" using assms(1) by (simp add: wf_jobs_def distinct_map_filter)
  note rows = reap_loop_rows [OF assms(2) [unfolded reap_stale_worker_jobs_def] assms(1) this]
  have ids: "wj_id j \<in> set ?ids \<longleftrightarrow> stale_heartbeat now mins j"
    using same_id [OF assms(1,3)] assms(3) by fastforce
  show ?thesis
  proof (cases "stale_heartbeat now mins j")
    case True
    with rows ids assms(3) have moved: "if subject_locked locked j
        then j \<in> set (db_jobs db') \<or> (\<exists>j' \<in> set (db_jobs db'). reaped_as now mins j j')
        else \<exists>j' \<in> set (db_jobs db'). reaped_as now mins j j'" by (auto simp: swept_def)
    show ?thesis
    proof (cases "subject_locked locked j")
      case False
      with moved obtain j' where "j' \<in> set (db_jobs db')" "reaped_as now mins j j'" by auto
      with True False show ?thesis by (auto simp: reaped_as_def)
    qed (use True moved in simp)
  next
    case False
    with rows ids assms(3) show ?thesis by (auto simp: swept_def)
  qed
qed

theorem stale_jobs_reaped_witness:
  "\<exists>db' r. reap_stale_worker_jobs (minutes 16) (\<lambda>i. 0) (\<lambda>i. False) STALE_HEARTBEAT_MINUTES claimed_db = Inr (db', r) \<and>
     (\<exists>j' \<in> set (db_jobs db'). wj_id j' = ''j2'' \<and> wj_status j' = RETRYING \<and> wj_current_worker_id j' = None)"
proof -
  let ?s = "reap_stale_worker_jobs (minutes 16) (\<lambda>i. 0) (\<lambda>i. False) STALE_HEARTBEAT_MINUTES claimed_db"
  have "\<not> isl ?s" by code_simp
  then obtain db' r where run: "?s = Inr (db', r)" by (cases ?s) auto
  have j: "claimed_j2 \<in> set (db_jobs claimed_db)" and stale: "stale_heartbeat (minutes 16) STALE_HEARTBEAT_MINUTES claimed_j2"
    and facts: "wj_id claimed_j2 = ''j2''" "wj_attempts claimed_j2 < wj_max_attempts claimed_j2"
    by code_simp+
  have wf: "wf_jobs (db_jobs claimed_db)"
    using jobs_reachable_ok [OF claimed_db_reachable] by (simp add: jobs_ok_def)
  have "\<not> subject_locked (\<lambda>i. False) claimed_j2" by (simp add: subject_locked_def)
  with stale_jobs_reaped [OF wf run j] stale facts have
    "\<exists>j' \<in> set (db_jobs db'). wj_id j' = ''j2'' \<and> wj_status j' = RETRYING \<and> wj_current_worker_id j' = None"
    by auto
  with run show ?thesis by blast
qed

end
