(* ===== verification/Worker_Shell.thy ===== *)
theory Worker_Shell
  imports Job_Lifecycle
begin

text \<open>
  What a worker does around its jobs: \<open>run_assigned_queue_worker\<close> of
  \<open>workers/queue/queue_manager.py\<close>, the entry point of a container, and \<open>_safe_run\<close> of
  \<open>dispatch/backends/inprocess.py\<close>. Both hold a capacity lease of the lane's provider and a
  slot of the queue while jobs run, and give them back on every way out.
\<close>

subsection \<open>The shell\<close>

definition DEFAULT_BATCH_BUDGET_SECONDS :: int where "DEFAULT_BATCH_BUDGET_SECONDS = 300"
definition DEFAULT_SLOT_LEASE_SECONDS :: int where "DEFAULT_SLOT_LEASE_SECONDS = 43230"

text \<open>
  What the shell reads of its surroundings: the provider settings, the limit of the queue (whose
  loader answers 0 when the overrides cannot be read, and may be cancelled), and the instants and
  locked rows the two acquiring statements see.
\<close>

record shell_env =
  sh_settings :: capacity_settings
  sh_limit :: "exc + int"
  sh_lease_now :: int
  sh_lease_skip :: "capacity_lease \<Rightarrow> bool"
  sh_slot_now :: int
  sh_slot_skip :: "queue_slot \<Rightarrow> bool"

text \<open>
  The inner \<open>try .. finally\<close>: the body runs while the slot is held, and the slot is released
  whatever it does. The flag of the result is \<open>release_capacity_lease\<close>: it is false when the body
  raised while a lease was bound to it. A body that does not return gives \<open>None\<close>.
\<close>

definition under_queue_slot ::
  "shell_env \<Rightarrow> string \<Rightarrow> int \<Rightarrow> string \<Rightarrow> int \<Rightarrow> int option \<Rightarrow>
   (int \<Rightarrow> queue_db \<Rightarrow> (queue_db \<times> (exc + 'a)) option) \<Rightarrow> 'a \<Rightarrow> queue_db \<Rightarrow>
   (queue_db \<times> (exc + 'a) \<times> bool) option" where
  "under_queue_slot env key limit worker secs capacity_slot body idle db =
     (case acquire_queue_slot (sh_slot_now env) (sh_slot_skip env) key limit worker secs None (db_slots db) of
        (slots, None) \<Rightarrow> Some (db\<lparr>db_slots := slots\<rparr>, Inr idle, True)
      | (slots, Some slot) \<Rightarrow>
          map_option (\<lambda>(db', res). (db'\<lparr>db_slots := release_queue_slot key slot worker (db_slots db')\<rparr>, res,
              capacity_slot = None \<or> \<not> isl res))
            (body slot (db\<lparr>db_slots := slots\<rparr>)))"

text \<open>The outer \<open>try .. finally\<close>, for a lane whose provider has a limit.\<close>

definition under_capacity_lease ::
  "shell_env \<Rightarrow> string option \<Rightarrow> string \<Rightarrow>
   (int option \<Rightarrow> queue_db \<Rightarrow> (queue_db \<times> (exc + 'a) \<times> bool) option) \<Rightarrow> 'a \<Rightarrow> queue_db \<Rightarrow>
   (queue_db \<times> (exc + 'a)) option" where
  "under_capacity_lease env provider worker body idle db =
     (case provider of
        None \<Rightarrow> map_option (\<lambda>(db', res, _). (db', res)) (body None db)
      | Some p \<Rightarrow>
          (case configured_sandbox_capacity_limit (sh_settings env) p of
             Inl e \<Rightarrow> Some (db, Inl e)
           | Inr limit \<Rightarrow>
               (case acquire_sandbox_capacity_lease (db_jobs db) (db_runs db) (sh_lease_now env)
                   (sh_lease_skip env) p limit worker SANDBOX_CAPACITY_LEASE_SECONDS (db_leases db) of
                  (leases, None) \<Rightarrow> Some (db\<lparr>db_leases := leases\<rparr>, Inr idle)
                | (leases, Some slot) \<Rightarrow>
                    map_option (\<lambda>(db', res, release).
                        (if release
                         then db'\<lparr>db_leases := fst (release_sandbox_capacity_lease (db_runs db') p slot worker
                                (db_leases db'))\<rparr>
                         else db', res))
                      (body (Some slot) (db\<lparr>db_leases := leases\<rparr>)))))"

text \<open>
  One run of the drain: the state of the world is the database and the number of jobs taken so
  far, which selects the surroundings of the next one and the reading of the clock.
\<close>

definition drain_queue ::
  "(nat \<Rightarrow> run_env) \<Rightarrow> (nat \<Rightarrow> int) \<Rightarrow> int \<Rightarrow> claim_args \<Rightarrow> queue_db \<Rightarrow> (queue_db \<times> (exc + nat)) option" where
  "drain_queue envs clock budget ca db =
     map_option (\<lambda>((db', n), res). (db', res))
       (drain_worker_jobs
          (\<lambda>(db, n). case run_single_worker_job (envs n) ca db of
             (db', res) \<Rightarrow> ((db', Suc n), map_sum id rr_claimed res))
          (\<lambda>(db, n). clock n) budget (db, 0))"

definition worker_claim ::
  "string \<Rightarrow> string \<Rightarrow> string option \<Rightarrow> string \<Rightarrow> string option \<Rightarrow> int option \<Rightarrow> int \<Rightarrow> claim_args" where
  "worker_claim key worker variant lane provider capacity_slot slot =
     \<lparr>ca_queue_key = key, ca_worker_id = worker, ca_queue_slot = slot, ca_modal_function_call_id = None,
      ca_harbor_variant_id = variant, ca_execution_lane = Some lane, ca_priority_class = None,
      ca_org_id = None, ca_capacity_provider = provider, ca_capacity_slot = capacity_slot\<rparr>"

definition run_assigned_queue_worker ::
  "shell_env \<Rightarrow> (nat \<Rightarrow> run_env) \<Rightarrow> (nat \<Rightarrow> int) \<Rightarrow> string \<Rightarrow> string \<Rightarrow> int \<Rightarrow> int \<Rightarrow> string option \<Rightarrow> string \<Rightarrow>
   queue_db \<Rightarrow> (queue_db \<times> (exc + nat)) option" where
  "run_assigned_queue_worker env envs clock key worker budget secs variant lane db =
     (if lane \<notin> {''default'', ''ec2_trial'', ''thunder_trial''}
      then Some (db, Inl (OtherError (''unsupported execution lane: '' @ repr_opt (Some lane))))
      else let provider = capacity_provider_for_execution_lane (Some lane) in
        (case sh_limit env of
           Inl e \<Rightarrow> Some (db, Inl e)
         | Inr limit \<Rightarrow>
             if limit \<le> 0 then Some (db, Inr 0)
             else under_capacity_lease env provider worker
               (\<lambda>capacity_slot. under_queue_slot env key limit worker secs capacity_slot
                  (\<lambda>slot. drain_queue envs clock budget
                     (worker_claim key worker variant lane provider capacity_slot slot)) 0) 0 db))"

text \<open>
  The task of the in-process dispatcher runs one job. Without a capacity provider the runner's
  default lane is used. An exception is logged and swallowed, a cancellation passes.
\<close>

definition safe_run ::
  "shell_env \<Rightarrow> run_env \<Rightarrow> string \<Rightarrow> string \<Rightarrow> string \<Rightarrow> string \<Rightarrow> queue_db \<Rightarrow> queue_db \<times> (exc + unit)" where
  "safe_run env run key worker variant lane db =
     (let provider = capacity_provider_for_execution_lane (Some lane);
          body = (\<lambda>capacity_slot slot db. Some (apsnd (map_sum id (\<lambda>_. ()))
            (run_single_worker_job run (worker_claim key worker (Some variant)
               (if provider = None then ''default'' else lane) provider capacity_slot slot) db)));
          result = under_capacity_lease env provider worker
            (\<lambda>capacity_slot db. case sh_limit env of
                Inl e \<Rightarrow> Some (db, Inl e, True)
              | Inr limit \<Rightarrow>
                  if limit \<le> 0 then Some (db, Inr (), True)
                  else under_queue_slot env key limit worker DEFAULT_SLOT_LEASE_SECONDS capacity_slot
                    (body capacity_slot) () db) () db
      in (case result of
            None \<Rightarrow> (db, Inr ())
          | Some (db', Inl e) \<Rightarrow> (db', if is_Exception e then Inr () else Inl e)
          | Some (db', Inr ()) \<Rightarrow> (db', Inr ())))"

subsection \<open>What a worker has in its name\<close>

abbreviation own_slots :: "string \<Rightarrow> queue_db \<Rightarrow> (string \<times> int) set" where
  "own_slots w db \<equiv> owned_ids slot_id qs_locked_by w (db_slots db)"

abbreviation own_leases :: "string \<Rightarrow> queue_db \<Rightarrow> (string \<times> int) set" where
  "own_leases w db \<equiv> owned_ids lease_id cl_locked_by w (db_leases db)"

definition takes_nothing :: "string \<Rightarrow> queue_db \<Rightarrow> queue_db \<Rightarrow> bool" where
  "takes_nothing w db db' \<longleftrightarrow> own_slots w db' \<subseteq> own_slots w db \<and> own_leases w db' \<subseteq> own_leases w db"

lemma takes_nothing_refl [simp]: "takes_nothing w db db"
  by (simp add: takes_nothing_def)

lemma takes_nothing_trans: "takes_nothing w a b \<Longrightarrow> takes_nothing w b c \<Longrightarrow> takes_nothing w a c"
  unfolding takes_nothing_def by blast

lemma takes_nothing_same: "db_slots db' = db_slots db \<Longrightarrow> db_leases db' = db_leases db \<Longrightarrow> takes_nothing w db db'"
  by (simp add: takes_nothing_def)

lemma owned_by_keys:
  "owned_ids rid owner w t = fst ` {p \<in> set (map (\<lambda>r. (rid r, owner r)) t). snd p = Some w}"
  by (force simp: owned_ids_def)

lemma owned_update:
  assumes "\<And>r. rid (f r) = rid r" and "\<And>r. owner (f r) = owner r"
  shows "owned_ids rid owner w (update_where P f t) = owned_ids rid owner w t"
  unfolding owned_by_keys by (subst update_where_map) (simp_all add: assms)

lemma claim_takes_nothing:
  assumes "claim_single_worker_job now skip kinds ca db = (db', res)"
  shows "takes_nothing w db db'"
proof -
  have slots: "owned_ids slot_id qs_locked_by w (clear_launch ca t) = owned_ids slot_id qs_locked_by w t" for t
    unfolding clear_launch_def by (rule owned_update) (simp_all add: slot_id_def)
  have leases: "owned_ids lease_id cl_locked_by w (update_where P (bind_lease now i) t) =
      owned_ids lease_id cl_locked_by w t" for P i t
    by (rule owned_update) (simp_all add: bind_lease_def lease_id_def)
  have sql: "takes_nothing w db db2" if "claim_worker_job_sql now skip kinds ca db = (db2, r)" for db2 r
    using that by (auto simp: claim_worker_job_sql_def takes_nothing_def slots leases split: prod.splits option.splits)
  from assms show ?thesis
    by (auto simp: claim_single_worker_job_def apsnd_def map_prod_def split: option.splits if_splits prod.splits dest: sql)
qed

lemma update_one_where: "update_one e P f t = Inr t' \<Longrightarrow> t' = update_where P f t"
  by (auto simp: update_one_def split: if_splits)

lemma reroute_takes_nothing:
  assumes "reroute_updates now cj worker r run lease db = Inr db'"
  shows "takes_nothing w db db'"
proof -
  have slots: "db_slots db' = db_slots db"
    and leases: "db_leases db' = db_leases db \<or> (\<exists>P. db_leases db' = update_where P unlock_lease (db_leases db))"
    using assms by (auto simp: reroute_updates_def Let_def bind_err_Inr split: if_splits dest!: update_one_where)
  have "owned_ids lease_id cl_locked_by w (update_where P unlock_lease t) \<subseteq> owned_ids lease_id cl_locked_by w t" for P t
    unfolding owned_ids_def using lease_owners.owned_unlock by blast
  with leases have "own_leases w db' \<subseteq> own_leases w db" by (elim disjE exE) simp_all
  with slots show ?thesis by (simp add: takes_nothing_def)
qed

lemma failure_takes_nothing:
  "record_failure now jitter worker cj f db = (db', res) \<Longrightarrow> takes_nothing w db db'"
  by (rule takes_nothing_same)
    (auto simp: record_failure_def record_status_def Let_def split: if_splits sum.splits prod.splits)

lemma outcome_takes_nothing:
  assumes "record_outcome now jitter cfg worker cj oc db = (db', res)"
  shows "takes_nothing w db db'"
proof (cases "oc_reroute oc")
  case (Some r)
  with assms have "record_reroute_outcome now cfg worker cj r db = (db', res)" by (simp add: record_outcome_def)
  then show ?thesis
    by (auto simp: record_reroute_outcome_def split: if_splits option.splits prod.splits sum.splits
      intro: reroute_takes_nothing)
next
  case None
  show ?thesis
  proof (cases "oc_success oc")
    case (Some s)
    with None assms show ?thesis by (intro takes_nothing_same) (auto simp: record_outcome_def record_status_def)
  next
    case no: None
    with None assms show ?thesis
      by (auto simp: record_outcome_def split: option.splits intro: failure_takes_nothing)
  qed
qed

lemma single_takes_nothing:
  assumes "run_single_worker_job env ca db = (db', res)"
    and "\<And>d. takes_nothing w d (re_meanwhile env d)"
  shows "takes_nothing w db db'"
proof -
  obtain db1 claimed where c: "claim_single_worker_job (re_claim_now env) (re_skip env)
      (dict_keys (re_registry env)) (claim_kwargs ca) db = (db1, claimed)" by fastforce
  note first = claim_takes_nothing [OF c, of w]
  have second: "takes_nothing w db (re_meanwhile env db1)" by (rule takes_nothing_trans [OF first assms(2)])
  have third: "takes_nothing w db db3"
    if "record_outcome a b c' d e f (re_meanwhile env db1) = (db3, r)" for a b c' d e f db3 r
    by (rule takes_nothing_trans [OF second outcome_takes_nothing [OF that]])
  from assms(1) first second third show ?thesis
    by (auto simp: run_single_worker_job_def c Let_def split: sum.splits option.splits prod.splits)
qed

lemma drain_loop_steps:
  assumes "drain_loop run clock deadline s n = Some res" and "\<And>s s' r. run s = (s', r) \<Longrightarrow> R s s'"
    and trans: "\<And>a b c. R a b \<Longrightarrow> R b c \<Longrightarrow> R a c"
  shows "R s (fst res)"
proof -
  have "run = run \<longrightarrow> R s (fst res)"
  proof (rule drain_loop.raw_induct [where P = "\<lambda>run' _ _ s _ y. run' = run \<longrightarrow> R s (fst y)", OF _ assms(1)])
    fix loop run' clock deadline s processed y
    assume ih: "\<And>run' clock deadline s processed y. loop run' clock deadline s processed = Some y \<Longrightarrow>
        run' = run \<longrightarrow> R s (fst y)"
      and body: "(case run' s of (s', Inl e) \<Rightarrow> Some (s', Inl e)
        | (s', Inr found) \<Rightarrow>
            if \<not> found then Some (s', Inr processed)
            else if clock s' \<ge> deadline then Some (s', Inr (Suc processed))
            else loop run' clock deadline s' (Suc processed)) = Some y"
    show "run' = run \<longrightarrow> R s (fst y)"
    proof
      assume [simp]: "run' = run"
      obtain s1 r where one: "run s = (s1, r)" by fastforce
      from assms(2) [OF one] have "R s s1" .
      with body one show "R s (fst y)"
        by (auto split: sum.splits if_splits dest!: ih intro: trans)
    qed
  qed
  then show ?thesis by simp
qed

lemma drain_takes_nothing:
  assumes "drain_queue envs clock budget ca db = Some (db', res)"
    and "\<And>n d. takes_nothing w d (re_meanwhile (envs n) d)"
  shows "takes_nothing w db db'"
proof -
  let ?run = "\<lambda>(db, n). case run_single_worker_job (envs n) ca db of (db', res) \<Rightarrow> ((db', Suc n), map_sum id rr_claimed res)"
  let ?clock = "\<lambda>(db :: queue_db, n). clock n"
  from assms(1) obtain n where loop: "drain_loop ?run ?clock (clock 0 + budget) (db, 0) 0 = Some ((db', n), res)"
    by (auto simp: drain_queue_def drain_worker_jobs_def)
  have step: "takes_nothing w (fst s) (fst s')" if "?run s = (s', r)" for s s' r
    using that single_takes_nothing [OF _ assms(2)] by (auto split: prod.splits)
  from drain_loop_steps [where R = "\<lambda>s s'. takes_nothing w (fst s) (fst s')", OF loop step takes_nothing_trans]
  show ?thesis by simp
qed

subsection \<open>The way out\<close>

lemma slot_acquired:
  assumes "acquire_queue_slot now skip key limit w secs None t = (t', res)"
  shows "owned_ids slot_id qs_locked_by v t' \<subseteq> owned_ids slot_id qs_locked_by v t \<union>
    (case res of None \<Rightarrow> {} | Some n \<Rightarrow> {(key, n)})"
proof (cases "limit \<le> 0")
  case True
  with assms show ?thesis by (auto simp: acquire_queue_slot_def)
next
  case False
  let ?t = "ensure_queue_slots key limit t"
  let ?P = "\<lambda>r. qs_queue_key r = key \<and> qs_slot r < limit \<and> held_count now key ?t < limit \<and> slot_free now r \<and> \<not> skip r"
  from False assms obtain row where c: "claim_first slot_id qs_slot ?P (take_slot now w secs) ?t = (t', row)"
    and res: "res = map_option qs_slot row"
    by (auto simp: acquire_queue_slot_def Let_def split: prod.splits)
  have "owned_ids slot_id qs_locked_by v ?t = owned_ids slot_id qs_locked_by v t"
    unfolding ensure_queue_slots_def if_not_P [OF False] by (rule slot_owners.owned_insert) (auto simp: empty_slot_def)
  with slot_owners.owned_claim [OF c, of v]
  have "owned_ids slot_id qs_locked_by v t' \<subseteq> owned_ids slot_id qs_locked_by v t \<union>
      (case row of None \<Rightarrow> {} | Some r \<Rightarrow> {slot_id r})" by simp
  moreover have "slot_id r = (key, qs_slot r)" if "row = Some r" for r
    using claim_first_Some(2) [OF c [unfolded that]] by (simp add: slot_id_def)
  ultimately show ?thesis by (cases row) (simp_all add: res)
qed

lemma lease_acquired:
  assumes "acquire_sandbox_capacity_lease jobs runs now skip p limit w secs t = (t', res)"
  shows "owned_ids lease_id cl_locked_by v t' \<subseteq> owned_ids lease_id cl_locked_by v t \<union>
    (case res of None \<Rightarrow> {} | Some n \<Rightarrow> {(p, n)})"
proof (cases "limit \<le> 0")
  case True
  with assms show ?thesis by (auto simp: acquire_sandbox_capacity_lease_def)
next
  case False
  let ?t = "insert_missing lease_id (map (empty_lease p) [0..limit - 1]) t"
  let ?P = "\<lambda>l. cl_provider l = p \<and> cl_slot l < limit \<and> lease_available jobs runs now l \<and> \<not> skip l"
  from False assms obtain row where c: "claim_first lease_id cl_slot ?P (take_lease now w secs) ?t = (t', row)"
    and res: "res = map_option cl_slot row"
    by (auto simp: acquire_sandbox_capacity_lease_def Let_def split: prod.splits)
  have "owned_ids lease_id cl_locked_by v ?t = owned_ids lease_id cl_locked_by v t"
    by (rule lease_owners.owned_insert) (auto simp: empty_lease_def)
  with lease_owners.owned_claim [OF c, of v]
  have "owned_ids lease_id cl_locked_by v t' \<subseteq> owned_ids lease_id cl_locked_by v t \<union>
      (case row of None \<Rightarrow> {} | Some r \<Rightarrow> {lease_id r})" by simp
  moreover have "lease_id r = (p, cl_slot r)" if "row = Some r" for r
    using claim_first_Some(2) [OF c [unfolded that]] by (simp add: lease_id_def)
  ultimately show ?thesis by (cases row) (simp_all add: res)
qed

lemma job_under_slot:
  assumes "under_queue_slot env key limit w secs capacity_slot body idle db = Some (db', res, release)"
    and body: "\<And>slot d d' r. body slot d = Some (d', r) \<Longrightarrow> takes_nothing w d d'"
    and "own_slots w db = {}"
  shows "own_slots w db' = {} \<and> own_leases w db' \<subseteq> own_leases w db \<and> (release \<or> isl res)"
proof -
  obtain slots slot where a: "acquire_queue_slot (sh_slot_now env) (sh_slot_skip env) key limit w secs None (db_slots db)
      = (slots, slot)" by fastforce
  note own = slot_acquired [OF a, of w]
  show ?thesis
  proof (cases slot)
    case None
    with assms(1,3) own a show ?thesis by (auto simp: under_queue_slot_def)
  next
    case (Some n)
    from assms(1) obtain d r where b: "body n (db\<lparr>db_slots := slots\<rparr>) = Some (d, r)"
      and out: "db' = d\<lparr>db_slots := release_queue_slot key n w (db_slots d)\<rparr>" "res = r"
        "release = (capacity_slot = None \<or> \<not> isl r)"
      by (auto simp: under_queue_slot_def a Some)
    from body [OF b] own assms(3) have "own_slots w d \<subseteq> {(key, n)}" "own_leases w d \<subseteq> own_leases w db"
      by (auto simp: takes_nothing_def Some)
    with slot_owners.owned_release [of w "(key, n)" "db_slots d"] show ?thesis
      by (auto simp: out release_queue_slot_def)
  qed
qed

text \<open>What is left of the lease when it was released: its row while a sandbox may exist.\<close>

lemma lease_released:
  assumes "own_leases w d \<subseteq> {(p, n)}"
    and "l \<in> set (fst (release_sandbox_capacity_lease (db_runs d) p n w (db_leases d)))" and "cl_locked_by l = Some w"
  shows "sandbox_may_exist (db_runs d) l"
proof (rule ccontr)
  assume none: "\<not> sandbox_may_exist (db_runs d) l"
  from assms(2) have l: "l \<in> set (update_where (releasable (db_runs d) p n w) unlock_lease (db_leases d))"
    by (simp add: release_sandbox_capacity_lease_def Let_def)
  from lease_owners.owned_unlock [OF l assms(3)] have "l \<in> set (db_leases d)" "\<not> releasable (db_runs d) p n w l"
    by blast+
  with assms(1,3) none show False by (auto simp: owned_ids_def releasable_def)
qed

lemma under_capacity_lease_out:
  assumes "under_capacity_lease env provider w body idle db = Some (db', res)"
    and body: "\<And>c d d' r release. body c d = Some (d', r, release) \<Longrightarrow> own_slots w d = {} \<Longrightarrow>
      own_slots w d' = {} \<and> own_leases w d' \<subseteq> own_leases w d \<and> (release \<or> isl r)"
    and fresh: "own_slots w db = {}" "own_leases w db = {}"
  shows "own_slots w db' = {} \<and> (\<not> isl res \<longrightarrow>
    (\<forall>l \<in> set (db_leases db'). cl_locked_by l = Some w \<longrightarrow> sandbox_may_exist (db_runs db') l))"
proof (cases provider)
  case None
  with assms(1) obtain release where "body None db = Some (db', res, release)"
    by (auto simp: under_capacity_lease_def)
  from body [OF this fresh(1)] fresh(2) show ?thesis by (auto simp: owned_ids_def)
next
  case (Some p)
  show ?thesis
  proof (cases "configured_sandbox_capacity_limit (sh_settings env) p")
    case (Inl e)
    with Some assms(1) fresh show ?thesis by (auto simp: under_capacity_lease_def)
  next
    case (Inr limit)
    obtain leases slot where a: "acquire_sandbox_capacity_lease (db_jobs db) (db_runs db) (sh_lease_now env)
        (sh_lease_skip env) p limit w SANDBOX_CAPACITY_LEASE_SECONDS (db_leases db) = (leases, slot)" by fastforce
    note own = lease_acquired [OF a, of w]
    show ?thesis
    proof (cases slot)
      case None
      with own fresh have "owned_ids lease_id cl_locked_by w leases = {}" by simp
      then have "\<forall>l \<in> set leases. cl_locked_by l \<noteq> Some w" by (auto simp: owned_ids_def)
      with Some Inr a None assms(1) fresh(1) show ?thesis by (auto simp: under_capacity_lease_def)
    next
      case slot: (Some n)
      from assms(1) obtain d r release where b: "body (Some n) (db\<lparr>db_leases := leases\<rparr>) = Some (d, r, release)"
        and out: "res = r" "db' = (if release then d\<lparr>db_leases := fst (release_sandbox_capacity_lease (db_runs d) p n w
            (db_leases d))\<rparr> else d)"
        by (auto simp: under_capacity_lease_def Some Inr a slot)
      from body [OF b] fresh own have d: "own_slots w d = {}" "own_leases w d \<subseteq> {(p, n)}" "release \<or> isl r"
        by (auto simp: slot)
      from lease_released [OF d(2)] d(1,3) show ?thesis by (auto simp: out)
    qed
  qed
qed

text \<open>It returns when every job takes some time.\<close>

lemma drain_returns:
  assumes "\<And>n. clock n + \<delta> \<le> clock (Suc n)" and "0 < \<delta>"
  shows "drain_queue envs clock budget ca db \<noteq> None"
proof -
  let ?run = "\<lambda>(db, n). case run_single_worker_job (envs n) ca db of (db', res) \<Rightarrow> ((db', Suc n), map_sum id rr_claimed res)"
  have "(case s of (db, n) \<Rightarrow> clock n) + \<delta> \<le> (case s' of (db, n) \<Rightarrow> clock n)" if "?run s = (s', Inr True)" for s s'
    using that assms(1) by (auto split: prod.splits)
  from drain_loop_terminates [where run = ?run and clock = "\<lambda>(db, n). clock n", OF this assms(2),
      of "clock 0 + budget" "(db, 0)" 0]
  obtain s' r where "drain_loop ?run (\<lambda>(db, n). clock n) (clock 0 + budget) (db, 0) 0 = Some (s', r)" by blast
  then show ?thesis by (simp add: drain_queue_def drain_worker_jobs_def)
qed

lemma under_queue_slot_returns:
  "(\<And>slot d. body slot d \<noteq> None) \<Longrightarrow> under_queue_slot env key limit w secs c body idle db \<noteq> None"
  by (simp add: under_queue_slot_def option.map_disc_iff del: not_None_eq split: prod.split option.split)

lemma under_capacity_lease_returns:
  "(\<And>c d. body c d \<noteq> None) \<Longrightarrow> under_capacity_lease env provider w body idle db \<noteq> None"
  by (simp add: under_capacity_lease_def option.map_disc_iff del: not_None_eq split: prod.split option.split sum.split)

lemma assigned_worker_returns:
  assumes "\<And>n. clock n + \<delta> \<le> clock (Suc n)" and "0 < \<delta>"
  shows "run_assigned_queue_worker env envs clock key w budget secs variant lane db \<noteq> None"
proof -
  note returns = under_capacity_lease_returns under_queue_slot_returns
    drain_returns [where clock = clock and \<delta> = \<delta>, OF assms]
  show ?thesis
    by (simp add: run_assigned_queue_worker_def Let_def returns del: not_None_eq split: sum.split)
qed

lemma assigned_worker_out:
  assumes "run_assigned_queue_worker env envs clock key w budget secs variant lane db = Some (db', res)"
    and "own_slots w db = {}" and "own_leases w db = {}"
    and "\<And>n d. takes_nothing w d (re_meanwhile (envs n) d)"
  shows "(\<forall>r \<in> set (db_slots db'). qs_locked_by r \<noteq> Some w) \<and>
    (\<not> isl res \<longrightarrow> (\<forall>l \<in> set (db_leases db'). cl_locked_by l = Some w \<longrightarrow> sandbox_may_exist (db_runs db') l))"
proof -
  have none: "own_slots w d = {} \<longleftrightarrow> (\<forall>r \<in> set (db_slots d). qs_locked_by r \<noteq> Some w)"
      "own_leases w d = {} \<longleftrightarrow> (\<forall>l \<in> set (db_leases d). cl_locked_by l \<noteq> Some w)" for d
    by (auto simp: owned_ids_def)
  let ?provider = "capacity_provider_for_execution_lane (Some lane)"
  let ?body = "\<lambda>limit capacity_slot. under_queue_slot env key limit w secs capacity_slot
    (\<lambda>slot. drain_queue envs clock budget (worker_claim key w variant lane ?provider capacity_slot slot)) 0"
  from assms(1) consider "db' = db"
    | limit where "under_capacity_lease env ?provider w (?body limit) 0 db = Some (db', res)"
    by (auto simp: run_assigned_queue_worker_def Let_def split: if_splits sum.splits)
  then show ?thesis
  proof cases
    case 1
    with assms(2,3) show ?thesis unfolding none by blast
  next
    case (2 limit)
    have "own_slots w d' = {} \<and> own_leases w d' \<subseteq> own_leases w d \<and> (release \<or> isl r)"
      if "?body limit c d = Some (d', r, release)" "own_slots w d = {}" for c d d' r release
      by (rule job_under_slot [OF that(1) _ that(2)]) (rule drain_takes_nothing [OF _ assms(4)])
    from under_capacity_lease_out [OF 2 this assms(2,3)] show ?thesis unfolding none .
  qed
qed


text \<open>The same of a task of the in-process dispatcher, which hides what it raised.\<close>

lemma safe_run_leaves_no_slot:
  assumes "safe_run env run key w variant lane db = (db', res)"
    and "own_slots w db = {}" and "own_leases w db = {}" and "\<And>d. takes_nothing w d (re_meanwhile run d)"
  shows "own_slots w db' = {}" and "\<And>e. res = Inl e \<Longrightarrow> e = CancelledError"
proof -
  let ?provider = "capacity_provider_for_execution_lane (Some lane)"
  define body :: "int option \<Rightarrow> int \<Rightarrow> queue_db \<Rightarrow> (queue_db \<times> (exc + unit)) option"
    where "body = (\<lambda>capacity_slot slot db. Some (apsnd (map_sum id (\<lambda>_. ()))
            (run_single_worker_job run (worker_claim key w (Some variant)
               (if ?provider = None then ''default'' else lane) ?provider capacity_slot slot) db)))"
  define inner :: "int option \<Rightarrow> queue_db \<Rightarrow> (queue_db \<times> (exc + unit) \<times> bool) option"
    where "inner = (\<lambda>capacity_slot db. case sh_limit env of
                Inl e \<Rightarrow> Some (db, Inl e, True)
              | Inr limit \<Rightarrow>
                  if limit \<le> 0 then Some (db, Inr (), True)
                  else under_queue_slot env key limit w DEFAULT_SLOT_LEASE_SECONDS capacity_slot
                    (body capacity_slot) () db)"
  have result: "(db', res) = (case under_capacity_lease env ?provider w inner () db of
            None \<Rightarrow> (db, Inr ())
          | Some (db', Inl e) \<Rightarrow> (db', if is_Exception e then Inr () else Inl e)
          | Some (db', Inr ()) \<Rightarrow> (db', Inr ()))"
    using assms(1) unfolding safe_run_def Let_def body_def inner_def by (rule sym)
  have job: "takes_nothing w d d'" if "body c slot d = Some (d', r)" for c slot d d' r
    using that single_takes_nothing [OF _ assms(4)] by (auto simp: body_def apsnd_def map_prod_def split: prod.splits)
  have "own_slots w d' = {} \<and> own_leases w d' \<subseteq> own_leases w d \<and> (release \<or> isl r)"
    if i: "inner c d = Some (d', r, release)" and f: "own_slots w d = {}" for c d d' r release
  proof (cases "\<exists>limit. sh_limit env = Inr limit \<and> 0 < limit")
    case False
    with i f show ?thesis by (auto simp: inner_def split: sum.splits if_splits)
  next
    case True
    with i obtain limit where "under_queue_slot env key limit w DEFAULT_SLOT_LEASE_SECONDS c (body c) () d
        = Some (d', r, release)" by (auto simp: inner_def)
    from job_under_slot [OF this job f] show ?thesis .
  qed
  note out = under_capacity_lease_out [OF _ this assms(2,3)]
  show "own_slots w db' = {}"
    using result assms(2) out by (auto split: option.splits sum.splits unit.splits)
  have "\<not> is_Exception e" if "res = Inl e" for e
    using result that by (auto split: option.splits sum.splits unit.splits if_splits)
  then show "e = CancelledError" if "res = Inl e" for e using that by (cases e) auto
qed

definition sample_shell :: shell_env where
  "sample_shell = \<lparr>sh_settings = \<lparr>cs_ec2_enabled = False, cs_ec2_max_concurrent_instances = 0,
     cs_thunder_enabled = False, cs_thunder_max_capacity = 0\<rparr>, sh_limit = Inr 2, sh_lease_now = 0,
     sh_lease_skip = (\<lambda>l. False), sh_slot_now = 0, sh_slot_skip = (\<lambda>r. False)\<rparr>"


end
