(* ===== verification/Model_Concurrency.thy ===== *)
theory Model_Concurrency
  imports Queue_Keys Db_Tables
begin

text \<open>
  The limits that administrators set per queue: \<open>core/model_concurrency.py\<close> and its table
  \<open>model_concurrency_overrides\<close>. \<open>nk\<close> stands for \<open>normalize_queue_key\<close> with its parameters.
\<close>

subsection \<open>The table\<close>

definition MAX_MODEL_CONCURRENCY :: int where "MAX_MODEL_CONCURRENCY = 10000"

record override_row =
  mo_queue_key :: string
  mo_concurrency_limit :: int
  mo_updated_at :: int

definition wf_override :: "override_row \<Rightarrow> bool" where
  "wf_override r \<longleftrightarrow> 0 \<le> mo_concurrency_limit r \<and> mo_concurrency_limit r \<le> 10000"

definition wf_overrides :: "override_row list \<Rightarrow> bool" where
  "wf_overrides t \<longleftrightarrow> distinct (map mo_queue_key t) \<and> list_all wf_override t"

subsection \<open>Operations\<close>

definition get_model_concurrency_overrides ::
  "(string \<Rightarrow> string) \<Rightarrow> string list option \<Rightarrow> override_row list \<Rightarrow> (string, int) dict" where
  "get_model_concurrency_overrides nk queue_keys t =
     (let row = (\<lambda>r. (mo_queue_key r, mo_concurrency_limit r)) in
      case queue_keys of
        None \<Rightarrow> map row t
      | Some keys \<Rightarrow>
          (let normalized = sort (remdups (map nk keys)) in
           if normalized = [] then [] else map row (filter (\<lambda>r. mo_queue_key r \<in> set normalized) t)))"

definition get_effective_model_concurrency_limits ::
  "(string \<Rightarrow> string) \<Rightarrow> queue_settings \<Rightarrow> string list \<Rightarrow> override_row list \<Rightarrow> (string, int) dict" where
  "get_effective_model_concurrency_limits nk cfg keys t =
     (let overrides = get_model_concurrency_overrides nk (Some keys) t in
      foldl (\<lambda>d key. dict_set d key (dict_get overrides (nk key) (get_model_concurrency nk cfg key))) [] keys)"

text \<open>\<open>read\<close> is the table as the session reads it, or what opening or reading it raised.\<close>

definition load_effective_model_concurrency_limits ::
  "(string \<Rightarrow> string) \<Rightarrow> queue_settings \<Rightarrow> string list \<Rightarrow> exc + override_row list \<Rightarrow> exc + (string, int) dict" where
  "load_effective_model_concurrency_limits nk cfg keys read =
     (case read of
        Inr t \<Rightarrow> Inr (get_effective_model_concurrency_limits nk cfg keys t)
      | Inl e \<Rightarrow> if is_Exception e then Inr (foldl (\<lambda>d key. dict_set d key 0) [] keys) else Inl e)"

definition load_effective_model_concurrency_limit ::
  "(string \<Rightarrow> string) \<Rightarrow> queue_settings \<Rightarrow> string \<Rightarrow> exc + override_row list \<Rightarrow> exc + int" where
  "load_effective_model_concurrency_limit nk cfg key read =
     bind_err (load_effective_model_concurrency_limits nk cfg [key] read) (\<lambda>limits.
       case map_of limits key of None \<Rightarrow> Inl (OtherError ''KeyError'') | Some n \<Rightarrow> Inr n)"

definition upsert_override :: "int \<Rightarrow> string \<Rightarrow> int \<Rightarrow> override_row list \<Rightarrow> override_row list" where
  "upsert_override now key limit t =
     (if \<exists>r \<in> set t. mo_queue_key r = key
      then update_where (\<lambda>r. mo_queue_key r = key)
             (\<lambda>r. r\<lparr>mo_concurrency_limit := limit, mo_updated_at := now\<rparr>) t
      else t @ [\<lparr>mo_queue_key = key, mo_concurrency_limit = limit, mo_updated_at = now\<rparr>])"

definition set_model_concurrency_override ::
  "(string \<Rightarrow> string) \<Rightarrow> int \<Rightarrow> string \<Rightarrow> int option \<Rightarrow> override_row list \<Rightarrow> exc + (override_row list \<times> string)" where
  "set_model_concurrency_override nk now queue_key limit t =
     (case limit of
        Some n \<Rightarrow>
          if \<not> (0 \<le> n \<and> n \<le> MAX_MODEL_CONCURRENCY)
          then Inl (OtherError (''limit must be between 0 and '' @ string_of_int MAX_MODEL_CONCURRENCY))
          else Inr (upsert_override now (nk queue_key) n t, nk queue_key)
      | None \<Rightarrow> Inr (filter (\<lambda>r. mo_queue_key r \<noteq> nk queue_key) t, nk queue_key))"

subsection \<open>Lemmas\<close>

definition override_of :: "string \<Rightarrow> override_row list \<Rightarrow> int option" where
  "override_of key t = map_of (map (\<lambda>r. (mo_queue_key r, mo_concurrency_limit r)) t) key"

lemma override_of_simps [simp]:
  "override_of key [] = None"
  "override_of key (r # t) = (if mo_queue_key r = key then Some (mo_concurrency_limit r) else override_of key t)"
  by (auto simp: override_of_def)

lemma override_of_filter: "P key \<Longrightarrow> override_of key (filter (\<lambda>r. P (mo_queue_key r)) t) = override_of key t"
  by (induction t) auto

lemma override_of_deleted: "override_of key' (filter (\<lambda>r. mo_queue_key r \<noteq> key) t) =
    (if key' = key then None else override_of key' t)"
  by (induction t) auto

lemma override_of_absent: "\<forall>r \<in> set t. mo_queue_key r \<noteq> key \<Longrightarrow> override_of key t = None"
  by (induction t) auto

lemma override_of_append: "override_of key (t @ u) = (case override_of key t of None \<Rightarrow> override_of key u | Some n \<Rightarrow> Some n)"
  by (induction t) auto

lemma override_of_upsert:
  "override_of key' (upsert_override now key n t) = (if key' = key then Some n else override_of key' t)"
proof (cases "\<exists>r \<in> set t. mo_queue_key r = key")
  case True
  have "override_of key' (update_where (\<lambda>r. mo_queue_key r = key)
      (\<lambda>r. r\<lparr>mo_concurrency_limit := n, mo_updated_at := now\<rparr>) t) =
    (if key' = key \<and> (\<exists>r \<in> set t. mo_queue_key r = key) then Some n else override_of key' t)"
    by (induction t) auto
  with True show ?thesis by (simp add: upsert_override_def)
next
  case False
  then show ?thesis
    using override_of_absent [of t key] by (auto simp: upsert_override_def override_of_append split: option.split)
qed

lemma dict_foldl_get:
  "map_of (foldl (\<lambda>d k. dict_set d k (f k)) d ks) k = (if k \<in> set ks then Some (f k) else map_of d k)"
  by (induction ks arbitrary: d) (auto simp: map_of_dict_set)

lemma effective_limit:
  "map_of (get_effective_model_concurrency_limits nk cfg keys t) key =
     (if key \<in> set keys
      then Some (case override_of (nk key) t of None \<Rightarrow> get_model_concurrency nk cfg key | Some n \<Rightarrow> n)
      else None)"
proof -
  have "map_of (get_model_concurrency_overrides nk (Some keys) t) (nk key) = override_of (nk key) t"
    if "key \<in> set keys"
  proof -
    have "nk key \<in> set (map nk keys)" "map nk keys \<noteq> []" using that by auto
    moreover from this have "sort (remdups (map nk keys)) \<noteq> []" by (metis length_0_conv length_sort remdups_eq_nil_iff)
    ultimately show ?thesis
      using override_of_filter [where P = "\<lambda>k. k \<in> set (map nk keys)" and key = "nk key" and t = t]
      by (simp add: get_model_concurrency_overrides_def override_of_def Let_def)
  qed
  then show ?thesis
    by (simp add: get_effective_model_concurrency_limits_def dict_foldl_get dict_get_def Let_def)
qed

lemma override_of_bounds: "wf_overrides t \<Longrightarrow> override_of key t = Some n \<Longrightarrow> 0 \<le> n \<and> n \<le> MAX_MODEL_CONCURRENCY"
  by (induction t) (auto simp: wf_overrides_def wf_override_def MAX_MODEL_CONCURRENCY_def split: if_splits)

lemma upsert_keys:
  "map mo_queue_key (upsert_override now key n t) =
     map mo_queue_key t @ (if key \<in> set (map mo_queue_key t) then [] else [key])"
  by (auto simp: upsert_override_def update_where_def image_iff)

lemma set_override_wf:
  assumes "wf_overrides t" and "set_model_concurrency_override nk now key limit t = Inr (t', k)"
  shows "wf_overrides t'"
proof (cases limit)
  case None
  with assms show ?thesis
    by (auto simp: set_model_concurrency_override_def wf_overrides_def distinct_map_filter list_all_iff)
next
  case (Some n)
  with assms(2) have n: "0 \<le> n" "n \<le> 10000" and t': "t' = upsert_override now (nk key) n t"
    by (auto simp: set_model_concurrency_override_def MAX_MODEL_CONCURRENCY_def split: if_splits)
  have "distinct (map mo_queue_key t')" using assms(1) by (simp add: t' upsert_keys wf_overrides_def)
  moreover have "list_all wf_override t'"
    using assms(1) n by (auto simp: t' upsert_override_def wf_overrides_def list_all_iff wf_override_def update_where_def)
  ultimately show ?thesis by (simp add: wf_overrides_def)
qed

subsection \<open>Properties\<close>

text \<open>
  C37. An override that was set is the limit that is read, under every spelling of the queue's
  name, and clearing it brings the deployed limit back; no other queue is affected, and the
  table keeps its constraints. A limit out of range is refused and changes nothing.
\<close>

theorem override_roundtrip:
  assumes "wf_overrides t"
  shows "case set_model_concurrency_override nk now key limit t of
      Inl e \<Rightarrow> \<exists>n. limit = Some n \<and> \<not> (0 \<le> n \<and> n \<le> 10000)
    | Inr (t', k) \<Rightarrow> k = nk key \<and> wf_overrides t' \<and>
        (\<forall>keys key'. key' \<in> set keys \<longrightarrow>
           map_of (get_effective_model_concurrency_limits nk cfg keys t') key' =
             (if nk key' = nk key
              then Some (case limit of Some n \<Rightarrow> n | None \<Rightarrow> get_model_concurrency nk cfg key')
              else map_of (get_effective_model_concurrency_limits nk cfg keys t) key'))"
proof (cases "set_model_concurrency_override nk now key limit t")
  case (Inl e)
  then show ?thesis
    by (auto simp: set_model_concurrency_override_def MAX_MODEL_CONCURRENCY_def split: option.splits if_splits)
next
  case (Inr r)
  then obtain t' k where r: "set_model_concurrency_override nk now key limit t = Inr (t', k)" by (cases r) auto
  have k: "k = nk key" and look: "override_of key' t' = (if key' = nk key then limit else override_of key' t)" for key'
    using r by (auto simp: set_model_concurrency_override_def override_of_upsert override_of_deleted
        split: option.splits if_splits)
  show ?thesis
    unfolding r using set_override_wf [OF assms r] k
    by (simp add: effective_limit look split: option.split)
qed

theorem override_roundtrip_witness:
  "map_of (get_effective_model_concurrency_limits trimmed_key
     \<lparr>qg_overrides = [], qg_nop_oracle_concurrency = 1024, qg_default_model_concurrency = 8\<rparr> [''GPT-5'', ''o3'']
     [\<lparr>mo_queue_key = ''gpt-5'', mo_concurrency_limit = 3, mo_updated_at = 7\<rparr>]) ''GPT-5'' = Some 3"
proof -
  have set3: "set_model_concurrency_override trimmed_key 7 '' gpt-5'' (Some 3) [] =
      Inr ([\<lparr>mo_queue_key = ''gpt-5'', mo_concurrency_limit = 3, mo_updated_at = 7\<rparr>], ''gpt-5'')" by code_simp
  have keys: "trimmed_key ''GPT-5'' = trimmed_key '' gpt-5''" by code_simp
  have "wf_overrides []" by (simp add: wf_overrides_def)
  from override_roundtrip [OF this, where nk = trimmed_key and now = 7 and key = "'' gpt-5''" and limit = "Some 3"
    and cfg = "\<lparr>qg_overrides = [], qg_nop_oracle_concurrency = 1024, qg_default_model_concurrency = 8\<rparr>"]
  show ?thesis unfolding set3 using keys by simp
qed

text \<open>
  Loading the limits fails closed: the result has exactly the queues that were asked for and
  no negative limit, an override being at most the maximum; when the overrides cannot be read,
  every limit is zero, so that nothing is dispatched. Only a cancellation passes through.
\<close>

theorem limits_fail_closed:
  assumes "\<And>t. read = Inr t \<Longrightarrow> wf_overrides t"
  shows "case load_effective_model_concurrency_limits nk cfg keys read of
      Inl e \<Rightarrow> read = Inl CancelledError
    | Inr limits \<Rightarrow> dom (map_of limits) = set keys \<and>
        (\<forall>key n. map_of limits key = Some n \<longrightarrow> 0 \<le> n \<and> (isl read \<longrightarrow> n = 0) \<and>
           (n \<le> 10000 \<or> n = get_model_concurrency nk cfg key))"
proof (cases read)
  case (Inl e)
  then show ?thesis
    by (cases e) (auto simp: load_effective_model_concurrency_limits_def dict_foldl_get dom_def split: if_splits)
next
  case (Inr t)
  have "0 \<le> n \<and> (n \<le> 10000 \<or> n = get_model_concurrency nk cfg key)"
    if "map_of (get_effective_model_concurrency_limits nk cfg keys t) key = Some n" for key n
    using that override_of_bounds [OF assms [OF Inr]] get_model_concurrency_nonneg
    by (auto simp: effective_limit MAX_MODEL_CONCURRENCY_def split: if_splits option.splits)
  moreover have "dom (map_of (get_effective_model_concurrency_limits nk cfg keys t)) = set keys"
    by (auto simp: dom_def effective_limit)
  ultimately show ?thesis by (simp add: Inr load_effective_model_concurrency_limits_def)
qed

theorem limits_fail_closed_witness:
  "load_effective_model_concurrency_limits trimmed_key
     \<lparr>qg_overrides = [], qg_nop_oracle_concurrency = 1024, qg_default_model_concurrency = 8\<rparr> [''o3''] (Inl OSError)
     = Inr [(''o3'', 0)]"
proof -
  let ?cfg = "\<lparr>qg_overrides = [], qg_nop_oracle_concurrency = 1024, qg_default_model_concurrency = 8\<rparr>"
  have run: "load_effective_model_concurrency_limits trimmed_key ?cfg [''o3''] (Inl OSError) = Inr [(''o3'', n)]
      \<longleftrightarrow> n = 0" for n by (simp add: load_effective_model_concurrency_limits_def dict_set_def)
  from limits_fail_closed [where read = "Inl OSError" and nk = trimmed_key and cfg = ?cfg and keys = "[''o3'']"] show ?thesis by (simp add: run)
qed

end
