(* ===== verification/Idempotency.thy ===== *)
theory Idempotency
  imports Json_Text Db_Tables
begin

text \<open>
  Idempotent submissions: \<open>core/idempotency.py\<close>, the host names of \<open>registry_auth.py\<close> it
  fingerprints, and the table behind it, \<open>src/backend/idempotency_store.py\<close>. A client that
  repeats a request under the same key gets the stored response instead of a second sweep.

  SHA-256 and \<open>urlsplit\<close> are parameters; nothing below depends on what they compute. A
  transaction that rolls back leaves no step: an uncommitted row makes a second \<open>INSERT\<close> wait.
  Every \<open>get\<close> reads the committed row.
\<close>

subsection \<open>Registry hosts\<close>

definition DEFAULT_REGISTRY :: string where "DEFAULT_REGISTRY = ''docker.io''"
definition DOCKER_HUB_AUTH_KEY :: string where "DOCKER_HUB_AUTH_KEY = ''https://index.docker.io/v1/''"

definition DOCKER_HUB_ALIASES :: "string set" where
  "DOCKER_HUB_ALIASES = {'''', ''docker.io'', ''index.docker.io'', ''registry-1.docker.io'',
     ''https://index.docker.io/v1/'', ''https://registry-1.docker.io'', ''registry.hub.docker.com''}"

text \<open>The parts of \<open>urlsplit\<close>'s result that are read; \<open>None\<close> is its \<open>ValueError\<close>.\<close>

record split_url =
  su_hostname :: "string option"
  su_username :: "string option"
  su_password :: "string option"
  su_path :: string
  su_query :: string
  su_fragment :: string
  su_port :: "int option option"

definition given :: "string option \<Rightarrow> bool" where
  "given s \<longleftrightarrow> s \<noteq> None \<and> s \<noteq> Some []"

definition normalize_registry_host :: "(string \<Rightarrow> split_url option) \<Rightarrow> string option \<Rightarrow> exc + string" where
  "normalize_registry_host urlsplit registry =
     (let raw = str_strip (if given registry then the registry else DEFAULT_REGISTRY) in
      if raw = [] then Inr DEFAULT_REGISTRY
      else if str_lower raw \<in> DOCKER_HUB_ALIASES then Inr DEFAULT_REGISTRY
      else if list_ex (\<lambda>c. (of_char c :: nat) < 32 \<or> is_space c) raw
      then Inl (OtherError ''registry must be a host name without whitespace'')
      else (case urlsplit (if has_substring ''://'' raw then raw else ''//'' @ raw) of
         None \<Rightarrow> Inl (OtherError ''registry must be a host name'')
       | Some parsed \<Rightarrow>
           (let host = str_lower (case su_hostname parsed of None \<Rightarrow> [] | Some h \<Rightarrow> h) in
            if given (su_username parsed) \<or> given (su_password parsed)
            then Inl (OtherError ''registry must not include username or password'')
            else if su_path parsed \<notin> {'''', ''/''} \<or> su_query parsed \<noteq> [] \<or> su_fragment parsed \<noteq> []
            then Inl (OtherError ''registry must be a host name, not a URL path'')
            else if host = [] then Inl (OtherError ''registry must be a host name'')
            else (case su_port parsed of
               None \<Rightarrow> Inl (OtherError ''registry port must be a valid numeric port'')
             | Some port \<Rightarrow>
                 (let bracketed = (if CHR '':'' \<in> set host then ''['' @ host @ '']'' else host);
                      full = (case port of None \<Rightarrow> bracketed
                              | Some p \<Rightarrow> bracketed @ '':'' @ string_of_int p)
                  in Inr (if full \<in> DOCKER_HUB_ALIASES then DEFAULT_REGISTRY else full))))))"

subsection \<open>The hash of a request\<close>

record registry_auth =
  ra_registry :: string
  ra_username :: string
  ra_token :: string

definition registry_auth_fingerprint ::
  "(string \<Rightarrow> string) \<Rightarrow> (string \<Rightarrow> split_url option) \<Rightarrow> registry_auth \<Rightarrow> exc + (string \<times> string \<times> string)" where
  "registry_auth_fingerprint sha256 urlsplit item =
     bind_err (normalize_registry_host urlsplit (Some (ra_registry item))) (\<lambda>host.
       Inr (if host = ''docker.io'' then DOCKER_HUB_AUTH_KEY else host, str_strip (ra_username item),
            sha256 (ra_token item)))"

fun map_err :: "('a \<Rightarrow> 'e + 'b) \<Rightarrow> 'a list \<Rightarrow> 'e + 'b list" where
  "map_err f [] = Inr []"
| "map_err f (x # xs) = bind_err (f x) (\<lambda>y. bind_err (map_err f xs) (\<lambda>ys. Inr (y # ys)))"

definition fingerprint_json :: "string \<times> string \<times> string \<Rightarrow> json" where
  "fingerprint_json = (\<lambda>(registry, username, token_sha256).
     JObject [(''registry'', JString registry), (''username'', JString username),
              (''token_sha256'', JString token_sha256)])"

definition registry_auth_fingerprints ::
  "(string \<Rightarrow> string) \<Rightarrow> (string \<Rightarrow> split_url option) \<Rightarrow> registry_auth list option \<Rightarrow>
   exc + (string \<times> string \<times> string) list" where
  "registry_auth_fingerprints sha256 urlsplit raw =
     (case raw of
        None \<Rightarrow> Inr []
      | Some items \<Rightarrow> bind_err (map_err (registry_auth_fingerprint sha256 urlsplit) items)
          (\<lambda>fps. Inr (sort_key (\<lambda>(registry, username, _). (registry, username)) fps)))"

text \<open>
  A submission is what pydantic dumps of it and its attribute \<open>registry_auth\<close>, which some kinds
  of submission do not have.
\<close>

record submission =
  sb_dump :: "(string, json) dict"
  sb_registry_auth :: "registry_auth list option option"

definition drop_absent_github_id :: "(string, json) dict \<Rightarrow> (string, json) dict" where
  "drop_absent_github_id payload =
     (if dict_get payload ''github_id'' JNull = JNull then AList.delete ''github_id'' payload else payload)"

definition request_payload ::
  "(string \<Rightarrow> string) \<Rightarrow> (string \<Rightarrow> split_url option) \<Rightarrow> submission \<Rightarrow> exc + (string, json) dict" where
  "request_payload sha256 urlsplit s =
     (let payload = drop_absent_github_id (sb_dump s) in
      case sb_registry_auth s of
        None \<Rightarrow> Inr (drop_absent_github_id payload)
      | Some raw \<Rightarrow> bind_err (registry_auth_fingerprints sha256 urlsplit raw) (\<lambda>fps.
          Inr (drop_absent_github_id
            (dict_set payload ''registry_auth'' (JList (map fingerprint_json fps))))))"

definition compute_request_hash ::
  "(string \<Rightarrow> string) \<Rightarrow> (string \<Rightarrow> split_url option) \<Rightarrow> submission \<Rightarrow> exc + string" where
  "compute_request_hash sha256 urlsplit s =
     bind_err (request_payload sha256 urlsplit s) (\<lambda>payload. Inr (sha256 (canonical_text (JObject payload))))"

subsection \<open>The store\<close>

definition SWEEP_ROUTE :: string where "SWEEP_ROUTE = ''POST /tasks/sweep''"
definition IDEMPOTENCY_TTL :: int where "IDEMPOTENCY_TTL = 24 * 3600"
definition STATUS_IN_PROGRESS :: string where "STATUS_IN_PROGRESS = ''in_progress''"
definition STATUS_COMPLETED :: string where "STATUS_COMPLETED = ''completed''"
definition RESERVE_MAX_ATTEMPTS :: nat where "RESERVE_MAX_ATTEMPTS = 5"

record stored_idempotency_record =
  ir_request_hash :: string
  ir_status :: string
  ir_response_json :: "json option"
  ir_expires_at :: int

text \<open>A key is the organization, the route and the hash of the client's key.\<close>

type_synonym idem_key = "string \<times> string \<times> string"

record 's idempotency_store =
  st_get :: "idem_key \<Rightarrow> 's \<Rightarrow> stored_idempotency_record option"
  st_begin :: "idem_key \<Rightarrow> string \<Rightarrow> int \<Rightarrow> int \<Rightarrow> 's \<Rightarrow> 's \<times> bool"
  st_complete :: "idem_key \<Rightarrow> json \<Rightarrow> int \<Rightarrow> 's \<Rightarrow> 's"
  st_discard :: "idem_key \<Rightarrow> int \<Rightarrow> 's \<Rightarrow> 's"

datatype idempotency_error = Idempotency_conflict string | Idempotency_replay json

record idem_request =
  rq_org_id :: string
  rq_route :: string
  rq_raw_key :: string
  rq_request_hash :: string
  rq_now :: int

definition request_key :: "(string \<Rightarrow> string) \<Rightarrow> idem_request \<Rightarrow> idem_key" where
  "request_key sha256 q = (rq_org_id q, rq_route q, sha256 (rq_raw_key q))"

definition or_empty_dict :: "json option \<Rightarrow> json" where
  "or_empty_dict r = (case r of None \<Rightarrow> JObject [] | Some v \<Rightarrow> v)"

definition live_refusal :: "stored_idempotency_record \<Rightarrow> string \<Rightarrow> idempotency_error" where
  "live_refusal existing request_hash =
     (if ir_request_hash existing \<noteq> request_hash
      then Idempotency_conflict ''This Idempotency-Key was already used with a different request.''
      else if ir_status existing = STATUS_IN_PROGRESS
      then Idempotency_conflict ''A submission with this Idempotency-Key is still in progress.''
      else Idempotency_replay (or_empty_dict (ir_response_json existing)))"

text \<open>
  The attempts of \<open>reserve_idempotency_slot\<close>. Other requests may commit before every statement:
  \<open>env i\<close> is what they did before the \<open>i\<close>-th.
\<close>

fun reserve_attempts ::
  "'s idempotency_store \<Rightarrow> (nat \<Rightarrow> 's \<Rightarrow> 's) \<Rightarrow> idem_key \<Rightarrow> string \<Rightarrow> int \<Rightarrow> nat \<Rightarrow> nat \<Rightarrow> 's \<Rightarrow>
   's \<times> (idempotency_error + idem_key)" where
  "reserve_attempts st env key request_hash now i 0 s =
     (s, Inl (Idempotency_conflict ''A submission with this Idempotency-Key is already in progress.''))"
| "reserve_attempts st env key request_hash now i (Suc n) s =
     (case st_begin st key request_hash now (now + IDEMPOTENCY_TTL) (env i s) of
        (s1, True) \<Rightarrow> (s1, Inr key)
      | (s1, False) \<Rightarrow>
          (let s2 = env (i + 1) s1 in
           case st_get st key s2 of
             None \<Rightarrow> reserve_attempts st env key request_hash now (i + 2) n s2
           | Some existing \<Rightarrow>
               if ir_expires_at existing \<le> now
               then reserve_attempts st env key request_hash now (i + 3) n
                      (st_discard st key now (env (i + 2) s2))
               else (s2, Inl (live_refusal existing request_hash))))"

definition reserve_idempotency_slot ::
  "'s idempotency_store \<Rightarrow> (string \<Rightarrow> string) \<Rightarrow> (nat \<Rightarrow> 's \<Rightarrow> 's) \<Rightarrow> idem_request \<Rightarrow> 's \<Rightarrow>
   's \<times> (idempotency_error + idem_key)" where
  "reserve_idempotency_slot st sha256 env q s =
     reserve_attempts st env (request_key sha256 q) (rq_request_hash q) (rq_now q) 0 RESERVE_MAX_ATTEMPTS s"

definition probe_completed_replay ::
  "'s idempotency_store \<Rightarrow> (string \<Rightarrow> string) \<Rightarrow> idem_request \<Rightarrow> 's \<Rightarrow> json option" where
  "probe_completed_replay st sha256 q s =
     (case st_get st (request_key sha256 q) s of
        None \<Rightarrow> None
      | Some existing \<Rightarrow>
          if ir_expires_at existing \<le> rq_now q then None
          else if ir_request_hash existing \<noteq> rq_request_hash q \<or> ir_status existing \<noteq> STATUS_COMPLETED
          then None
          else Some (or_empty_dict (ir_response_json existing)))"

subsection \<open>The table\<close>

record submission_idempotency =
  si_org_id :: string
  si_route :: string
  si_key_hash :: string
  si_request_hash :: string
  si_status :: string
  si_response_json :: "json option"
  si_expires_at :: int
  si_created_at :: int
  si_updated_at :: int

definition si_key :: "submission_idempotency \<Rightarrow> idem_key" where
  "si_key r = (si_org_id r, si_route r, si_key_hash r)"

definition stored_of :: "submission_idempotency \<Rightarrow> stored_idempotency_record" where
  "stored_of r = \<lparr>ir_request_hash = si_request_hash r, ir_status = si_status r,
     ir_response_json = si_response_json r, ir_expires_at = si_expires_at r\<rparr>"

definition table_get :: "idem_key \<Rightarrow> submission_idempotency list \<Rightarrow> stored_idempotency_record option" where
  "table_get key t = map_option stored_of (find (\<lambda>r. si_key r = key) t)"

definition in_progress_row :: "idem_key \<Rightarrow> string \<Rightarrow> int \<Rightarrow> int \<Rightarrow> submission_idempotency" where
  "in_progress_row key request_hash now expires_at =
     \<lparr>si_org_id = fst key, si_route = fst (snd key), si_key_hash = snd (snd key),
      si_request_hash = request_hash, si_status = STATUS_IN_PROGRESS, si_response_json = None,
      si_expires_at = expires_at, si_created_at = now, si_updated_at = now\<rparr>"

text \<open>The unique index on the key makes the \<open>INSERT\<close> fail, and with it only the savepoint.\<close>

definition table_begin ::
  "idem_key \<Rightarrow> string \<Rightarrow> int \<Rightarrow> int \<Rightarrow> submission_idempotency list \<Rightarrow> submission_idempotency list \<times> bool" where
  "table_begin key request_hash now expires_at t =
     (if \<exists>r \<in> set t. si_key r = key then (t, False)
      else (t @ [in_progress_row key request_hash now expires_at], True))"

definition completed_row :: "json \<Rightarrow> int \<Rightarrow> submission_idempotency \<Rightarrow> submission_idempotency" where
  "completed_row response now r =
     r\<lparr>si_status := STATUS_COMPLETED, si_response_json := Some response, si_updated_at := now\<rparr>"

definition table_complete ::
  "idem_key \<Rightarrow> json \<Rightarrow> int \<Rightarrow> submission_idempotency list \<Rightarrow> submission_idempotency list" where
  "table_complete key response now t = update_where (\<lambda>r. si_key r = key) (completed_row response now) t"

definition table_discard :: "idem_key \<Rightarrow> int \<Rightarrow> submission_idempotency list \<Rightarrow> submission_idempotency list" where
  "table_discard key now t = filter (\<lambda>r. \<not> (si_key r = key \<and> si_expires_at r \<le> now)) t"

definition table_store :: "submission_idempotency list idempotency_store" where
  "table_store = \<lparr>st_get = table_get, st_begin = table_begin, st_complete = table_complete,
     st_discard = table_discard\<rparr>"

subsection \<open>The protocol of a store\<close>

text \<open>
  What the requests of all processes do to a store, in the order of their commits: the first
  component is the time. Every instant a request passes was read earlier. The label tells which
  key was reserved or completed.
\<close>

datatype idem_op = Tick | Reserved idem_key | Refused | Completed idem_key | Discarded

inductive idem_step :: "'s idempotency_store \<Rightarrow> idem_op \<Rightarrow> int \<times> 's \<Rightarrow> int \<times> 's \<Rightarrow> bool" for st where
  tick: "c \<le> c' \<Longrightarrow> idem_step st Tick (c, s) (c', s)"
| reserved: "now \<le> c \<Longrightarrow> st_begin st key h now (now + IDEMPOTENCY_TTL) s = (s', True) \<Longrightarrow>
    idem_step st (Reserved key) (c, s) (c, s')"
| refused: "now \<le> c \<Longrightarrow> st_begin st key h now (now + IDEMPOTENCY_TTL) s = (s', False) \<Longrightarrow>
    idem_step st Refused (c, s) (c, s')"
| completed: "idem_step st (Completed key) (c, s) (c, st_complete st key response now s)"
| discarded: "now \<le> c \<Longrightarrow> idem_step st Discarded (c, s) (c, st_discard st key now s)"

inductive idem_run :: "'s idempotency_store \<Rightarrow> idem_op list \<Rightarrow> int \<times> 's \<Rightarrow> int \<times> 's \<Rightarrow> bool" for st where
  stop: "idem_run st [] p p"
| step: "idem_step st a p q \<Longrightarrow> idem_run st ops q r \<Longrightarrow> idem_run st (a # ops) p r"

inductive_cases idem_stepE: "idem_step st a (c, s) q"
inductive_cases idem_run_NilE: "idem_run st [] p q"
inductive_cases idem_run_ConsE: "idem_run st (a # ops) p q"

lemma idem_run_mono: "idem_run st ops (c, s) (c', s') \<Longrightarrow> c \<le> c'"
  by (induction ops arbitrary: c s) (force elim: idem_run_NilE idem_run_ConsE idem_stepE)+

locale idempotent_store =
  fixes st :: "'s idempotency_store"
    and ok :: "'s \<Rightarrow> bool"
  assumes ok_begin: "ok s \<Longrightarrow> ok (fst (st_begin st key h now e s))"
    and ok_complete: "ok s \<Longrightarrow> ok (st_complete st key response now s)"
    and ok_discard: "ok s \<Longrightarrow> ok (st_discard st key now s)"
    and begin_absent: "ok s \<Longrightarrow> st_get st key s = None \<Longrightarrow>
      snd (st_begin st key h now e s) \<and>
      st_get st key (fst (st_begin st key h now e s)) =
        Some \<lparr>ir_request_hash = h, ir_status = STATUS_IN_PROGRESS, ir_response_json = None, ir_expires_at = e\<rparr>"
    and begin_present: "ok s \<Longrightarrow> st_get st key s = Some x \<Longrightarrow> st_begin st key h now e s = (s, False)"
    and begin_other: "ok s \<Longrightarrow> key \<noteq> key' \<Longrightarrow> st_get st key' (fst (st_begin st key h now e s)) = st_get st key' s"
    and get_complete: "ok s \<Longrightarrow> st_get st key' (st_complete st key response now s) =
      map_option (\<lambda>x. if key = key' then x\<lparr>ir_status := STATUS_COMPLETED, ir_response_json := Some response\<rparr> else x)
        (st_get st key' s)"
    and get_discard: "ok s \<Longrightarrow> st_get st key' (st_discard st key now s) =
      (case st_get st key' s of None \<Rightarrow> None
       | Some x \<Rightarrow> if key = key' \<and> ir_expires_at x \<le> now then None else Some x)"
begin

text \<open>Without interference, a free or expired key is taken and a live one is refused.\<close>

lemma reserve_free:
  assumes "ok s" and "case st_get st key s of None \<Rightarrow> True | Some x \<Rightarrow> ir_expires_at x \<le> now" and "2 \<le> n"
  shows "\<exists>s'. reserve_attempts st (\<lambda>_. id) key h now i n s = (s', Inr key) \<and>
    st_get st key s' = Some \<lparr>ir_request_hash = h, ir_status = STATUS_IN_PROGRESS, ir_response_json = None,
      ir_expires_at = now + IDEMPOTENCY_TTL\<rparr>"
proof -
  from \<open>2 \<le> n\<close> obtain m where n: "n = Suc (Suc m)" by (metis add_2_eq_Suc le_Suc_ex)
  have free: "\<exists>s'. reserve_attempts st (\<lambda>_. id) key h now i (Suc k) d = (s', Inr key) \<and>
    st_get st key s' = Some \<lparr>ir_request_hash = h, ir_status = STATUS_IN_PROGRESS, ir_response_json = None,
      ir_expires_at = now + IDEMPOTENCY_TTL\<rparr>" if "ok d" "st_get st key d = None" for d i k
    using begin_absent [OF that, of h now "now + IDEMPOTENCY_TTL"] by (auto split: prod.splits)
  show ?thesis
  proof (cases "st_get st key s")
    case None
    with free [OF assms(1)] show ?thesis by (simp only: n)
  next
    case (Some x)
    with assms(2) have gone: "st_get st key (st_discard st key now s) = None"
      by (simp add: get_discard [OF assms(1)])
    from Some assms(2) begin_present [OF assms(1) Some]
    have "reserve_attempts st (\<lambda>_. id) key h now i (Suc (Suc m)) s =
        reserve_attempts st (\<lambda>_. id) key h now (i + 3) (Suc m) (st_discard st key now s)"
      by (subst reserve_attempts.simps) (simp del: reserve_attempts.simps add: Let_def)
    with free [OF ok_discard [OF assms(1)] gone] show ?thesis by (simp only: n)
  qed
qed

text \<open>
  A live key refuses every request for as long as other requests leave its record alone, which
  they need not do to the rest of the store.
\<close>

lemma reserve_live:
  assumes "\<And>d j. ok d \<Longrightarrow> ok (env j d)" and "\<And>d j. ok d \<Longrightarrow> st_get st key (env j d) = st_get st key d"
    and "ok s" and "st_get st key s = Some x" and "now < ir_expires_at x" and "0 < n"
  shows "snd (reserve_attempts st env key h now i n s) = Inl (live_refusal x h)"
    and "fst (reserve_attempts st env key h now i n s) = env (i + 1) (env i s)"
proof -
  obtain m where n: "n = Suc m" using \<open>0 < n\<close> gr0_implies_Suc by blast
  have get: "st_get st key (env i s) = Some x" "st_get st key (env (i + 1) (env i s)) = Some x"
    using assms(1-4) by simp_all
  from begin_present [OF assms(1) [OF assms(3)] get(1)] get(2) assms(5)
  have "reserve_attempts st env key h now i n s = (env (i + 1) (env i s), Inl (live_refusal x h))"
    by (simp add: n)
  then show "snd (reserve_attempts st env key h now i n s) = Inl (live_refusal x h)"
    and "fst (reserve_attempts st env key h now i n s) = env (i + 1) (env i s)" by simp_all
qed

lemma probe_live:
  "st_get st (request_key sha256 q) s = Some x \<Longrightarrow> rq_now q < ir_expires_at x \<Longrightarrow>
   probe_completed_replay st sha256 q s =
     (if ir_request_hash x = rq_request_hash q \<and> ir_status x = STATUS_COMPLETED
      then Some (or_empty_dict (ir_response_json x)) else None)"
  by (simp add: probe_completed_replay_def)

text \<open>Whatever others do, a reservation is the caller's own record.\<close>

lemma reserve_own:
  assumes "\<And>d j. ok d \<Longrightarrow> ok (env j d)" and "ok s"
    and "reserve_attempts st env key h now i n s = (s', Inr k)"
  shows "k = key \<and> st_get st key s' = Some \<lparr>ir_request_hash = h, ir_status = STATUS_IN_PROGRESS,
      ir_response_json = None, ir_expires_at = now + IDEMPOTENCY_TTL\<rparr>"
  using assms(2,3)
proof (induction n arbitrary: i s)
  case 0
  then show ?case by simp
next
  case (Suc n)
  let ?b = "st_begin st key h now (now + IDEMPOTENCY_TTL) (env i s)"
  have "ok (env i s)" using Suc.prems(1) assms(1) by simp
  note ok = this ok_begin [OF this, of key h now "now + IDEMPOTENCY_TTL"]
  show ?case
  proof (cases "snd ?b")
    case True
    then have "st_get st key (env i s) = None"
      using begin_present [OF ok(1), of key _ h now "now + IDEMPOTENCY_TTL"] by (cases "st_get st key (env i s)") simp_all
    note mine = begin_absent [OF ok(1) this, of h now "now + IDEMPOTENCY_TTL"]
    obtain d where b: "?b = (d, True)" using True by (metis prod.collapse)
    from Suc.prems(2) have "d = s' \<and> k = key" by (simp add: b)
    with mine show ?thesis by (simp add: b)
  next
    case False
    let ?s1 = "env (i + 1) (fst ?b)"
    have "ok ?s1" using ok(2) assms(1) by simp
    moreover from this have "ok (st_discard st key now (env (i + 2) ?s1))" using assms(1) ok_discard by simp
    moreover from False Suc.prems(2) have
      "reserve_attempts st env key h now (i + 2) n ?s1 = (s', Inr k) \<or>
       reserve_attempts st env key h now (i + 3) n (st_discard st key now (env (i + 2) ?s1)) = (s', Inr k)"
      by (auto simp: Let_def split: prod.splits option.splits if_splits bool.splits)
    ultimately show ?thesis using Suc.IH by blast
  qed
qed

lemma reserve_ok:
  assumes "\<And>d j. ok d \<Longrightarrow> ok (env j d)" and "ok s"
  shows "ok (fst (reserve_attempts st env key h now i n s))"
  using assms(2)
proof (induction n arbitrary: i s)
  case 0
  then show ?case by simp
next
  case (Suc n)
  obtain s1 b where b: "st_begin st key h now (now + IDEMPOTENCY_TTL) (env i s) = (s1, b)" by fastforce
  with ok_begin [OF assms(1) [OF Suc.prems], of key h now "now + IDEMPOTENCY_TTL" i] have "ok s1" by simp
  then have next_ok: "ok (env j s1)" "ok (st_discard st key now (env k (env j s1)))" for j k
    using assms(1) ok_discard by simp_all
  show ?case
  proof (cases b)
    case True
    with b \<open>ok s1\<close> show ?thesis by simp
  next
    case False
    with b next_ok Suc.IH show ?thesis by (simp add: Let_def split: option.split)
  qed
qed

text \<open>A live record survives everything but its completion.\<close>

lemma step_keeps_live:
  assumes "idem_step st a (c, s) (c', s')" and "ok s" and "st_get st key s = Some x" and "c' < ir_expires_at x"
  shows "ok s' \<and> c \<le> c' \<and> a \<noteq> Reserved key \<and>
    (\<exists>y. st_get st key s' = Some y \<and> ir_request_hash y = ir_request_hash x \<and> ir_expires_at y = ir_expires_at x \<and>
      (a \<noteq> Completed key \<longrightarrow> y = x))"
  using assms(1)
proof (cases rule: idem_step.cases)
  case tick
  with assms show ?thesis by simp
next
  case (reserved now k h)
  then have b: "fst (st_begin st k h now (now + IDEMPOTENCY_TTL) s) = s'" "snd (st_begin st k h now (now + IDEMPOTENCY_TTL) s)"
    by simp_all
  have "k \<noteq> key" using begin_present [OF assms(2,3)] b(2) by auto
  with begin_other [OF assms(2), of k key h now "now + IDEMPOTENCY_TTL"] ok_begin [OF assms(2), of k h now "now + IDEMPOTENCY_TTL"]
    b reserved assms(3) show ?thesis by simp
next
  case (refused now k h)
  have "s' = fst (st_begin st k h now (now + IDEMPOTENCY_TTL) s)" using refused by simp
  moreover have "st_get st key s' = Some x"
  proof (cases "k = key")
    case True
    with begin_present [OF assms(2,3)] refused assms(3) show ?thesis by auto
  next
    case False
    with begin_other [OF assms(2) this] refused assms(3) show ?thesis by (metis fst_conv)
  qed
  moreover have "ok (fst (st_begin st k h now (now + IDEMPOTENCY_TTL) s))" by (rule ok_begin [OF assms(2)])
  ultimately show ?thesis using refused by simp
next
  case (completed k)
  then show ?thesis using assms(3) by (auto simp: get_complete [OF assms(2)] ok_complete [OF assms(2)])
next
  case (discarded now k)
  then show ?thesis using assms(3,4) by (auto simp: get_discard [OF assms(2)] ok_discard [OF assms(2)])
qed

lemma run_keeps_live:
  assumes "idem_run st ops (c, s) (c', s')" and "ok s" and "st_get st key s = Some x" and "c' < ir_expires_at x"
  shows "ok s' \<and> c \<le> c' \<and> Reserved key \<notin> set ops \<and>
    (\<exists>y. st_get st key s' = Some y \<and> ir_request_hash y = ir_request_hash x \<and> ir_expires_at y = ir_expires_at x \<and>
      (Completed key \<notin> set ops \<longrightarrow> y = x))"
  using assms
proof (induction ops arbitrary: c s x)
  case Nil
  then show ?case by (auto elim: idem_run_NilE)
next
  case (Cons a ops)
  from Cons.prems(1) obtain c1 s1 where first: "idem_step st a (c, s) (c1, s1)"
    and rest: "idem_run st ops (c1, s1) (c', s')" by (elim idem_run_ConsE) (metis prod.collapse)
  from idem_run_mono [OF rest] Cons.prems(4) have "c1 < ir_expires_at x" by simp
  from step_keeps_live [OF first Cons.prems(2,3) this] obtain y where
    y: "ok s1" "c \<le> c1" "a \<noteq> Reserved key" "st_get st key s1 = Some y" "ir_request_hash y = ir_request_hash x"
       "ir_expires_at y = ir_expires_at x" "a \<noteq> Completed key \<longrightarrow> y = x" by auto
  with Cons.IH [OF rest y(1,4)] Cons.prems(4) show ?case by auto
qed

end

subsection \<open>The table keeps the protocol\<close>

abbreviation unique_keys :: "submission_idempotency list \<Rightarrow> bool" where
  "unique_keys t \<equiv> distinct (map si_key t)"

lemma table_store_simps [simp]:
  "st_get table_store = table_get" "st_begin table_store = table_begin"
  "st_complete table_store = table_complete" "st_discard table_store = table_discard"
  by (simp_all add: table_store_def)

lemma in_progress_row_simps [simp]:
  "si_key (in_progress_row key h now e) = key"
  "stored_of (in_progress_row key h now e) =
     \<lparr>ir_request_hash = h, ir_status = STATUS_IN_PROGRESS, ir_response_json = None, ir_expires_at = e\<rparr>"
  by (simp_all add: si_key_def in_progress_row_def stored_of_def)

lemma completed_row_simps [simp]:
  "si_key (completed_row response now r) = si_key r"
  "stored_of (completed_row response now r) =
     (stored_of r)\<lparr>ir_status := STATUS_COMPLETED, ir_response_json := Some response\<rparr>"
  by (simp_all add: si_key_def completed_row_def stored_of_def)

lemma table_complete_keys: "map si_key (table_complete key response now t) = map si_key t"
  by (simp add: table_complete_def update_where_def)

lemma table_get_None: "table_get key t = None \<longleftrightarrow> (\<forall>r \<in> set t. si_key r \<noteq> key)"
  by (auto simp: table_get_def find_None_iff)

lemma table_get_single: "table_get key [r] = (if si_key r = key then Some (stored_of r) else None)"
  by (simp add: table_get_def)

lemma table_get_rows:
  "unique_keys t \<Longrightarrow> (\<forall>r \<in> set t. si_key r = key \<longrightarrow> si_expires_at r \<le> now) \<longleftrightarrow>
     (case table_get key t of None \<Rightarrow> True | Some x \<Rightarrow> ir_expires_at x \<le> now)"
proof (induction t)
  case (Cons r t)
  have "table_get key (r # t) = (if si_key r = key then Some (stored_of r) else table_get key t)"
    by (simp add: table_get_def)
  moreover have "\<forall>r' \<in> set t. si_key r' \<noteq> key" if "si_key r = key"
    using Cons.prems that by (auto simp: image_iff)
  moreover have "ir_expires_at (stored_of r) = si_expires_at r" by (simp add: stored_of_def)
  ultimately show ?case using Cons by auto
qed (simp add: table_get_def)

lemma table_get_append:
  "table_get key (t @ u) = (case table_get key t of None \<Rightarrow> table_get key u | Some x \<Rightarrow> Some x)"
  by (induction t) (auto simp: table_get_def)

lemma table_get_complete:
  "table_get key' (table_complete key response now t) =
     map_option (\<lambda>x. if key = key' then x\<lparr>ir_status := STATUS_COMPLETED, ir_response_json := Some response\<rparr> else x)
       (table_get key' t)"
  by (induction t) (auto simp: table_get_def table_complete_def)

lemma table_get_discard:
  "unique_keys t \<Longrightarrow> table_get key' (table_discard key now t) =
     (case table_get key' t of None \<Rightarrow> None
      | Some x \<Rightarrow> if key = key' \<and> ir_expires_at x \<le> now then None else Some x)"
proof (induction t)
  case (Cons r t)
  have "table_get key' (r # t) = (if si_key r = key' then Some (stored_of r) else table_get key' t)"
    for r t by (simp add: table_get_def)
  moreover have "table_get key' t = None" if "si_key r = key'"
    using Cons.prems that unfolding table_get_None by (auto simp: image_iff)
  moreover have "ir_expires_at (stored_of r) = si_expires_at r" by (simp add: stored_of_def)
  ultimately show ?case using Cons by (auto simp: table_discard_def)
qed (simp add: table_get_def table_discard_def)

interpretation submissions: idempotent_store table_store unique_keys
proof
  fix t :: "submission_idempotency list" and key key' :: idem_key and h now e response x
  assume t: "unique_keys t"
  show "unique_keys (fst (st_begin table_store key h now e t))" using t by (auto simp: table_begin_def)
  show "unique_keys (st_complete table_store key response now t)" using t by (simp add: table_complete_keys)
  show "unique_keys (st_discard table_store key now t)" using t by (simp add: table_discard_def distinct_map_filter)
  show "st_get table_store key' (st_complete table_store key response now t) =
      map_option (\<lambda>x. if key = key' then x\<lparr>ir_status := STATUS_COMPLETED, ir_response_json := Some response\<rparr> else x)
        (st_get table_store key' t)" by (simp add: table_get_complete)
  show "st_get table_store key' (st_discard table_store key now t) =
      (case st_get table_store key' t of None \<Rightarrow> None
       | Some x \<Rightarrow> if key = key' \<and> ir_expires_at x \<le> now then None else Some x)"
    by (simp add: table_get_discard [OF t])
next
  fix t :: "submission_idempotency list" and key :: idem_key and h now e
  assume "st_get table_store key t = None"
  then show "snd (st_begin table_store key h now e t) \<and> st_get table_store key (fst (st_begin table_store key h now e t)) =
      Some \<lparr>ir_request_hash = h, ir_status = STATUS_IN_PROGRESS, ir_response_json = None, ir_expires_at = e\<rparr>"
    using table_get_None [of key t] by (auto simp: table_begin_def table_get_append table_get_single)
next
  fix t :: "submission_idempotency list" and key :: idem_key and h now e x
  assume "st_get table_store key t = Some x"
  then show "st_begin table_store key h now e t = (t, False)"
    using table_get_None [of key t] by (auto simp: table_begin_def)
next
  fix t :: "submission_idempotency list" and key key' :: idem_key and h now e
  assume "key \<noteq> key'"
  then show "st_get table_store key' (fst (st_begin table_store key h now e t)) = st_get table_store key' t"
    by (auto simp: table_begin_def table_get_append table_get_single split: option.split)
qed

subsection \<open>Properties\<close>

text \<open>
  C35. Complete and replay: once a request has reserved its key and stored its response, every
  retry under the same key within the 24 hours gets exactly that response, from the reservation
  and from the probe alike, when its body is the same, and a conflict when it is another,
  whatever other requests do meanwhile and even between the statements of the retry. Before the
  response is stored a retry is told that the submission is in progress. No retry changes the
  table.
\<close>

theorem retry_replays_response:
  assumes "unique_keys t" and "\<And>i d. unique_keys d \<Longrightarrow> unique_keys (env i d)"
    and "reserve_idempotency_slot table_store sha256 env q t = (u, Inr key)"
    and "idem_run table_store ops (c, u) (c', v)" and "Completed key \<notin> set ops"
    and "idem_run table_store later (c', table_complete key response stored_at v) (c'', w)" and "Completed key \<notin> set later"
    and "request_key sha256 r = key" and "rq_now r \<le> c''" and "c'' < rq_now q + IDEMPOTENCY_TTL"
    and "\<And>i d. unique_keys d \<Longrightarrow> unique_keys (during i d) \<and> table_get key (during i d) = table_get key d"
  shows "(rq_request_hash r = rq_request_hash q \<longrightarrow>
      snd (reserve_idempotency_slot table_store sha256 during r w) = Inl (Idempotency_replay response) \<and>
      probe_completed_replay table_store sha256 r w = Some response \<and>
      snd (reserve_idempotency_slot table_store sha256 (\<lambda>_. id) (r\<lparr>rq_now := rq_now q\<rparr>) v) =
        Inl (Idempotency_conflict ''A submission with this Idempotency-Key is still in progress.'')) \<and>
    (rq_request_hash r \<noteq> rq_request_hash q \<longrightarrow>
      snd (reserve_idempotency_slot table_store sha256 during r w) =
        Inl (Idempotency_conflict ''This Idempotency-Key was already used with a different request.'') \<and>
      probe_completed_replay table_store sha256 r w = None) \<and>
    fst (reserve_idempotency_slot table_store sha256 (\<lambda>_. id) r w) = w"
proof -
  let ?x = "\<lparr>ir_request_hash = rq_request_hash q, ir_status = STATUS_IN_PROGRESS, ir_response_json = None,
    ir_expires_at = rq_now q + IDEMPOTENCY_TTL\<rparr>"
  let ?y = "?x\<lparr>ir_status := STATUS_COMPLETED, ir_response_json := Some response\<rparr>"
  note run = assms(3) [unfolded reserve_idempotency_slot_def]
  have key: "key = request_key sha256 q" and "st_get table_store (request_key sha256 q) u = Some ?x"
    using submissions.reserve_own [OF assms(2,1) run] by blast+
  then have got: "table_get key u = Some ?x" unfolding key by simp
  have "unique_keys (fst (reserve_attempts table_store env (request_key sha256 q) (rq_request_hash q) (rq_now q) 0 RESERVE_MAX_ATTEMPTS t))"
    by (rule submissions.reserve_ok [OF assms(2,1)])
  then have ok1: "unique_keys u" by (simp only: run fst_conv)
  have mono: "c' \<le> c''" by (rule idem_run_mono [OF assms(6)])
  have early: "c' < ir_expires_at ?x" using mono assms(10) by simp
  from submissions.run_keeps_live [OF assms(4) ok1 _ early, of key] got assms(5)
  have ok2: "unique_keys v" and x: "table_get key v = Some ?x" by auto
  have "unique_keys (table_complete key response stored_at v)" using ok2 by (simp add: table_complete_keys)
  moreover have "table_get key (table_complete key response stored_at v) = Some ?y"
    by (simp add: table_get_complete x)
  moreover have "c'' < ir_expires_at ?y" using assms(10) by simp
  ultimately have ok3: "unique_keys w" and y: "table_get key w = Some ?y"
    using submissions.run_keeps_live [OF assms(6), of key ?y] assms(7) by auto
  have late: "rq_now r < ir_expires_at ?y" using assms(9,10) by simp
  have now: "rq_now q < ir_expires_at ?x" by (simp add: IDEMPOTENCY_TTL_def)
  note live = submissions.reserve_live [where key = key and h = "rq_request_hash r" and i = 0 and n = 5]
  have retry: "snd (reserve_idempotency_slot table_store sha256 during r w) = Inl (live_refusal ?y (rq_request_hash r))"
    unfolding reserve_idempotency_slot_def assms(8) RESERVE_MAX_ATTEMPTS_def
    using assms(11) by (intro live(1) [OF _ _ ok3 _ late]) (simp_all add: y)
  have before: "snd (reserve_idempotency_slot table_store sha256 (\<lambda>_. id) (r\<lparr>rq_now := rq_now q\<rparr>) v)
      = Inl (live_refusal ?x (rq_request_hash r))"
  proof -
    have "request_key sha256 (r\<lparr>rq_now := rq_now q\<rparr>) = key" using assms(8) by (simp add: request_key_def)
    then show ?thesis unfolding reserve_idempotency_slot_def RESERVE_MAX_ATTEMPTS_def
      using live(1) [OF _ _ ok2 _ now, of "\<lambda>_. id"] by (simp add: x)
  qed
  have same: "fst (reserve_idempotency_slot table_store sha256 (\<lambda>_. id) r w) = w"
    unfolding reserve_idempotency_slot_def assms(8) RESERVE_MAX_ATTEMPTS_def
    using live(2) [OF _ _ ok3 _ late, of "\<lambda>_. id"] by (simp add: y)
  have probe: "probe_completed_replay table_store sha256 r w =
      (if rq_request_hash q = rq_request_hash r then Some response else None)"
    using submissions.probe_live [of sha256 r w ?y] y late assms(8) by (simp add: or_empty_dict_def)
  have distinct: "STATUS_COMPLETED \<noteq> STATUS_IN_PROGRESS" by (simp add: STATUS_COMPLETED_def STATUS_IN_PROGRESS_def)
  show ?thesis
    by (intro conjI impI) (simp_all add: retry before same probe live_refusal_def or_empty_dict_def distinct)
qed

definition sample_idem_request :: idem_request where
  "sample_idem_request = \<lparr>rq_org_id = ''org'', rq_route = SWEEP_ROUTE, rq_raw_key = ''k1'',
     rq_request_hash = ''h'', rq_now = 100\<rparr>"

definition sample_key :: idem_key where
  "sample_key = (''org'', ''POST /tasks/sweep'', ''k1'')"

lemma sample_reserved:
  "reserve_idempotency_slot table_store id (\<lambda>_. id) sample_idem_request [] =
     ([in_progress_row sample_key ''h'' 100 86500], Inr sample_key)"
  by (simp add: reserve_idempotency_slot_def RESERVE_MAX_ATTEMPTS_def eval_nat_numeral table_begin_def
    sample_idem_request_def sample_key_def request_key_def IDEMPOTENCY_TTL_def SWEEP_ROUTE_def)

theorem retry_replays_response_witness:
  "snd (reserve_idempotency_slot table_store id (\<lambda>_. id) (sample_idem_request\<lparr>rq_now := 3000\<rparr>)
     (table_complete sample_key (JNumber ''7'') 150 [in_progress_row sample_key ''h'' 100 86500]))
   = Inl (Idempotency_replay (JNumber ''7''))"
  using retry_replays_response [where t = "[]" and env = "\<lambda>_. id" and q = sample_idem_request 
      and c = 200 and c'' = 4000 and r = "sample_idem_request\<lparr>rq_now := 3000\<rparr>" and response = "JNumber ''7''"
      and stored_at = 150 and during = "\<lambda>_. id", OF _ _ sample_reserved idem_run.stop _ idem_run.step [OF idem_step.tick idem_run.stop]]
  by (simp add: request_key_def sample_idem_request_def sample_key_def IDEMPOTENCY_TTL_def SWEEP_ROUTE_def)

text \<open>
  C36. At most one request works under a key: from the moment a request reserved it, in whatever
  race, until 24 hours later, no other request of any process reserves the same key.
\<close>

theorem reservation_exclusive:
  assumes "unique_keys t" and "\<And>i d. unique_keys d \<Longrightarrow> unique_keys (env i d)"
    and "reserve_idempotency_slot table_store sha256 env q t = (u, Inr key)"
    and "idem_run table_store ops (c, u) (c', t')" and "c' < rq_now q + IDEMPOTENCY_TTL"
  shows "Reserved key \<notin> set ops"
proof -
  note run = assms(3) [unfolded reserve_idempotency_slot_def]
  have own: "key = request_key sha256 q" "st_get table_store (request_key sha256 q) u =
      Some \<lparr>ir_request_hash = rq_request_hash q, ir_status = STATUS_IN_PROGRESS, ir_response_json = None,
        ir_expires_at = rq_now q + IDEMPOTENCY_TTL\<rparr>"
    using submissions.reserve_own [OF assms(2,1) run] by blast+
  have "unique_keys (fst (reserve_attempts table_store env (request_key sha256 q) (rq_request_hash q) (rq_now q) 0 RESERVE_MAX_ATTEMPTS t))"
    by (rule submissions.reserve_ok [OF assms(2,1)])
  then have "unique_keys u" by (simp only: run fst_conv)
  from submissions.run_keeps_live [OF assms(4) this own(2)] assms(5) own(1) show ?thesis by simp
qed

theorem reservation_exclusive_witness:
  "Reserved sample_key \<notin> set [Tick]"
  by (rule reservation_exclusive [where t = "[]" and env = "\<lambda>_. id" and q = sample_idem_request and c = 200 and c' = 4000,
      OF _ _ sample_reserved idem_run.step [OF idem_step.tick idem_run.stop]])
    (simp_all add: sample_idem_request_def IDEMPOTENCY_TTL_def)

definition wf_submission :: "int \<Rightarrow> submission_idempotency \<Rightarrow> bool" where
  "wf_submission now r \<longleftrightarrow> si_status r \<in> {STATUS_IN_PROGRESS, STATUS_COMPLETED} \<and>
     (si_response_json r \<noteq> None \<longleftrightarrow> si_status r = STATUS_COMPLETED) \<and>
     si_expires_at r = si_created_at r + IDEMPOTENCY_TTL \<and> si_created_at r \<le> now"

lemma wf_submission_step:
  assumes "idem_step table_store a (c, t) (c', t')" and "unique_keys t" and "\<forall>r \<in> set t. wf_submission c r"
  shows "unique_keys t' \<and> (\<forall>r \<in> set t'. wf_submission c' r)"
  using assms(1)
proof (cases rule: idem_step.cases)
  case tick
  with assms show ?thesis by (force simp: wf_submission_def)
next
  case (reserved now key h)
  moreover have "wf_submission c (in_progress_row key h now (now + IDEMPOTENCY_TTL))"
    using reserved by (simp add: wf_submission_def in_progress_row_def STATUS_IN_PROGRESS_def STATUS_COMPLETED_def)
  ultimately show ?thesis
    using assms(2,3) submissions.ok_begin [OF assms(2), of key h now "now + IDEMPOTENCY_TTL"]
    by (auto simp: table_begin_def split: if_splits)
next
  case (refused now key h)
  then show ?thesis using assms(2,3) by (auto simp: table_begin_def split: if_splits)
next
  case (completed key response now)
  moreover have "wf_submission c (completed_row response now r)" if "wf_submission c r" for r
    using that by (simp add: wf_submission_def completed_row_def)
  ultimately show ?thesis
    using assms(2,3) submissions.ok_complete [OF assms(2)] by (auto simp: table_complete_def update_where_def)
next
  case (discarded now key)
  then show ?thesis using assms(2,3) submissions.ok_discard [OF assms(2)] by (auto simp: table_discard_def)
qed

text \<open>
  C39. The rows of the table keep their types: in every table the protocol reaches the keys are
  unique, the status is one of the two that the check constraint allows, a response is stored
  exactly for the completed rows, and every row expires 24 hours after a moment that has passed.
\<close>

theorem idempotency_rows_typed:
  assumes "idem_run table_store ops (c, []) (c', t)"
  shows "unique_keys t \<and> (\<forall>r \<in> set t. si_status r \<in> {STATUS_IN_PROGRESS, STATUS_COMPLETED} \<and>
     (si_response_json r \<noteq> None \<longleftrightarrow> si_status r = STATUS_COMPLETED) \<and>
     si_expires_at r = si_created_at r + IDEMPOTENCY_TTL \<and> si_created_at r \<le> c')"
proof -
  have "unique_keys u \<Longrightarrow> \<forall>r \<in> set u. wf_submission c r \<Longrightarrow> unique_keys t \<and> (\<forall>r \<in> set t. wf_submission c' r)"
    if "idem_run table_store ops (c, u) (c', t)" for u
    using that
  proof (induction ops arbitrary: c u)
    case Nil
    then show ?case by (auto elim: idem_run_NilE)
  next
    case (Cons a ops)
    from Cons.prems(3) obtain c1 u1 where "idem_step table_store a (c, u) (c1, u1)"
      and "idem_run table_store ops (c1, u1) (c', t)" by (elim idem_run_ConsE) (metis prod.collapse)
    with wf_submission_step Cons.prems(1,2) Cons.IH show ?case by blast
  qed
  from this [OF assms] show ?thesis unfolding wf_submission_def by simp
qed

theorem idempotency_rows_typed_witness:
  "unique_keys [in_progress_row sample_key ''h'' 100 86500]"
proof -
  have "idem_run table_store [Reserved sample_key] (200, []) (200, [in_progress_row sample_key ''h'' 100 86500])"
    by (rule idem_run.step [OF idem_step.reserved [where now = 100 and h = "''h''"] idem_run.stop])
      (simp_all add: table_begin_def IDEMPOTENCY_TTL_def)
  from idempotency_rows_typed [OF this] show ?thesis by blast
qed

text \<open>
  C40. Without interference a request is admitted exactly when its key is free or expired, and it
  is replayed exactly when the read-only probe says so, with the same response.
\<close>

theorem probe_agrees_with_reserve:
  assumes "unique_keys t" and "\<forall>r \<in> set t. si_status r \<in> {STATUS_IN_PROGRESS, STATUS_COMPLETED}"
  shows "(probe_completed_replay table_store sha256 q t = Some response \<longleftrightarrow>
      snd (reserve_idempotency_slot table_store sha256 (\<lambda>_. id) q t) = Inl (Idempotency_replay response)) \<and>
    (snd (reserve_idempotency_slot table_store sha256 (\<lambda>_. id) q t) = Inr (request_key sha256 q) \<longleftrightarrow>
      (\<forall>r \<in> set t. si_key r = request_key sha256 q \<longrightarrow> si_expires_at r \<le> rq_now q))"
proof -
  let ?key = "request_key sha256 q" and ?out = "snd (reserve_idempotency_slot table_store sha256 (\<lambda>_. id) q t)"
  have rows: "(\<forall>r \<in> set t. si_key r = ?key \<longrightarrow> si_expires_at r \<le> rq_now q) \<longleftrightarrow>
      (case table_get ?key t of None \<Rightarrow> True | Some x \<Rightarrow> ir_expires_at x \<le> rq_now q)"
    by (rule table_get_rows [OF assms(1)])
  show ?thesis
  proof (cases "case table_get ?key t of None \<Rightarrow> True | Some x \<Rightarrow> ir_expires_at x \<le> rq_now q")
    case True
    with submissions.reserve_free [OF assms(1), where key = ?key and now = "rq_now q" and n = 5 and h = "rq_request_hash q" and i = 0]
    have "?out = Inr ?key" by (auto simp: reserve_idempotency_slot_def RESERVE_MAX_ATTEMPTS_def)
    moreover have "probe_completed_replay table_store sha256 q t = None"
      using True by (cases "table_get ?key t") (simp_all add: probe_completed_replay_def)
    ultimately show ?thesis using True by (simp add: rows)
  next
    case False
    then obtain x where x: "table_get ?key t = Some x" and live: "rq_now q < ir_expires_at x"
      by (cases "table_get ?key t") auto
    have "?out = Inl (live_refusal x (rq_request_hash q))"
      unfolding reserve_idempotency_slot_def RESERVE_MAX_ATTEMPTS_def
      using submissions.reserve_live(1) [OF _ _ assms(1) _ live, of "\<lambda>_. id"] x by simp
    moreover have "ir_status x \<in> {STATUS_IN_PROGRESS, STATUS_COMPLETED}"
      using x assms(2) find_SomeD by (fastforce simp: table_get_def stored_of_def)
    ultimately show ?thesis using False submissions.probe_live [of sha256 q t x] x live
      by (auto simp: rows live_refusal_def STATUS_IN_PROGRESS_def STATUS_COMPLETED_def)
  qed
qed

theorem probe_agrees_with_reserve_witness:
  "probe_completed_replay table_store id (sample_idem_request\<lparr>rq_now := 3000\<rparr>)
     [completed_row (JNumber ''7'') 150 (in_progress_row sample_key ''h'' 100 86500)] = Some (JNumber ''7'')"
  using probe_agrees_with_reserve [of "[completed_row (JNumber ''7'') 150 (in_progress_row sample_key ''h'' 100 86500)]"
      id "sample_idem_request\<lparr>rq_now := 3000\<rparr>" "JNumber ''7''", THEN conjunct1]
  by (simp add: reserve_idempotency_slot_def RESERVE_MAX_ATTEMPTS_def eval_nat_numeral table_begin_def table_get_single
    live_refusal_def or_empty_dict_def completed_row_def stored_of_def in_progress_row_def
    sample_idem_request_def sample_key_def request_key_def IDEMPOTENCY_TTL_def SWEEP_ROUTE_def STATUS_IN_PROGRESS_def
    STATUS_COMPLETED_def si_key_def)

subsection \<open>What the hash of a request tells apart\<close>

lemma map_of_drop_absent:
  "map_of (drop_absent_github_id p) k =
     (if k = ''github_id'' \<and> map_of p k = Some JNull then None else map_of p k)"
  by (auto simp: drop_absent_github_id_def dict_get_def delete_conv' split: option.splits)

lemma drop_absent_distinct: "distinct (dict_keys p) \<Longrightarrow> distinct (dict_keys (drop_absent_github_id p))"
  by (simp add: drop_absent_github_id_def distinct_delete)

lemma wf_object: "distinct (dict_keys p) \<Longrightarrow> wf_json (JObject p) \<longleftrightarrow> (\<forall>k v. map_of p k = Some v \<longrightarrow> wf_json v)"
  by (simp add: map_of_eq_Some_iff split_beta) (auto simp: Ball_def)

lemma canonical_objects:
  assumes "distinct (dict_keys p)" "distinct (dict_keys q)" "wf_json (JObject p)" "wf_json (JObject q)"
  shows "canonical_text (JObject p) = canonical_text (JObject q) \<longleftrightarrow>
    (\<forall>k. map_option sort_json (map_of p k) = map_option sort_json (map_of q k))"
proof -
  let ?s = "\<lambda>p. map (\<lambda>(k, v). (k, sort_json v)) p"
  have keys: "map fst (?s p) = dict_keys p" for p :: "(string, json) dict" by (simp add: split_beta comp_def)
  have "map_of (?s p) k = map_option sort_json (map_of p k)" for p :: "(string, json) dict" and k by (simp add: map_of_map)
  moreover have "canonical_text (JObject p) = canonical_text (JObject q) \<longleftrightarrow> map_of (?s p) = map_of (?s q)"
  proof -
    have "sort_key fst (?s p) = sort_key fst (?s q) \<longleftrightarrow> map_of (?s p) = map_of (?s q)"
      by (rule sorted_map_eq) (simp_all only: keys assms(1,2))
    then show ?thesis unfolding canonical_text_inject [OF assms(3,4)] by simp
  qed
  ultimately show ?thesis by (simp only: fun_eq_iff)
qed

lemma sort_json_null [simp]: "sort_json v = JNull \<longleftrightarrow> v = JNull"
  by (cases v) auto

lemma fingerprints_inject:
  "map (sort_json \<circ> fingerprint_json) fs = map (sort_json \<circ> fingerprint_json) gs \<longleftrightarrow> fs = gs"
proof -
  have "inj (sort_json \<circ> fingerprint_json)"
    by (rule injI) (auto simp: fingerprint_json_def insort_key_def)
  then show ?thesis by (simp add: inj_map_eq_map)
qed

lemma request_payload_lookup:
  assumes "sb_registry_auth s = Some raw" and "registry_auth_fingerprints sha256 urlsplit raw = Inr fs"
    and "request_payload sha256 urlsplit s = Inr p"
  shows "map_of p k = (if k = ''registry_auth'' then Some (JList (map fingerprint_json fs))
     else if k = ''github_id'' \<and> map_of (sb_dump s) k = Some JNull then None else map_of (sb_dump s) k)"
    and "distinct (dict_keys (sb_dump s)) \<Longrightarrow> distinct (dict_keys p)"
    and "distinct (dict_keys (sb_dump s)) \<Longrightarrow> wf_json (JObject (sb_dump s)) \<Longrightarrow> wf_json (JObject p)"
proof -
  have p: "p = drop_absent_github_id (dict_set (drop_absent_github_id (sb_dump s)) ''registry_auth''
      (JList (map fingerprint_json fs)))"
    using assms by (simp add: request_payload_def Let_def)
  show look: "map_of p k = (if k = ''registry_auth'' then Some (JList (map fingerprint_json fs))
     else if k = ''github_id'' \<and> map_of (sb_dump s) k = Some JNull then None else map_of (sb_dump s) k)" for k
    by (cases "k = ''github_id''") (simp_all add: p map_of_drop_absent map_of_dict_set)
  show d: "distinct (dict_keys p)" if "distinct (dict_keys (sb_dump s))"
    using that by (simp add: p drop_absent_distinct distinct_dict_set)
  have fp: "wf_json (JList (map fingerprint_json fs))"
    by (auto simp: fingerprint_json_def)
  show "wf_json (JObject p)" if "distinct (dict_keys (sb_dump s))" "wf_json (JObject (sb_dump s))"
    unfolding wf_object [OF d [OF that(1)]]
    using fp that unfolding wf_object [OF that(1)] by (auto simp: look split: if_splits)
qed

lemma all_but_two: "(\<forall>k. P k) \<longleftrightarrow> (\<forall>k. k \<notin> {a, b} \<longrightarrow> P k) \<and> P a \<and> P b"
  by (metis insert_iff empty_iff)

text \<open>
  C38. The text whose hash guards a key tells two requests apart exactly when they differ in a
  field, in a registry host or user, or in the digest of a token: neither the order of the fields
  nor a missing \<open>github_id\<close> instead of a null one makes a difference, and no token is in the text.
\<close>

theorem request_hash_faithful:
  assumes "sb_registry_auth s = Some rs" and "registry_auth_fingerprints sha256 urlsplit rs = Inr fs"
    and "sb_registry_auth t = Some rt" and "registry_auth_fingerprints sha256 urlsplit rt = Inr ft"
    and "request_payload sha256 urlsplit s = Inr p" and "request_payload sha256 urlsplit t = Inr q"
    and "distinct (dict_keys (sb_dump s))" and "distinct (dict_keys (sb_dump t))"
    and "wf_json (JObject (sb_dump s))" and "wf_json (JObject (sb_dump t))"
  shows "compute_request_hash sha256 urlsplit s = Inr (sha256 (canonical_text (JObject p))) \<and>
    (canonical_text (JObject p) = canonical_text (JObject q) \<longleftrightarrow>
      (\<forall>k. k \<notin> {''github_id'', ''registry_auth''} \<longrightarrow>
         map_option sort_json (map_of (sb_dump s) k) = map_option sort_json (map_of (sb_dump t) k)) \<and>
      sort_json (dict_get (sb_dump s) ''github_id'' JNull) = sort_json (dict_get (sb_dump t) ''github_id'' JNull) \<and>
      fs = ft)"
proof -
  note p = request_payload_lookup [OF assms(1,2,5)] and q = request_payload_lookup [OF assms(3,4,6)]
  have other: "map_of p k = map_of (sb_dump s) k" "map_of q k = map_of (sb_dump t) k"
    if "k \<notin> {''github_id'', ''registry_auth''}" for k using that by (simp_all add: p(1) q(1))
  have "canonical_text (JObject p) = canonical_text (JObject q) \<longleftrightarrow>
      (\<forall>k. map_option sort_json (map_of p k) = map_option sort_json (map_of q k))"
    using p(2,3) q(2,3) assms(7-10) by (intro canonical_objects) blast+
  also have "\<dots> \<longleftrightarrow> (\<forall>k. k \<notin> {''github_id'', ''registry_auth''} \<longrightarrow>
        map_option sort_json (map_of (sb_dump s) k) = map_option sort_json (map_of (sb_dump t) k)) \<and>
      map_option sort_json (map_of p ''github_id'') = map_option sort_json (map_of q ''github_id'') \<and>
      map_option sort_json (map_of p ''registry_auth'') = map_option sort_json (map_of q ''registry_auth'')"
    by (subst all_but_two [of _ "''github_id''" "''registry_auth''"]) (simp only: other not_False_eq_True cong: imp_cong)
  also have "map_option sort_json (map_of p ''github_id'') = map_option sort_json (map_of q ''github_id'') \<longleftrightarrow>
      sort_json (dict_get (sb_dump s) ''github_id'' JNull) = sort_json (dict_get (sb_dump t) ''github_id'' JNull)"
    unfolding p(1) q(1) dict_get_def by (auto split: option.splits dest: sym)
  also have "map_option sort_json (map_of p ''registry_auth'') = map_option sort_json (map_of q ''registry_auth'') \<longleftrightarrow> fs = ft"
    using fingerprints_inject [of fs ft] unfolding p(1) q(1) by (simp add: comp_def)
  finally show ?thesis using assms(5) by (simp add: compute_request_hash_def)
qed

definition sample_submission :: "(string, json) dict \<Rightarrow> submission" where
  "sample_submission dump = \<lparr>sb_dump = dump,
     sb_registry_auth = Some (Some [\<lparr>ra_registry = ''Docker.io'', ra_username = '' me '', ra_token = ''secret''\<rparr>])\<rparr>"

theorem request_hash_faithful_witness:
  "compute_request_hash id (\<lambda>_. None) (sample_submission [(''task_id'', JString ''t''), (''github_id'', JNull)]) =
   compute_request_hash id (\<lambda>_. None) (sample_submission [(''task_id'', JString ''t'')])"
proof -
  let ?fs = "[(DOCKER_HUB_AUTH_KEY, ''me'', ''secret'')]"
  let ?s = "sample_submission [(''task_id'', JString ''t''), (''github_id'', JNull)]"
    and ?t = "sample_submission [(''task_id'', JString ''t'')]"
  let ?raw = "Some [\<lparr>ra_registry = ''Docker.io'', ra_username = '' me '', ra_token = ''secret''\<rparr>]"
  have raw: "sb_registry_auth (sample_submission d) = Some ?raw"
    and dump: "sb_dump (sample_submission d) = d" for d by (simp_all add: sample_submission_def)
  have fs: "registry_auth_fingerprints id (\<lambda>_. None) ?raw = Inr ?fs"
    by code_simp
  let ?p = "[(''task_id'', JString ''t''), (''registry_auth'', JList (map fingerprint_json ?fs))]"
  have p: "request_payload id (\<lambda>_. None) ?s = Inr ?p" and q: "request_payload id (\<lambda>_. None) ?t = Inr ?p"
    unfolding request_payload_def raw dump option.case fs bind_err_simps
    by (simp_all add: drop_absent_github_id_def dict_get_def dict_set_def Let_def)
  from request_hash_faithful [OF raw fs raw fs p q] request_hash_faithful [OF raw fs raw fs q p]
  show ?thesis by (simp add: dump)
qed

end
