(* ===== verification/Json_Values.thy ===== *)
theory Json_Values
  imports Json_Text Py_Float
begin

text \<open>
  JSON values as the program reads them after \<open>json.loads\<close>: lookups with a default, truth value,
  equality, \<open>str\<close>, and the text \<open>json.dumps\<close> writes with its default separators. \<open>None\<close> and the
  JSON null are one value; a key that is missing reads as null.
\<close>

subsection \<open>Objects\<close>

type_synonym json_object = "(string \<times> json) list"

definition field_or :: "json \<Rightarrow> json_object \<Rightarrow> string \<Rightarrow> json" where
  "field_or d kvs k = (case map_of kvs k of None \<Rightarrow> d | Some v \<Rightarrow> v)"

abbreviation field :: "json_object \<Rightarrow> string \<Rightarrow> json" where
  "field \<equiv> field_or JNull"

definition has_field :: "json_object \<Rightarrow> string \<Rightarrow> bool" where
  "has_field kvs k \<longleftrightarrow> map_of kvs k \<noteq> None"

fun as_object :: "json \<Rightarrow> json_object option" where
  "as_object (JObject kvs) = Some kvs"
| "as_object _ = None"

fun as_list :: "json \<Rightarrow> json list option" where
  "as_list (JList xs) = Some xs"
| "as_list _ = None"

fun as_string :: "json \<Rightarrow> string option" where
  "as_string (JString s) = Some s"
| "as_string _ = None"

fun as_bool :: "json \<Rightarrow> bool option" where
  "as_bool (JBool b) = Some b"
| "as_bool _ = None"

text \<open>\<open>x or []\<close> and \<open>x or {}\<close>, where the annotation says list or dict, or null.\<close>

definition or_list :: "json \<Rightarrow> json list" where
  "or_list v = (case as_list v of None \<Rightarrow> [] | Some xs \<Rightarrow> xs)"

definition or_object :: "json \<Rightarrow> json_object" where
  "or_object v = (case as_object v of None \<Rightarrow> [] | Some kvs \<Rightarrow> kvs)"

definition opt_json :: "('a \<Rightarrow> json) \<Rightarrow> 'a option \<Rightarrow> json" where
  "opt_json f x = (case x of None \<Rightarrow> JNull | Some y \<Rightarrow> f y)"

subsection \<open>Numbers, truth, equality\<close>

text \<open>A Python \<open>bool\<close> is a number; a number that is not one equals nothing.\<close>

fun number_of :: "json \<Rightarrow> py_float option" where
  "number_of (JNumber t) = Some (number_value t)"
| "number_of (JBool b) = Some (Finite (if b then 1 else 0))"
| "number_of _ = None"

definition same_number :: "json \<Rightarrow> json \<Rightarrow> bool" where
  "same_number v w = (case (number_of v, number_of w) of
     (Some x, Some y) \<Rightarrow> x = y \<and> x \<noteq> Not_a_number | _ \<Rightarrow> False)"

fun truthy_json :: "json \<Rightarrow> bool" where
  "truthy_json JNull = False"
| "truthy_json (JBool b) = b"
| "truthy_json (JNumber t) = (\<not> float_zero (number_value t))"
| "truthy_json (JString s) = (s \<noteq> [])"
| "truthy_json (JList xs) = (xs \<noteq> [])"
| "truthy_json (JObject kvs) = (kvs \<noteq> [])"

lemma size_in_list: "x \<in> set xs \<Longrightarrow> size x < Suc (size_list size xs)"
  by (simp add: less_Suc_eq_le size_list_estimation')

lemma size_in_entries: "(k, v) \<in> set kvs \<Longrightarrow> size v < Suc (size_list (size_prod (\<lambda>x. 0) size) kvs)"
  by (induction kvs) auto

function json_eq :: "json \<Rightarrow> json \<Rightarrow> bool" where
  "json_eq JNull w = (w = JNull)"
| "json_eq (JString s) w = (w = JString s)"
| "json_eq (JList xs) w =
     (case w of JList ys \<Rightarrow> length xs = length ys \<and> list_all (\<lambda>(x, y). json_eq x y) (zip xs ys) | _ \<Rightarrow> False)"
| "json_eq (JObject a) w =
     (case w of
        JObject b \<Rightarrow> fst ` set a = fst ` set b \<and>
          list_all (\<lambda>(k, v). case map_of b k of None \<Rightarrow> False | Some u \<Rightarrow> json_eq v u) a
      | _ \<Rightarrow> False)"
| "json_eq (JBool b) w = same_number (JBool b) w"
| "json_eq (JNumber t) w = same_number (JNumber t) w"
  by pat_completeness auto

termination
  by (relation "measure (\<lambda>(v, w). size v)")
    (auto dest!: set_zip_leftD simp: size_in_list size_in_entries)

text \<open>\<open>value in names\<close>, for a list of strings.\<close>

definition named_in :: "json \<Rightarrow> string list \<Rightarrow> bool" where
  "named_in v names \<longleftrightarrow> (case v of JString s \<Rightarrow> s \<in> set names | _ \<Rightarrow> False)"

text \<open>\<open>type(value) is int\<close>, and a number that is no \<open>bool\<close>.\<close>

definition plain_int :: "json \<Rightarrow> int option" where
  "plain_int v = (case v of JNumber t \<Rightarrow> if is_integer_literal t then Some (int_of_digits t) else None | _ \<Rightarrow> None)"

fun is_number :: "json \<Rightarrow> bool" where
  "is_number (JNumber t) = True"
| "is_number _ = False"

subsection \<open>Texts\<close>

text \<open>\<open>repr\<close> of a string, and \<open>str\<close> and \<open>repr\<close> of a value.\<close>

definition repr_char :: "char \<Rightarrow> char \<Rightarrow> string" where
  "repr_char quote c = (let n = (of_char c :: nat) in
     if c = quote \<or> n = 92 then [CHR 0x5C, c]
     else if n = 9 then [CHR 0x5C, CHR ''t'']
     else if n = 10 then [CHR 0x5C, CHR ''n'']
     else if n = 13 then [CHR 0x5C, CHR ''r'']
     else if n < 32 \<or> 126 < n \<and> n < 161 \<or> n = 173
     then [CHR 0x5C, CHR ''x'', hex_char (n div 16), hex_char (n mod 16)] else [c])"

definition py_repr_string :: "string \<Rightarrow> string" where
  "py_repr_string s =
     (let quote = (if CHR 0x27 \<in> set s \<and> CHR 0x22 \<notin> set s then CHR 0x22 else CHR 0x27) in
      quote # concat (map (repr_char quote) s) @ [quote])"

definition py_number_text :: "string \<Rightarrow> string" where
  "py_number_text t =
     (if is_integer_literal t
      then (if int_of_digits t < 0 then CHR ''-'' # digits_text (- int_of_digits t) else digits_text (int_of_digits t))
      else (case number_value t of
          Infinite positive \<Rightarrow> if positive then ''inf'' else ''-inf''
        | Not_a_number \<Rightarrow> ''nan''
        | x \<Rightarrow> float_text x))"

fun spaced_join :: "string \<Rightarrow> string list \<Rightarrow> string" where
  "spaced_join sep [] = []"
| "spaced_join sep [x] = x"
| "spaced_join sep (x # y # xs) = x @ sep @ spaced_join sep (y # xs)"

fun py_repr :: "json \<Rightarrow> string" where
  "py_repr JNull = ''None''"
| "py_repr (JBool b) = (if b then ''True'' else ''False'')"
| "py_repr (JNumber t) = py_number_text t"
| "py_repr (JString s) = py_repr_string s"
| "py_repr (JList xs) = ''['' @ spaced_join '', '' (map py_repr xs) @ '']''"
| "py_repr (JObject kvs) =
     ''{'' @ spaced_join '', '' (map (\<lambda>(k, v). py_repr_string k @ '': '' @ py_repr v) kvs) @ ''}''"

definition py_str :: "json \<Rightarrow> string" where
  "py_str v = (case v of JString s \<Rightarrow> s | _ \<Rightarrow> py_repr v)"

definition py_repr_strings :: "string list \<Rightarrow> string" where
  "py_repr_strings xs = py_repr (JList (map JString xs))"

text \<open>\<open>json.dumps\<close> with the default separators.\<close>

fun json_dumps :: "json \<Rightarrow> string" where
  "json_dumps JNull = ''null''"
| "json_dumps (JBool b) = (if b then ''true'' else ''false'')"
| "json_dumps (JNumber t) = t"
| "json_dumps (JString s) = json_string s"
| "json_dumps (JList xs) = ''['' @ spaced_join '', '' (map json_dumps xs) @ '']''"
| "json_dumps (JObject kvs) =
     ''{'' @ spaced_join '', '' (map (\<lambda>(k, v). json_string k @ '': '' @ json_dumps v) kvs) @ ''}''"

subsection \<open>Instants\<close>

text \<open>
  \<open>str\<close> of a UTC \<open>datetime\<close>, given as microseconds since 1970: the proleptic Gregorian date, the
  time, and the microseconds when they are not zero.
\<close>

definition civil_date :: "int \<Rightarrow> int \<times> int \<times> int" where
  "civil_date days =
     (let z = days + 719468; era = z div 146097; doe = z mod 146097;
          yoe = (doe - doe div 1460 + doe div 36524 - doe div 146096) div 365;
          doy = doe - (365 * yoe + yoe div 4 - yoe div 100);
          mp = (5 * doy + 2) div 153;
          d = doy - (153 * mp + 2) div 5 + 1;
          m = (if mp < 10 then mp + 3 else mp - 9)
      in (yoe + era * 400 + (if m \<le> 2 then 1 else 0), m, d))"

definition padded :: "nat \<Rightarrow> int \<Rightarrow> string" where
  "padded w n = (let t = digits_text n in replicate (w - length t) CHR ''0'' @ t)"

definition datetime_text :: "int \<Rightarrow> string" where
  "datetime_text us =
     (let day = 86400000000; (y, m, d) = civil_date (us div day); rest = us mod day;
          s = rest div 1000000; f = rest mod 1000000
      in padded 4 y @ ''-'' @ padded 2 m @ ''-'' @ padded 2 d @ '' '' @
         padded 2 (s div 3600) @ '':'' @ padded 2 (s div 60 mod 60) @ '':'' @ padded 2 (s mod 60) @
         (if f = 0 then [] else ''.'' @ padded 6 f) @ ''+00:00'')"

subsection \<open>Lemmas\<close>

lemma field_Nil [simp]: "field_or d [] k = d"
  by (simp add: field_or_def)

lemma field_Cons [simp]: "field_or d ((l, v) # kvs) k = (if k = l then v else field_or d kvs k)"
  by (simp add: field_or_def)

lemma has_field_simps [simp]: "\<not> has_field [] k" "has_field ((l, v) # kvs) k \<longleftrightarrow> k = l \<or> has_field kvs k"
  by (simp_all add: has_field_def)

lemma field_missing: "\<not> has_field kvs k \<Longrightarrow> field_or d kvs k = d"
  by (simp add: field_or_def has_field_def)

lemma or_list_simps [simp]: "or_list (JList xs) = xs" "or_list JNull = []"
  by (simp_all add: or_list_def)

lemma or_object_simps [simp]: "or_object (JObject kvs) = kvs" "or_object JNull = []"
  by (simp_all add: or_object_def)

lemma opt_json_simps [simp]: "opt_json f None = JNull" "opt_json f (Some x) = f x"
  by (simp_all add: opt_json_def)

lemma named_in_simps [simp]: "named_in (JString s) names \<longleftrightarrow> s \<in> set names" "\<not> named_in JNull names"
  by (simp_all add: named_in_def)

lemma datetime_samples: "datetime_text 0 = ''1970-01-01 00:00:00+00:00''"
  "datetime_text 1709210096123456 = ''2024-02-29 12:34:56.123456+00:00''"
  by code_simp+

end
