(* ===== verification/Analysis_Payload.thy ===== *)
theory Analysis_Payload
  imports Json_Values Queue_Keys Db_Tables
begin

text \<open>
  \<open>core/analysis_payload.py\<close>: the evidence a QA trial is given, the fingerprint of the audit it was
  planned against, the test that a finished QA trial still describes the version it graded, and
  the validation of the payload stored with an analysis trial. \<open>sha\<close>, SHA-256 as hexadecimal
  text, is a parameter. A column annotated \<open>dict\<close> holds an object and the \<open>items\<close> of an audit are
  objects, as \<open>build_pre_trial_payload\<close> writes them.
\<close>

subsection \<open>Evidence\<close>

definition trial_status_value :: "trial_status \<Rightarrow> string" where
  "trial_status_value s = (case s of
     Trial_pending \<Rightarrow> ''pending'' | Trial_queued \<Rightarrow> ''queued'' | Trial_running \<Rightarrow> ''running''
   | Trial_paused \<Rightarrow> ''paused'' | Trial_success \<Rightarrow> ''success'' | Trial_failed \<Rightarrow> ''failed''
   | Trial_retrying \<Rightarrow> ''retrying'' | Trial_skipped \<Rightarrow> ''skipped'')"

definition qa_trial_evidence :: "trial_row \<Rightarrow> json_object" where
  "qa_trial_evidence tr =
     [(''trial_id'', JString (tr_id tr)),
      (''status'', JString (trial_status_value (tr_status tr))),
      (''reward'', opt_json (\<lambda>x. JNumber (float_text x)) (tr_reward tr)),
      (''has_trajectory'', JBool (tr_has_trajectory tr)),
      (''agent'', JString (tr_agent tr)),
      (''baseline_kind'', opt_json JString (nop_oracle_kind (Some (tr_agent tr))))]"

text \<open>The pair of agent and reward that \<open>evaluate_baseline_gate\<close> reads from a piece of evidence.\<close>

definition evidence_result :: "json_object \<Rightarrow> string option \<times> py_float option" where
  "evidence_result ev = (as_string (field ev ''agent''), number_of (field ev ''reward''))"

subsection \<open>The fingerprint of an audit\<close>

definition annotation_key :: "string \<Rightarrow> bool" where
  "annotation_key k \<longleftrightarrow> k \<in> {''exploited'', ''exploit_evidence''}"

definition unannotated_item :: "json \<Rightarrow> json" where
  "unannotated_item item = (case item of
     JObject kvs \<Rightarrow> JObject (filter (\<lambda>(k, _). \<not> annotation_key k) kvs)
   | _ \<Rightarrow> item)"

definition unannotated_audit :: "json_object \<Rightarrow> json_object" where
  "unannotated_audit audit =
     dict_set audit ''items'' (JList (map unannotated_item (or_list (field_or (JList []) audit ''items''))))"

definition audit_text :: "task_version_row \<Rightarrow> string" where
  "audit_text v = json_dumps (sort_json (JList
     [JString (tv_id v), opt_json JString (tv_content_hash v),
      opt_json (\<lambda>s. JString (trial_status_value s)) (tv_pre_trial_status v),
      opt_json (\<lambda>t. JString (datetime_text t)) (tv_pre_trial_started_at v),
      opt_json (\<lambda>t. JString (datetime_text t)) (tv_pre_trial_finished_at v),
      opt_json (\<lambda>audit. JObject (unannotated_audit audit)) (tv_pre_trial v)]))"

definition audit_fingerprint :: "(string \<Rightarrow> string) \<Rightarrow> task_version_row \<Rightarrow> string" where
  "audit_fingerprint sha v = sha (audit_text v)"

definition must_fix_item :: "json_object \<Rightarrow> bool" where
  "must_fix_item item \<longleftrightarrow> field_or (field item ''severity'') item ''tier'' = JString ''must_fix''"

definition identified_items :: "json \<Rightarrow> json_object list" where
  "identified_items items =
     filter (\<lambda>item. truthy_json (field item ''id'')) (List.map_filter as_object (or_list items))"

definition audit_snapshot_matches ::
  "(string \<Rightarrow> string) \<Rightarrow> task_version_row option \<Rightarrow> json_object \<Rightarrow> bool" where
  "audit_snapshot_matches sha version payload =
     (if some_with (\<lambda>v. tv_pre_trial_status v \<in> {Some Trial_queued, Some Trial_running, Some Trial_pending}) version
      then False
      else
        (case field payload ''audit_fingerprint'' of
           JNull \<Rightarrow>
             (case version of
                None \<Rightarrow> \<not> truthy_json (field payload ''pre_trial_item_ids'')
              | Some v \<Rightarrow>
                  let items = identified_items (field_or (JList []) (case tv_pre_trial v of None \<Rightarrow> [] | Some a \<Rightarrow> a) ''items'');
                      ids = (\<lambda>its. JString ` (\<lambda>item. py_str (field item ''id'')) ` set its)
                  in ids items = set (or_list (field_or (JList []) payload ''pre_trial_item_ids'')) \<and>
                     ids (filter must_fix_item items)
                       = set (or_list (field_or (JList []) payload ''pre_trial_must_fix_ids'')))
         | pinned \<Rightarrow>
             (case version of None \<Rightarrow> False | Some v \<Rightarrow> pinned = JString (audit_fingerprint sha v))))"

subsection \<open>Validation\<close>

text \<open>An \<open>AnalysisPayloadError\<close> is the left side, with its text.\<close>

definition ensure :: "bool \<Rightarrow> 'e \<Rightarrow> 'e + unit" where
  "ensure b e = (if b then Inr () else Inl e)"

definition string_ids :: "string \<Rightarrow> json \<Rightarrow> string + string list" where
  "string_ids what value =
     (case value of
        JList xs \<Rightarrow>
          if list_ex (\<lambda>x. case x of JString s \<Rightarrow> str_strip s = [] | _ \<Rightarrow> True) xs
          then Inl (what @ '' must be a list of non-empty strings'')
          else let normalized = map str_strip (List.map_filter as_string xs) in
            if distinct normalized then Inr normalized else Inl (what @ '' must not contain duplicates'')
      | _ \<Rightarrow> Inl (what @ '' must be a list of non-empty strings''))"

record parsed_payload =
  pp_kind :: string
  pp_trial_ids :: "string list"
  pp_trial_evidence :: "json_object list"
  pp_baseline_evidence :: "json_object list"
  pp_pre_trial_item_ids :: "string list"
  pp_pre_trial_must_fix_ids :: "string list"
  pp_with_verdict :: bool
  pp_target_trial_id :: "string option"
  pp_task_version_content_hash :: "string option"
  pp_audit_policy_hash :: "string option"
  pp_audit_fingerprint :: "string option"

definition blank_payload :: "string \<Rightarrow> parsed_payload" where
  "blank_payload kind = \<lparr>pp_kind = kind, pp_trial_ids = [], pp_trial_evidence = [], pp_baseline_evidence = [],
     pp_pre_trial_item_ids = [], pp_pre_trial_must_fix_ids = [], pp_with_verdict = True,
     pp_target_trial_id = None, pp_task_version_content_hash = None, pp_audit_policy_hash = None,
     pp_audit_fingerprint = None\<rparr>"

definition sha256_hex :: "string \<Rightarrow> bool" where
  "sha256_hex s \<longleftrightarrow> length s = 64 \<and> list_all (\<lambda>c. c \<in> set ''0123456789abcdef'') s"

definition opt_field_ok :: "(string \<Rightarrow> bool) \<Rightarrow> json \<Rightarrow> bool" where
  "opt_field_ok P v = (case v of JNull \<Rightarrow> True | JString s \<Rightarrow> P s | _ \<Rightarrow> False)"

definition parse_audit_payload :: "json_object \<Rightarrow> string + parsed_payload" where
  "parse_audit_payload payload =
     bind_err (ensure (opt_field_ok (\<lambda>s. str_strip s \<noteq> []) (field payload ''task_version_content_hash''))
       ''audit analysis_payload.task_version_content_hash must be a non-empty string when present'') (\<lambda>_.
     bind_err (ensure (opt_field_ok sha256_hex (field payload ''audit_policy_hash''))
       ''audit analysis_payload.audit_policy_hash must be a SHA-256 hex digest'') (\<lambda>_.
     Inr ((blank_payload ''audit'')\<lparr>
       pp_task_version_content_hash := map_option str_strip (as_string (field payload ''task_version_content_hash'')),
       pp_audit_policy_hash := as_string (field payload ''audit_policy_hash'')\<rparr>)))"

text \<open>A list of objects: the objects themselves, or the error.\<close>

definition object_list :: "string \<Rightarrow> json \<Rightarrow> string + json_object list" where
  "object_list err v = (case v of
     JList xs \<Rightarrow> if list_all (\<lambda>x. as_object x \<noteq> None) xs then Inr (List.map_filter as_object xs) else Inl err
   | _ \<Rightarrow> Inl err)"

definition evidence_ids :: "json_object list \<Rightarrow> json" where
  "evidence_ids evs = JList (map (\<lambda>ev. field ev ''trial_id'') evs)"

definition parse_qa_payload :: "string \<Rightarrow> json_object \<Rightarrow> string + parsed_payload" where
  "parse_qa_payload kind payload =
     (let at_field = (\<lambda>name. kind @ '' analysis_payload.'' @ name) in
      bind_err (string_ids (at_field ''trial_ids'') (field payload ''trial_ids'')) (\<lambda>trial_ids.
      bind_err (ensure (trial_ids \<noteq> []) (at_field ''trial_ids must not be empty'')) (\<lambda>_.
      bind_err (ensure (kind \<noteq> ''qa_eval'' \<or> length trial_ids = 1)
        (''qa_eval analysis_payload.trial_ids must contain exactly one source trial id; found '' @
          string_of_int (int (length trial_ids)))) (\<lambda>_.
      bind_err (object_list (at_field ''trial_evidence must be a list of objects'')
        (field_or (JList []) payload ''trial_evidence'')) (\<lambda>trial_evidence.
      bind_err (object_list (at_field ''baseline_evidence must be a list of objects'')
        (field_or (JList []) payload ''baseline_evidence'')) (\<lambda>baseline_evidence.
      bind_err (if baseline_evidence \<noteq> []
        then string_ids (at_field ''baseline_evidence trial ids'') (evidence_ids baseline_evidence) else Inr []) (\<lambda>_.
      bind_err (if trial_evidence \<noteq> []
        then bind_err (string_ids (at_field ''trial_evidence trial ids'') (evidence_ids trial_evidence)) (\<lambda>ids.
          ensure (set ids = set trial_ids) (at_field ''trial_evidence must cover trial_ids exactly''))
        else Inr ()) (\<lambda>_.
      bind_err (string_ids (at_field ''pre_trial_item_ids'')
        (field_or (JList []) payload ''pre_trial_item_ids'')) (\<lambda>item_ids.
      bind_err (string_ids (at_field ''pre_trial_must_fix_ids'')
        (field_or (JList []) payload ''pre_trial_must_fix_ids'')) (\<lambda>must_fix_ids.
      bind_err (ensure (set must_fix_ids \<subseteq> set item_ids)
        (at_field ''pre_trial_must_fix_ids must be a subset of pre_trial_item_ids'')) (\<lambda>_.
      bind_err (case field_or (JBool True) payload ''with_verdict'' of JBool b \<Rightarrow> Inr b
        | _ \<Rightarrow> Inl (at_field ''with_verdict must be a boolean'')) (\<lambda>with_verdict.
      bind_err (ensure (opt_field_ok sha256_hex (field payload ''audit_fingerprint''))
        ''audit_fingerprint must be a SHA-256 hex digest'') (\<lambda>_.
      Inr ((blank_payload kind)\<lparr>pp_trial_ids := trial_ids, pp_trial_evidence := trial_evidence,
        pp_baseline_evidence := baseline_evidence, pp_pre_trial_item_ids := item_ids,
        pp_pre_trial_must_fix_ids := must_fix_ids, pp_with_verdict := with_verdict,
        pp_audit_fingerprint := as_string (field payload ''audit_fingerprint'')\<rparr>))))))))))))))"

definition parse_summarize_payload :: "json_object \<Rightarrow> string + parsed_payload" where
  "parse_summarize_payload payload =
     (case field payload ''target_trial_id'' of
        JString s \<Rightarrow>
          if str_strip s = [] then Inl ''summarize analysis_payload.target_trial_id must be a non-empty string''
          else Inr ((blank_payload ''summarize'')\<lparr>pp_target_trial_id := Some (str_strip s)\<rparr>)
      | _ \<Rightarrow> Inl ''summarize analysis_payload.target_trial_id must be a non-empty string'')"

text \<open>The second argument is \<open>harbor_config["analysis_payload"]\<close>, null when there is none.\<close>

definition parse_analysis_payload :: "string \<Rightarrow> json \<Rightarrow> string + parsed_payload" where
  "parse_analysis_payload kind payload =
     (if kind \<notin> {''qa'', ''qa_eval'', ''audit'', ''summarize''}
      then Inl (''unsupported analysis trial kind '' @ py_repr_string kind)
      else if kind = ''audit'' \<and> payload = JNull then Inr (blank_payload ''audit'')
      else (case payload of
          JObject kvs \<Rightarrow>
            if kind = ''audit'' then parse_audit_payload kvs
            else if kind \<in> {''qa'', ''qa_eval''} then parse_qa_payload kind kvs
            else parse_summarize_payload kvs
        | _ \<Rightarrow> Inl (kind @ '' harbor_config.analysis_payload must be an object'')))"

definition analysis_source_trial_ids :: "string \<Rightarrow> json \<Rightarrow> string + string list" where
  "analysis_source_trial_ids kind payload =
     (if kind \<notin> {''qa'', ''qa_eval''} then Inr []
      else bind_err (parse_analysis_payload kind payload) (\<lambda>p. Inr (pp_trial_ids p)))"

end
