(* ===== verification/Verdict_Sync.thy ===== *)
theory Verdict_Sync
  imports Analysis_Payload Baseline_Gate
begin

text \<open>
  \<open>core/verdict_sync.py\<close>: the deterministic rules that decide a verdict without a model, the
  stored form of a verdict, and the transactions that publish a verdict on a task and the
  findings of a source audit on a task version. Each transaction reads and writes its row under a
  lock, so it is one function on the tables; \<open>now\<close> is the instant of its writes.
\<close>

subsection \<open>Verdicts\<close>

datatype verdict_label = Accept | Reject

datatype verdict_confidence = High_confidence | Medium_confidence | Low_confidence

record verdict_model =
  vm_verdict :: verdict_label
  vm_confidence :: verdict_confidence
  vm_primary_issue :: "string option"
  vm_recommendations :: "string list"
  vm_reasoning :: "string option"

definition is_good :: "verdict_model \<Rightarrow> bool" where
  "is_good v \<longleftrightarrow> vm_verdict v = Accept"

definition baseline_reject :: verdict_model where
  "baseline_reject = \<lparr>vm_verdict = Reject, vm_confidence = High_confidence,
     vm_primary_issue = Some ''CRITICAL: The deterministic baseline validation failed.'',
     vm_recommendations = [''Fix the nop/oracle baseline result before accepting the task.''],
     vm_reasoning = Some (''An oracle must pass and a nop agent must fail. The recorded '' @
       ''baseline results do not satisfy that rule.'')\<rparr>"

definition must_fix_reject :: "nat \<Rightarrow> verdict_model" where
  "must_fix_reject n = \<lparr>vm_verdict = Reject, vm_confidence = High_confidence,
     vm_primary_issue = Some (''The source audit reported '' @ string_of_int (int n) @ '' must-fix '' @
       (if n = 1 then ''finding'' else ''findings'') @ ''.''),
     vm_recommendations = [''Resolve every `must_fix` source-audit finding before accepting the task.''],
     vm_reasoning = Some (''A `must_fix` source-audit finding can decide a trial, so successful '' @
       ''solver runs cannot make the task acceptable.'')\<rparr>"

definition apply_deterministic_verdict_rules ::
  "verdict_model option \<Rightarrow> string list \<Rightarrow> json_object list \<Rightarrow> verdict_model option" where
  "apply_deterministic_verdict_rules verdict must_fix_ids baseline_evidence =
     (if some_with (\<lambda>v. \<not> is_good v) verdict then verdict
      else if baseline_evidence \<noteq> [] \<and>
        fst (evaluate_baseline_gate (map evidence_result baseline_evidence)) = FAULTY
      then Some baseline_reject
      else if must_fix_ids = [] then verdict
      else Some (must_fix_reject (length must_fix_ids)))"

subsection \<open>Classifications and the stored verdict\<close>

datatype classification = HARNESS_ERROR | GOOD_FAILURE | BAD_FAILURE | GOOD_SUCCESS | BAD_SUCCESS

text \<open>The fields of \<open>TrialClassification\<close> the verdict counts read.\<close>

record trial_classification =
  tc_trial_name :: string
  tc_classification :: classification
  tc_subtype :: string

definition is_task_problem :: "trial_classification \<Rightarrow> bool" where
  "is_task_problem c \<longleftrightarrow>
     (if tc_classification c = HARNESS_ERROR \<and> tc_subtype c = ''hidden_file_leak'' then True
      else tc_classification c \<in> {BAD_FAILURE, BAD_SUCCESS})"

definition confidence_value :: "verdict_confidence \<Rightarrow> string" where
  "confidence_value c = (case c of High_confidence \<Rightarrow> ''high'' | Medium_confidence \<Rightarrow> ''medium'' | Low_confidence \<Rightarrow> ''low'')"

definition json_count :: "('a \<Rightarrow> bool) \<Rightarrow> 'a list \<Rightarrow> json" where
  "json_count P xs = JNumber (string_of_int (count_by P xs))"

definition build_verdict_payload :: "verdict_model \<Rightarrow> trial_classification list \<Rightarrow> json_object" where
  "build_verdict_payload v cs =
     [(''verdict'', JString (if is_good v then ''accept'' else ''reject'')),
      (''is_good'', JBool (is_good v)),
      (''confidence'', JString (confidence_value (vm_confidence v))),
      (''primary_issue'', opt_json JString (vm_primary_issue v)),
      (''reasoning'', opt_json JString (vm_reasoning v)),
      (''recommendations'', JList (map JString (vm_recommendations v))),
      (''task_problem_count'', json_count is_task_problem cs),
      (''agent_problem_count'', json_count (\<lambda>c. tc_classification c = GOOD_FAILURE) cs),
      (''success_count'', json_count (\<lambda>c. tc_classification c \<in> {GOOD_SUCCESS, BAD_SUCCESS}) cs),
      (''harness_error_count'', json_count (\<lambda>c. tc_classification c = HARNESS_ERROR) cs)]"

subsection \<open>Publishing on the task\<close>

definition visible_task :: "string \<Rightarrow> queue_db \<Rightarrow> task_row option" where
  "visible_task i db = find (\<lambda>tk. tk_id tk = i \<and> tk_deleted_at tk = None) (db_tasks db)"

definition find_version :: "string \<Rightarrow> queue_db \<Rightarrow> task_version_row option" where
  "find_version i db = find (\<lambda>v. tv_id v = i) (db_versions db)"

text \<open>
  \<open>should_store\<close> is the caller's check, run under the task's lock; without one it is constantly
  true. An empty payload counts as none.
\<close>

definition finished_task :: "int \<Rightarrow> task_row \<Rightarrow> task_row" where
  "finished_task now tk = tk\<lparr>tk_status := Task_completed, tk_finished_at := Some now\<rparr>"

definition or_text :: "string option \<Rightarrow> string \<Rightarrow> string" where
  "or_text s d = (case s of None \<Rightarrow> d | Some x \<Rightarrow> if x = [] then d else x)"

definition sync_verdict_to_task ::
  "int \<Rightarrow> string \<Rightarrow> json_object option \<Rightarrow> string option \<Rightarrow> (queue_db \<Rightarrow> bool) \<Rightarrow> queue_db \<Rightarrow>
   queue_db \<times> trial_status option" where
  "sync_verdict_to_task now task_id payload error should_store db =
     (case visible_task task_id db of
        None \<Rightarrow> (db, None)
      | Some _ \<Rightarrow>
          if \<not> should_store db then (db, None)
          else (case payload of
              Some (p # ps) \<Rightarrow> (with_task task_id (\<lambda>tk. finished_task now (complete_verdict (JObject (p # ps)) now tk)) db,
                Some Trial_success)
            | _ \<Rightarrow> (with_task task_id (\<lambda>tk. finished_task now
                (fail_verdict (or_text error ''Verdict synthesis failed with exception'') now tk)) db, Some Trial_failed)))"

definition complete_task_without_verdict ::
  "int \<Rightarrow> string \<Rightarrow> (queue_db \<Rightarrow> bool) \<Rightarrow> queue_db \<Rightarrow> queue_db \<times> trial_status option" where
  "complete_task_without_verdict now task_id should_store db =
     (case visible_task task_id db of
        None \<Rightarrow> (db, None)
      | Some _ \<Rightarrow>
          if \<not> should_store db then (db, None)
          else (with_task task_id (\<lambda>tk. finished_task now (complete_verdict_without_result now tk)) db, Some Trial_success))"

subsection \<open>Publishing an audit\<close>

text \<open>The newest row, by \<open>created_at\<close> and then by id: \<open>ORDER BY created_at DESC, id DESC LIMIT 1\<close>.\<close>

definition latest_trial :: "(trial_row \<Rightarrow> bool) \<Rightarrow> queue_db \<Rightarrow> trial_row option" where
  "latest_trial P db =
     (case rev (sort_key (\<lambda>tr. (tr_created_at tr, tr_id tr)) (filter P (db_trials db))) of
        [] \<Rightarrow> None | tr # _ \<Rightarrow> Some tr)"

definition live_kind :: "string \<Rightarrow> trial_row \<Rightarrow> bool" where
  "live_kind kind tr \<longleftrightarrow> tr_kind tr = kind \<and> tr_deleted_at tr = None \<and> tr_superseded_by_trial_id tr = None"

definition USER_CANCELLED_MESSAGE :: string where
  "USER_CANCELLED_MESSAGE = ''Cancelled by user''"

text \<open>Whether the audit trial may still speak for the version.\<close>

definition audit_current :: "task_version_row \<Rightarrow> string \<Rightarrow> queue_db \<Rightarrow> bool" where
  "audit_current v audit_id db \<longleftrightarrow>
     \<not> (tv_pre_trial_status v = Some Trial_failed \<and> tv_pre_trial_error v = Some USER_CANCELLED_MESSAGE) \<and>
     (case visible_trial audit_id db of None \<Rightarrow> False | Some tr \<Rightarrow> tr_harbor_stage tr \<noteq> Some ''cancelled'') \<and>
     map_option tr_id (latest_trial (\<lambda>tr. tr_task_version_id tr = Some (tv_id v) \<and> live_kind ''audit'' tr) db) = Some audit_id"

definition with_version :: "string \<Rightarrow> (task_version_row \<Rightarrow> task_version_row) \<Rightarrow> queue_db \<Rightarrow> queue_db" where
  "with_version i f db = db\<lparr>db_versions := update_where (\<lambda>v. tv_id v = i) f (db_versions db)\<rparr>"

definition audit_published :: "int \<Rightarrow> json_object option \<Rightarrow> task_version_row \<Rightarrow> task_version_row" where
  "audit_published now payload v = v\<lparr>tv_pre_trial := payload, tv_pre_trial_status := Some Trial_success,
     tv_pre_trial_error := None, tv_pre_trial_finished_at := Some now\<rparr>"

definition audit_failed :: "int \<Rightarrow> string \<Rightarrow> task_version_row \<Rightarrow> task_version_row" where
  "audit_failed now err v = v\<lparr>tv_pre_trial := None, tv_pre_trial_status := Some Trial_failed,
     tv_pre_trial_error := Some err, tv_pre_trial_finished_at := Some now\<rparr>"

definition sync_pre_trial_to_task_version ::
  "int \<Rightarrow> string \<Rightarrow> json_object option \<Rightarrow> string option \<Rightarrow> string option \<Rightarrow> string option \<Rightarrow> queue_db \<Rightarrow>
   queue_db \<times> trial_status option" where
  "sync_pre_trial_to_task_version now version_id payload error expected_hash expected_audit db =
     (case find_version version_id db of
        None \<Rightarrow> (db, None)
      | Some v \<Rightarrow>
          if some_with (\<lambda>a. \<not> audit_current v a db) expected_audit then (db, None)
          else if expected_hash \<noteq> None \<and> tv_content_hash v \<noteq> None \<and> tv_content_hash v \<noteq> expected_hash
          then (db, None)
          else if error = None \<and> some_with (\<lambda>a. tv_pre_trial_status v = Some Trial_success \<and>
              field (case tv_pre_trial v of None \<Rightarrow> [] | Some p \<Rightarrow> p) ''block_id'' = JString a) expected_audit
          then (db, Some Trial_success)
          else (case error of
              None \<Rightarrow> (with_version version_id (audit_published now payload) db, Some Trial_success)
            | Some e \<Rightarrow> (with_version version_id (audit_failed now e) db, Some Trial_failed)))"

subsection \<open>Exploited findings\<close>

text \<open>Which findings some trial exploited, with the evidence of the first that says so.\<close>

definition exploited_links :: "trial_row list \<Rightarrow> (string, string) dict" where
  "exploited_links trials =
     foldl (\<lambda>d a. case field a ''links_to'' of
         JString l \<Rightarrow> if truthy_json (field a ''exploited'') \<and> l \<noteq> [] \<and> \<not> dict_has d l
           then dict_set d l (case field a ''exploit_evidence'' of JString e \<Rightarrow> e | _ \<Rightarrow> []) else d
       | _ \<Rightarrow> d) []
       (concat (map (\<lambda>tr. List.map_filter as_object
          (or_list (field_or (JList []) (or_object (tr_analysis tr)) ''exploitation''))) trials))"

definition annotated_item :: "(string, string) dict \<Rightarrow> json \<Rightarrow> json \<times> bool" where
  "annotated_item exploited item =
     (case item of
        JObject kvs \<Rightarrow>
          (case field kvs ''id'' of
             JString i \<Rightarrow>
               if \<not> dict_has exploited i then (item, False)
               else
                 let evidence = dict_get exploited i [];
                     marked = dict_set kvs ''exploited'' (JBool True);
                     stale = evidence \<noteq> [] \<and> field kvs ''exploit_evidence'' \<noteq> JString evidence
                 in (JObject (if stale then dict_set marked ''exploit_evidence'' (JString evidence) else marked),
                     \<not> truthy_json (field kvs ''exploited'') \<or> stale)
           | _ \<Rightarrow> (item, False))
      | _ \<Rightarrow> (item, False))"

definition annotated_version :: "(string, string) dict \<Rightarrow> task_version_row \<Rightarrow> task_version_row" where
  "annotated_version exploited v =
     (case tv_pre_trial v of
        None \<Rightarrow> v
      | Some audit \<Rightarrow>
          let items = map (annotated_item exploited) (or_list (field_or (JList []) audit ''items'')) in
          if list_ex snd items then v\<lparr>tv_pre_trial := Some (dict_set audit ''items'' (JList (map fst items)))\<rparr> else v)"

definition aggregate_exploited_into_pre_trial :: "string \<Rightarrow> queue_db \<Rightarrow> queue_db" where
  "aggregate_exploited_into_pre_trial task_id db =
     (let exploited = exploited_links (filter (\<lambda>tr. tr_task_id tr = task_id \<and> tr_deleted_at tr = None) (db_trials db)) in
      db\<lparr>db_versions := update_where (\<lambda>v. tv_task_id v = task_id \<and> tv_pre_trial v \<noteq> None)
           (annotated_version exploited) (db_versions db)\<rparr>)"


subsection \<open>What the deterministic rules decide\<close>

lemma not_faulty: "x \<noteq> FAULTY \<longleftrightarrow> x = VALID"
  by (cases x) simp_all

text \<open>
  The server's own evidence has the last word. A rejection stands as it is; a verdict that
  accepts survives exactly when the recorded baselines, if there are any, pass the gate and the
  audit left no finding that must be fixed; without a verdict the rules produce none exactly in the
  same case, and whatever they put in its place is a rejection with high confidence.
\<close>

theorem deterministic_rules_exact:
  "(\<forall>v. verdict = Some v \<and> \<not> is_good v \<longrightarrow>
      apply_deterministic_verdict_rules verdict must_fix baselines = Some v) \<and>
   (\<forall>v. verdict = Some v \<longrightarrow> is_good v) \<longrightarrow>
     (apply_deterministic_verdict_rules verdict must_fix baselines = verdict \<longleftrightarrow>
        must_fix = [] \<and> (baselines = [] \<or> fst (evaluate_baseline_gate (map evidence_result baselines)) = VALID)) \<and>
     (\<forall>w. apply_deterministic_verdict_rules verdict must_fix baselines = Some w \<and> verdict \<noteq> Some w \<longrightarrow>
        \<not> is_good w \<and> vm_confidence w = High_confidence)"
  by (cases verdict)
    (auto simp: apply_deterministic_verdict_rules_def baseline_reject_def must_fix_reject_def is_good_def not_faulty)

definition sample_accept :: verdict_model where
  "sample_accept = \<lparr>vm_verdict = Accept, vm_confidence = Low_confidence, vm_primary_issue = None,
     vm_recommendations = [], vm_reasoning = None\<rparr>"

theorem deterministic_rules_exact_witness:
  "apply_deterministic_verdict_rules (Some sample_accept) [''a1''] [] \<noteq> Some sample_accept \<and>
   apply_deterministic_verdict_rules (Some sample_accept) [] [] = Some sample_accept"
  using deterministic_rules_exact [of "Some sample_accept" "[''a1'']" "[]"]
    deterministic_rules_exact [of "Some sample_accept" "[]" "[]"]
  by (simp add: sample_accept_def is_good_def)

subsection \<open>Annotations and the fingerprint\<close>

lemma unannotated_set:
  "annotation_key k \<Longrightarrow>
     filter (\<lambda>(l, _). \<not> annotation_key l) (dict_set kvs k v) = filter (\<lambda>(l, _). \<not> annotation_key l) kvs"
  by (induction kvs) (auto simp: dict_set_def)

lemma annotation_keys [simp]: "annotation_key ''exploited''" "annotation_key ''exploit_evidence''"
  by (simp_all add: annotation_key_def)

lemma unannotated_annotated: "unannotated_item (fst (annotated_item exploited item)) = unannotated_item item"
  by (cases item) (simp_all add: annotated_item_def unannotated_item_def unannotated_set Let_def split: json.split)

lemma dict_set_twice: "dict_set (dict_set d k v) k w = dict_set d k w"
  by (induction d) (auto simp: dict_set_def)

lemma field_set [simp]: "field_or d (dict_set kvs k v) l = (if k = l then v else field_or d kvs l)"
  by (simp add: field_or_def map_of_dict_set)

lemma annotated_version_text: "audit_text (annotated_version exploited v) = audit_text v"
proof (cases "tv_pre_trial v")
  case None
  then show ?thesis by (simp add: annotated_version_def)
next
  case (Some audit)
  have "unannotated_audit (dict_set audit ''items''
      (JList (map fst (map (annotated_item exploited) (or_list (field_or (JList []) audit ''items''))))))
    = unannotated_audit audit"
    by (simp add: unannotated_audit_def dict_set_twice unannotated_annotated o_def)
  with Some show ?thesis by (simp add: annotated_version_def audit_text_def Let_def)
qed

lemma annotated_fix: "snd (annotated_item exploited (fst (annotated_item exploited item))) = False"
  by (cases item) (auto simp: annotated_item_def Let_def split: json.split)

lemma annotated_version_idem: "annotated_version exploited (annotated_version exploited v) = annotated_version exploited v"
proof (cases "tv_pre_trial v")
  case (Some audit)
  let ?items = "map (annotated_item exploited) (or_list (field_or (JList []) audit ''items''))"
  have "\<not> list_ex snd (map (annotated_item exploited) (map fst ?items))"
    using annotated_fix by (auto simp: list_ex_iff)
  with Some show ?thesis by (cases "list_ex snd ?items") (simp_all add: annotated_version_def Let_def)
qed (simp add: annotated_version_def)

text \<open>
  C19. Marking the findings that some trial exploited never changes the fingerprint of an audit, of
  any version: a QA trial planned against the audit stays current when the markings arrive. And
  the marking is idempotent.
\<close>

theorem annotation_keeps_fingerprint:
  "map (audit_fingerprint sha) (db_versions (aggregate_exploited_into_pre_trial task_id db))
     = map (audit_fingerprint sha) (db_versions db) \<and>
   aggregate_exploited_into_pre_trial task_id (aggregate_exploited_into_pre_trial task_id db)
     = aggregate_exploited_into_pre_trial task_id db"
proof
  show "map (audit_fingerprint sha) (db_versions (aggregate_exploited_into_pre_trial task_id db))
     = map (audit_fingerprint sha) (db_versions db)"
    by (simp add: aggregate_exploited_into_pre_trial_def audit_fingerprint_def annotated_version_text update_where_def
        if_distrib [of audit_text] cong: if_cong)
  have keys: "tv_task_id (annotated_version e v) = tv_task_id v"
      "tv_pre_trial (annotated_version e v) = None \<longleftrightarrow> tv_pre_trial v = None" for e v
    by (auto simp: annotated_version_def Let_def split: option.splits)
  show "aggregate_exploited_into_pre_trial task_id (aggregate_exploited_into_pre_trial task_id db)
     = aggregate_exploited_into_pre_trial task_id db"
    unfolding aggregate_exploited_into_pre_trial_def Let_def
    by (simp add: update_where_idem annotated_version_idem keys del: not_None_eq)
qed

subsection \<open>What an audit may write\<close>

definition audit_paired :: "task_version_row \<Rightarrow> bool" where
  "audit_paired v \<longleftrightarrow> (tv_pre_trial v \<noteq> None \<longrightarrow> tv_pre_trial_status v = Some Trial_success)"

text \<open>The audit trial that may speak for a version: the newest live one of it, not cancelled.\<close>

definition speaks_for :: "string \<Rightarrow> string \<Rightarrow> queue_db \<Rightarrow> bool" where
  "speaks_for a version_id db \<longleftrightarrow>
     (\<exists>own \<in> set (db_trials db). tr_id own = a \<and> live_kind ''audit'' own \<and> tr_task_version_id own = Some version_id \<and>
        (\<forall>tr \<in> set (db_trials db). live_kind ''audit'' tr \<and> tr_task_version_id tr = Some version_id \<longrightarrow>
           (tr_created_at tr, tr_id tr) \<le> (tr_created_at own, tr_id own))) \<and>
     (\<exists>tr. visible_trial a db = Some tr \<and> tr_harbor_stage tr \<noteq> Some ''cancelled'')"

lemma latest_trial_Some:
  assumes "latest_trial P db = Some tr"
  shows "tr \<in> set (db_trials db)" "P tr"
    "x \<in> set (db_trials db) \<Longrightarrow> P x \<Longrightarrow> (tr_created_at x, tr_id x) \<le> (tr_created_at tr, tr_id tr)"
proof -
  let ?k = "\<lambda>tr. (tr_created_at tr, tr_id tr)"
  let ?s = "sort_key ?k (filter P (db_trials db))"
  from assms obtain rest where r: "rev ?s = tr # rest" by (auto simp: latest_trial_def split: list.splits)
  then have s: "?s = rev rest @ [tr]" by (metis rev.simps(2) rev_rev_ident)
  have "set ?s = set (filter P (db_trials db))" by simp
  with s have all: "set (filter P (db_trials db)) = insert tr (set rest)" by simp
  then show "tr \<in> set (db_trials db)" "P tr" by auto
  have "sorted (map ?k (rev rest @ [tr]))" unfolding s [symmetric] by simp
  then have "?k y \<le> ?k tr" if "y \<in> set rest" for y using that by (auto simp: sorted_append)
  moreover have "x \<in> insert tr (set rest)" if "x \<in> set (db_trials db)" "P x"
    unfolding all [symmetric] using that by simp
  ultimately show "x \<in> set (db_trials db) \<Longrightarrow> P x \<Longrightarrow> ?k x \<le> ?k tr" by blast
qed

lemma audit_current_speaks: "audit_current v a db \<Longrightarrow> speaks_for a (tv_id v) db"
  by (auto simp: audit_current_def speaks_for_def split: option.splits dest: latest_trial_Some
      intro!: bexI [OF _ latest_trial_Some(1)])

text \<open>
  C16. An audit writes only the version it audited, only while it is that version's newest live
  audit trial, was not cancelled, nobody cancelled the audit of the version, and the version still
  has the bytes the audit read, where both hashes are known; otherwise nothing changes. Findings
  are stored only together with success. Publishing again what the same audit published changes
  nothing, so late markings survive a second import.
\<close>

theorem audit_write_guarded:
  assumes "sync_pre_trial_to_task_version now version_id payload error pin (Some a) db = (db', res)"
  shows "(res = None \<longrightarrow> db' = db) \<and>
    (res \<noteq> None \<longrightarrow> speaks_for a version_id db \<and> (\<exists>v. find_version version_id db = Some v \<and>
       \<not> (tv_pre_trial_status v = Some Trial_failed \<and> tv_pre_trial_error v = Some USER_CANCELLED_MESSAGE) \<and>
       (pin = None \<or> tv_content_hash v = None \<or> tv_content_hash v = pin))) \<and>
    db' = db\<lparr>db_versions := db_versions db'\<rparr> \<and>
    (\<forall>w \<in> set (db_versions db). tv_id w \<noteq> version_id \<longrightarrow> w \<in> set (db_versions db')) \<and>
    (list_all audit_paired (db_versions db) \<longrightarrow> list_all audit_paired (db_versions db')) \<and>
    (\<forall>v later payload'. find_version version_id db = Some v \<and> error = None \<and> res \<noteq> None \<and>
       (\<exists>p. payload = Some p \<and> field p ''block_id'' = JString a) \<longrightarrow>
       fst (sync_pre_trial_to_task_version later version_id payload' None pin (Some a) db') = db')"
proof -
  note sync = sync_pre_trial_to_task_version_def audit_published_def audit_failed_def with_version_def
  have unchanged: "db' = db" if "res = None"
    using assms that by (auto simp: sync split: option.splits if_splits)
  have current: "speaks_for a version_id db \<and> (\<exists>v. find_version version_id db = Some v \<and>
       \<not> (tv_pre_trial_status v = Some Trial_failed \<and> tv_pre_trial_error v = Some USER_CANCELLED_MESSAGE) \<and>
       (pin = None \<or> tv_content_hash v = None \<or> tv_content_hash v = pin))" if some: "res \<noteq> None"
  proof -
    obtain v where v: "find_version version_id db = Some v" "audit_current v a db"
        "pin = None \<or> tv_content_hash v = None \<or> tv_content_hash v = pin"
      using assms some by (auto simp: sync split: option.splits if_splits)
    from v(1) have "tv_id v = version_id" unfolding find_version_def by (auto dest: find_SomeD)
    with v audit_current_speaks [OF v(2)] show ?thesis by (auto simp: audit_current_def)
  qed
  consider "db' = db" | f where "db' = with_version version_id f db" "f \<in> {audit_published now payload} \<union> range (audit_failed now)"
    using assms by (auto simp: sync_pre_trial_to_task_version_def split: option.splits if_splits)
  then have rows: "db' = db\<lparr>db_versions := db_versions db'\<rparr> \<and>
      (\<forall>w \<in> set (db_versions db). tv_id w \<noteq> version_id \<longrightarrow> w \<in> set (db_versions db')) \<and>
      (list_all audit_paired (db_versions db) \<longrightarrow> list_all audit_paired (db_versions db'))"
    by cases (auto simp: with_version_def list_all_iff in_update_where audit_paired_def audit_published_def audit_failed_def)
  have again: "fst (sync_pre_trial_to_task_version later version_id payload' None pin (Some a) db') = db'"
    if found: "find_version version_id db = Some v" and ok: "error = None" "res \<noteq> None"
      and block: "payload = Some p" "field p ''block_id'' = JString a" for v later payload' p
  proof -
    have "find_version version_id db' = Some v \<and> tv_pre_trial_status v = Some Trial_success \<and>
          field (case tv_pre_trial v of None \<Rightarrow> [] | Some q \<Rightarrow> q) ''block_id'' = JString a \<or>
        find_version version_id db' = Some (audit_published now payload v)"
      using assms found ok
      by (auto simp: sync_pre_trial_to_task_version_def find_version_def with_version_def find_update_where
          audit_published_def split: if_splits)
    then obtain u where "find_version version_id db' = Some u" "tv_pre_trial_status u = Some Trial_success"
        "field (case tv_pre_trial u of None \<Rightarrow> [] | Some q \<Rightarrow> q) ''block_id'' = JString a"
      using block by (auto simp: audit_published_def)
    then show ?thesis by (simp add: sync_pre_trial_to_task_version_def)
  qed
  from unchanged current rows again show ?thesis by blast
qed

definition sample_version :: task_version_row where
  "sample_version = \<lparr>tv_id = ''v1'', tv_task_id = ''k'', tv_content_hash = Some ''h'', tv_pre_trial = None,
     tv_pre_trial_started_at = Some 0, tv_pre_trial_status = Some Trial_queued, tv_pre_trial_error = None,
     tv_pre_trial_finished_at = None\<rparr>"

definition sample_audit_trial :: trial_row where
  "sample_audit_trial = (gate_trial ''k-1'' ''claude-code'' Trial_success None)
     \<lparr>tr_kind := ''audit'', tr_task_version_id := Some ''v1''\<rparr>"

definition audit_db :: queue_db where
  "audit_db = empty_db\<lparr>db_tasks := [sample_task], db_trials := [sample_audit_trial], db_versions := [sample_version]\<rparr>"

definition sample_findings :: json_object where
  "sample_findings = [(''items'', JList []), (''block_id'', JString ''k-1'')]"

theorem audit_write_guarded_witness:
  "let (db', res) = sync_pre_trial_to_task_version 5 ''v1'' (Some sample_findings) None (Some ''h'') (Some ''k-1'') audit_db in
   res = Some Trial_success \<and> list_all audit_paired (db_versions db') \<and>
   fst (sync_pre_trial_to_task_version 6 ''v1'' None None (Some ''h'') (Some ''k-1'') db') = db'"
proof -
  let ?run = "sync_pre_trial_to_task_version 5 ''v1'' (Some sample_findings) None (Some ''h'') (Some ''k-1'') audit_db"
  have res: "snd ?run = Some Trial_success" by code_simp
  have found: "find_version ''v1'' audit_db = Some sample_version" by code_simp
  have ok: "list_all audit_paired (db_versions audit_db)"
    by (simp add: audit_db_def audit_paired_def sample_version_def)
  have "?run = (fst ?run, Some Trial_success)" unfolding res [symmetric] by simp
  from audit_write_guarded [OF this] found ok
  have "list_all audit_paired (db_versions (fst ?run)) \<and>
      fst (sync_pre_trial_to_task_version 6 ''v1'' None None (Some ''h'') (Some ''k-1'') (fst ?run)) = fst ?run"
    by (auto simp: sample_findings_def)
  with res show ?thesis by (simp add: split_beta)
qed

end
