(* ===== verification/Trial_Models.thy ===== *)
theory Trial_Models
  imports Queue_Keys
begin

text \<open>
  The model of a trial: \<open>normalize_model_id\<close>, the routes to the providers served outside Bedrock and
  \<open>normalize_trial_model\<close> of \<open>config.py\<close>, and the queue a trial waits in. Harbor's
  \<open>split_provider_model_name\<close> is the parameter \<open>split\<close>, as in \<open>Queue_Keys\<close>; the map from agents
  to providers, which the program builds from Harbor's list of agents, is a dictionary.
\<close>

subsection \<open>Canonical spelling\<close>

text \<open>\<open>re.sub\<close> of every run of characters that satisfy \<open>P\<close> by one hyphen.\<close>

fun squeeze :: "(char \<Rightarrow> bool) \<Rightarrow> string \<Rightarrow> string" where
  "squeeze P [] = []"
| "squeeze P [c] = (if P c then ''-'' else [c])"
| "squeeze P (c # d # cs) =
     (if P c \<and> P d then squeeze P (d # cs)
      else (if P c then CHR ''-'' else c) # squeeze P (d # cs))"

fun split_slashes :: "string \<Rightarrow> string list" where
  "split_slashes [] = [[]]"
| "split_slashes (c # cs) =
     (if c = CHR ''/'' then [] # split_slashes cs
      else (case split_slashes cs of p # ps \<Rightarrow> (c # p) # ps | [] \<Rightarrow> [[c]]))"

fun join_slashes :: "string list \<Rightarrow> string" where
  "join_slashes [] = []"
| "join_slashes [p] = p"
| "join_slashes (p # q # ps) = p @ CHR ''/'' # join_slashes (q # ps)"

definition is_hyphen :: "char \<Rightarrow> bool" where
  "is_hyphen c \<longleftrightarrow> c = CHR ''-''"

definition strip_hyphens :: "string \<Rightarrow> string" where
  "strip_hyphens s = rev (dropWhile is_hyphen (rev (dropWhile is_hyphen s)))"

definition normalized_part :: "string \<Rightarrow> string" where
  "normalized_part part = strip_hyphens (squeeze is_hyphen (squeeze is_space (str_strip part)))"

definition normalize_model_id :: "string option \<Rightarrow> string option" where
  "normalize_model_id model =
     (case model of
        None \<Rightarrow> None
      | Some m \<Rightarrow>
          let stripped = str_lower_strip m;
              parts = filter (\<lambda>p. p \<noteq> []) (map normalized_part (split_slashes stripped));
              normalized = join_slashes parts
          in if stripped = [] \<or> parts = [] \<or> normalized \<in> MODEL_ABSENT_ALIASES then None
             else Some normalized)"

subsection \<open>Routes\<close>

text \<open>
  The provider prefix and the rest, as Harbor splits a name; no prefix and an empty one read the
  same.
\<close>

definition prefix_of :: "(string \<Rightarrow> string option \<times> string) \<Rightarrow> string \<Rightarrow> string" where
  "prefix_of split s = (case fst (split s) of None \<Rightarrow> [] | Some p \<Rightarrow> p)"

definition lowered :: "string option \<Rightarrow> string" where
  "lowered model = (case model of None \<Rightarrow> [] | Some m \<Rightarrow> str_lower_strip m)"

definition last_segment :: "string \<Rightarrow> string" where
  "last_segment s = last (split_slashes s)"

definition without_prefix :: "(string \<Rightarrow> string option \<times> string) \<Rightarrow> string set \<Rightarrow> string \<Rightarrow> string" where
  "without_prefix split prefixes model =
     (let raw = str_strip model; p = prefix_of split raw in
      if p \<noteq> [] \<and> str_lower_strip p \<in> prefixes then str_strip (snd (split raw)) else raw)"

definition ZAI_PROVIDER_PREFIXES :: "string set" where
  "ZAI_PROVIDER_PREFIXES = {''zai'', ''z-ai'', ''z.ai''}"

definition is_zai_model :: "(string \<Rightarrow> string option \<times> string) \<Rightarrow> string option \<Rightarrow> bool" where
  "is_zai_model split model =
     (let raw = lowered model; p = prefix_of split raw in
      raw \<noteq> [] \<and> (if p \<noteq> [] then str_lower_strip p \<in> ZAI_PROVIDER_PREFIXES
                  else starts_with [''glm''] (last_segment raw)))"

definition to_zai_model_id :: "(string \<Rightarrow> string option \<times> string) \<Rightarrow> string option \<Rightarrow> string option" where
  "to_zai_model_id split model =
     (if \<not> is_zai_model split model then model
      else map_option (\<lambda>m. ''zai/'' @ without_prefix split ZAI_PROVIDER_PREFIXES m) model)"

definition is_minimax_model :: "(string \<Rightarrow> string option \<times> string) \<Rightarrow> string option \<Rightarrow> bool" where
  "is_minimax_model split model =
     (let raw = lowered model; p = prefix_of split raw in
      raw \<noteq> [] \<and> (if p \<noteq> [] then str_lower_strip p = ''minimax'' else starts_with [''minimax''] raw))"

definition to_minimax_model_id :: "(string \<Rightarrow> string option \<times> string) \<Rightarrow> string option \<Rightarrow> string option" where
  "to_minimax_model_id split model =
     (if \<not> is_minimax_model split model then model
      else map_option (\<lambda>m. ''minimax/'' @ without_prefix split {''minimax''} m) model)"

definition MOONSHOT_PROVIDER_PREFIXES :: "string set" where
  "MOONSHOT_PROVIDER_PREFIXES = {''moonshot'', ''moonshotai'', ''kimi''}"

definition is_moonshot_model :: "(string \<Rightarrow> string option \<times> string) \<Rightarrow> string option \<Rightarrow> bool" where
  "is_moonshot_model split model =
     (let raw = lowered model; p = prefix_of split raw in
      raw \<noteq> [] \<and> (if p \<noteq> [] then str_lower_strip p \<in> MOONSHOT_PROVIDER_PREFIXES else starts_with [''kimi-''] raw))"

definition to_moonshot_model_id :: "(string \<Rightarrow> string option \<times> string) \<Rightarrow> string option \<Rightarrow> string option" where
  "to_moonshot_model_id split model =
     (if \<not> is_moonshot_model split model then model
      else map_option (\<lambda>m. ''moonshot/'' @ without_prefix split MOONSHOT_PROVIDER_PREFIXES m) model)"

definition is_deepseek_model :: "(string \<Rightarrow> string option \<times> string) \<Rightarrow> string option \<Rightarrow> bool" where
  "is_deepseek_model split model =
     (let raw = lowered model; p = prefix_of split raw in
      raw \<noteq> [] \<and> (if p \<noteq> [] then str_lower_strip p \<in> {''deepseek'', ''ds''}
                  else starts_with [''deepseek-''] (last_segment raw)))"

definition deepseek_bare_model_id :: "(string \<Rightarrow> string option \<times> string) \<Rightarrow> string \<Rightarrow> string" where
  "deepseek_bare_model_id split model =
     (let bare = without_prefix split {''deepseek'', ''ds''} model in
      if bare = ''deepseek-v4-pro-0813'' then ''deepseek-v4-pro'' else bare)"

definition to_deepseek_model_id :: "(string \<Rightarrow> string option \<times> string) \<Rightarrow> string option \<Rightarrow> string option" where
  "to_deepseek_model_id split model =
     (if \<not> is_deepseek_model split model then model
      else map_option (\<lambda>m. ''deepseek/'' @ deepseek_bare_model_id split m) model)"

definition FIREWORKS_SHORT_MODEL_IDS :: "(string, string) dict" where
  "FIREWORKS_SHORT_MODEL_IDS =
     [(''glm-5.2'', ''glm-5p2''), (''glm-5p2'', ''glm-5p2''), (''minimax-m3'', ''minimax-m3''),
      (''kimi-k2.7'', ''kimi-k2p7-code''), (''kimi-k2.7-code'', ''kimi-k2p7-code''),
      (''kimi-k2p7'', ''kimi-k2p7-code''), (''kimi-k2p7-code'', ''kimi-k2p7-code'')]"

definition is_fireworks_model :: "(string \<Rightarrow> string option \<times> string) \<Rightarrow> string option \<Rightarrow> bool" where
  "is_fireworks_model split model =
     (let raw = lowered model; p = prefix_of split raw in
      raw \<noteq> [] \<and> p \<noteq> [] \<and> str_lower_strip p \<in> {''fireworks'', ''fw''})"

definition to_fireworks_model_id :: "(string \<Rightarrow> string option \<times> string) \<Rightarrow> string option \<Rightarrow> string option" where
  "to_fireworks_model_id split model =
     (if \<not> is_fireworks_model split model then model
      else map_option (\<lambda>m. let low = str_lower_strip (without_prefix split {''fireworks'', ''fw''} m) in
        ''fireworks/'' @ dict_get FIREWORKS_SHORT_MODEL_IDS low low) model)"

definition is_xai_model :: "(string \<Rightarrow> string option \<times> string) \<Rightarrow> string option \<Rightarrow> bool" where
  "is_xai_model split model = (lowered model \<noteq> [] \<and> prefix_of split (lowered model) \<in> {''xai'', ''grok''})"

definition to_xai_model_id :: "(string \<Rightarrow> string option \<times> string) \<Rightarrow> string option \<Rightarrow> string option" where
  "to_xai_model_id split model =
     (if \<not> is_xai_model split model then model
      else map_option (\<lambda>m. ''xai/'' @ without_prefix split {''xai'', ''grok''} m) model)"

definition is_meta_model :: "(string \<Rightarrow> string option \<times> string) \<Rightarrow> string option \<Rightarrow> bool" where
  "is_meta_model split model = (lowered model \<noteq> [] \<and> prefix_of split (lowered model) = ''meta'')"

definition to_meta_model_id :: "(string \<Rightarrow> string option \<times> string) \<Rightarrow> string option \<Rightarrow> string option" where
  "to_meta_model_id split model =
     (if \<not> is_meta_model split model then model
      else map_option (\<lambda>m. ''meta/'' @ without_prefix split {''meta''} m) model)"

definition is_anthropic_hdo_model :: "(string \<Rightarrow> string option \<times> string) \<Rightarrow> string option \<Rightarrow> bool" where
  "is_anthropic_hdo_model split model =
     (lowered model \<noteq> [] \<and> prefix_of split (lowered model) \<noteq> [] \<and>
      str_lower_strip (prefix_of split (lowered model)) = ''anthropic-hdo'')"

definition to_anthropic_hdo_model_id :: "(string \<Rightarrow> string option \<times> string) \<Rightarrow> string option \<Rightarrow> string option" where
  "to_anthropic_hdo_model_id split model =
     (if \<not> is_anthropic_hdo_model split model then model
      else map_option (\<lambda>m. ''anthropic-hdo/'' @ without_prefix split {''anthropic-hdo''} m) model)"

subsection \<open>The model and the queue of a trial\<close>

definition normalize_trial_model ::
  "(string \<Rightarrow> string option \<times> string) \<Rightarrow> bool \<Rightarrow> string \<Rightarrow> string option \<Rightarrow> exc + string option" where
  "normalize_trial_model split strict agent model =
     (let cleaned = normalize_model_id model in
      if is_nop_oracle_agent (Some agent) then Inr (Some NOP_ORACLE_QUEUE_KEY)
      else if is_fireworks_model split cleaned then Inr (to_fireworks_model_id split cleaned)
      else if is_meta_model split cleaned then Inr (to_meta_model_id split cleaned)
      else if is_xai_model split cleaned then Inr (to_xai_model_id split cleaned)
      else if is_zai_model split cleaned then Inr (to_zai_model_id split cleaned)
      else if is_minimax_model split cleaned then Inr (to_minimax_model_id split cleaned)
      else if is_moonshot_model split cleaned then Inr (to_moonshot_model_id split cleaned)
      else if is_deepseek_model split cleaned then Inr (to_deepseek_model_id split cleaned)
      else if is_anthropic_hdo_model split cleaned then Inr (to_anthropic_hdo_model_id split cleaned)
      else if strict then to_bedrock_model_id split cleaned
      else (case to_bedrock_model_id split cleaned of Inl e \<Rightarrow> Inr cleaned | Inr m \<Rightarrow> Inr m))"

definition get_provider_for_agent :: "(string, string) dict \<Rightarrow> string \<Rightarrow> string" where
  "get_provider_for_agent agent_to_provider agent =
     (case map_of agent_to_provider agent of
        Some provider \<Rightarrow> provider
      | None \<Rightarrow> (case find (\<lambda>(pattern, _). starts_with [pattern] agent) agent_to_provider of
          Some (_, provider) \<Rightarrow> provider | None \<Rightarrow> ''default''))"

definition get_queue_key_for_trial ::
  "(string \<Rightarrow> string option \<times> string) \<Rightarrow> (string \<Rightarrow> string option) \<Rightarrow> (string, string) dict \<Rightarrow>
   string \<Rightarrow> string option \<Rightarrow> exc + string" where
  "get_queue_key_for_trial split litellm agent_to_provider agent model =
     (if is_nop_oracle_agent (Some agent) then Inr NOP_ORACLE_QUEUE_KEY
      else bind_err (normalize_trial_model split True agent model) (\<lambda>normalized.
        case normalized of
          Some m \<Rightarrow> if m \<noteq> [] then Inr (normalize_queue_key split litellm m)
            else if get_provider_for_agent agent_to_provider agent = ''xai'' then Inr ''xai'' else Inr ''default''
        | None \<Rightarrow> if get_provider_for_agent agent_to_provider agent = ''xai'' then Inr ''xai'' else Inr ''default''))"

end
