(* ===== verification/Qa_Trials.thy ===== *)
theory Qa_Trials
  imports Verdict_Sync Trial_Models
begin

text \<open>
  The creation of the platform's own trials, from \<open>workers/analysis_trials.py\<close> and \<open>queue.py\<close>: the
  shadow experiment they live in, the index a trial of a task takes, the trial row and its job,
  the QA trial with the facts it is to be checked against, and the source audit of a version. The
  brief, the prompt of the agent, is not a column the queue reads and is left out. Ids from
  \<open>generate_id\<close> are arguments. A raised exception leaves the tables as they were.
\<close>

subsection \<open>Jobs of trials\<close>

definition trial_job_payload :: "string \<Rightarrow> string option \<Rightarrow> (string, string) dict" where
  "trial_job_payload trial_id auth =
     [(''trial_id'', json_string trial_id)] @
     (case auth of None \<Rightarrow> [] | Some a \<Rightarrow> if a = [] then [] else [(''registry_auth_enc'', json_string a)])"

record trial_job_args =
  ta_trial_id :: string
  ta_queue_key :: string
  ta_org_id :: "string option"
  ta_max_attempts :: int
  ta_priority :: int
  ta_parent_job_id :: "string option"
  ta_harbor_variant_id :: string
  ta_registry_auth_enc :: "string option"
  ta_execution_lane :: string

definition enqueue_trial_worker_job ::
  "(worker_job_kind \<Rightarrow> payload_hook option) \<Rightarrow> string \<Rightarrow> int \<Rightarrow> trial_job_args \<Rightarrow> worker_job list \<Rightarrow>
   exc + worker_job list" where
  "enqueue_trial_worker_job handler i now ta jobs =
     enqueue_worker_job handler True i now
       \<lparr>er_kind = Kind_trial, er_queue_key = ta_queue_key ta,
        er_payload = trial_job_payload (ta_trial_id ta) (ta_registry_auth_enc ta),
        er_subject_table = Some ''trials'', er_subject_id = Some (ta_trial_id ta),
        er_priority = ta_priority ta, er_max_attempts = ta_max_attempts ta, er_org_id = ta_org_id ta,
        er_parent_job_id = ta_parent_job_id ta, er_status = QUEUED,
        er_harbor_variant_id = ta_harbor_variant_id ta, er_execution_lane = ta_execution_lane ta\<rparr> jobs"

subsection \<open>The index of a trial\<close>

text \<open>
  \<open>isdigit\<close> also accepts the superscripts one, two and three, on which \<open>int\<close> raises; what \<open>int\<close>
  reads otherwise are the ASCII digits.
\<close>

definition ascii_digit :: "char \<Rightarrow> bool" where
  "ascii_digit c \<longleftrightarrow> c \<in> set ''0123456789''"

definition is_digit_text :: "string \<Rightarrow> bool" where
  "is_digit_text s \<longleftrightarrow> s \<noteq> [] \<and>
     list_all (\<lambda>c. ascii_digit c \<or> (of_char c :: nat) \<in> {178, 179, 185}) s"

definition int_of_text :: "string \<Rightarrow> exc + int" where
  "int_of_text s = (if list_all ascii_digit s then Inr (int (nat_of_digits s))
     else Inl (OtherError ''ValueError''))"

text \<open>The largest index so far, from -1 on, over the ids with the task's prefix and digits after it.\<close>

fun max_trial_index :: "string \<Rightarrow> string list \<Rightarrow> int \<Rightarrow> exc + int" where
  "max_trial_index prefix [] m = Inr m"
| "max_trial_index prefix (i # ids) m =
     (let suffix = drop (length prefix) i in
      if starts_with [prefix] i \<and> is_digit_text suffix
      then bind_err (int_of_text suffix) (\<lambda>n. max_trial_index prefix ids (max m n))
      else max_trial_index prefix ids m)"

definition reserve_next_trial_index :: "string \<Rightarrow> queue_db \<Rightarrow> exc + int" where
  "reserve_next_trial_index task_id db =
     (if \<not> task_visible task_id db
      then Inl (OtherError (''cannot reserve a trial id for missing task '' @ task_id))
      else bind_err (max_trial_index (task_id @ ''-'')
             (map tr_id (filter (\<lambda>tr. tr_task_id tr = task_id) (db_trials db))) (- 1))
           (\<lambda>m. Inr (m + 1)))"

subsection \<open>The shadow experiment\<close>

definition live_parent :: "experiment_row \<Rightarrow> bool" where
  "live_parent e \<longleftrightarrow> ex_deleted_at e = None \<and> ex_shadow_of e = None"

definition parent_experiment :: "string \<Rightarrow> queue_db \<Rightarrow> experiment_row option" where
  "parent_experiment task_id db =
     (case concat (map (\<lambda>te. filter (\<lambda>e. ex_id e = te_experiment_id te \<and> live_parent e) (db_experiments db))
        (sort_key te_created_at
          (filter (\<lambda>te. te_task_id te = task_id \<and> te_deleted_at te = None) (db_task_experiments db)))) of
        [] \<Rightarrow> None | e # _ \<Rightarrow> Some e)"

definition live_shadow_of :: "string \<Rightarrow> experiment_row \<Rightarrow> bool" where
  "live_shadow_of parent_id e \<longleftrightarrow> ex_shadow_of e = Some parent_id \<and> ex_deleted_at e = None"

definition resolve_analysis_experiment_id ::
  "int \<Rightarrow> string \<Rightarrow> string \<Rightarrow> queue_db \<Rightarrow> exc + queue_db \<times> string" where
  "resolve_analysis_experiment_id now new_id task_id db =
     (case parent_experiment task_id db of
        None \<Rightarrow> Inl (OtherError (''task '' @ task_id @ '' has no live experiment membership for an analysis trial''))
      | Some parent \<Rightarrow>
          let shadow = \<lparr>ex_id = new_id, ex_name = take 240 (ex_name parent) @ '' (qa report)'',
                ex_org_id = ex_org_id parent, ex_owner_user_id = ex_owner_user_id parent,
                ex_shadow_of = Some (ex_id parent), ex_deleted_at = None\<rparr>;
              experiments = (if list_ex (live_shadow_of (ex_id parent)) (db_experiments db) then db_experiments db
                else db_experiments db @ [shadow])
          in (case find (live_shadow_of (ex_id parent)) experiments of
                None \<Rightarrow> Inl (OtherError (''no shadow experiment for '' @ ex_id parent))
              | Some e \<Rightarrow>
                  let member = \<lparr>te_task_id = task_id, te_experiment_id = ex_id e, te_created_at = now,
                        te_deleted_at = None\<rparr>
                  in Inr (db\<lparr>db_experiments := experiments,
                       db_task_experiments := insert_missing (\<lambda>te. (te_task_id te, te_experiment_id te)) [member]
                         (db_task_experiments db)\<rparr>, ex_id e)))"

subsection \<open>The trial and its job\<close>

text \<open>
  What creation takes from the process: the clock, fresh ids for the shadow experiment and the
  job, the hook of the payload's kind, the model settings, SHA-256 and the text of the audit
  policy.
\<close>

record analysis_env =
  ae_now :: int
  ae_shadow_id :: string
  ae_job_id :: string
  ae_handler :: "worker_job_kind \<Rightarrow> payload_hook option"
  ae_split :: "string \<Rightarrow> string option \<times> string"
  ae_litellm :: "string \<Rightarrow> string option"
  ae_agent_to_provider :: "(string, string) dict"
  ae_analysis_model :: string
  ae_sha :: "string \<Rightarrow> string"
  ae_audit_policy :: string

definition ANALYSIS_TRIAL_MAX_ATTEMPTS :: int where
  "ANALYSIS_TRIAL_MAX_ATTEMPTS = 3"

record analysis_args =
  aa_kind :: string
  aa_task_version_id :: "string option"
  aa_payload :: "json_object option"
  aa_experiment_id :: "string option"
  aa_model :: "string option"
  aa_environment :: "string option"

definition audit_policy_hash :: "analysis_env \<Rightarrow> string" where
  "audit_policy_hash env = ae_sha env (ae_audit_policy env)"

definition analysis_payload_of :: "analysis_env \<Rightarrow> analysis_args \<Rightarrow> task_version_row option \<Rightarrow> json" where
  "analysis_payload_of env aa version =
     (if aa_kind aa = ''audit'' then
        let p = dict_set (case aa_payload aa of None \<Rightarrow> [] | Some p \<Rightarrow> p) ''audit_policy_hash''
              (JString (audit_policy_hash env)) in
        JObject (case Option.bind version (\<lambda>v. truthy (tv_content_hash v)) of
            None \<Rightarrow> p | Some h \<Rightarrow> dict_set p ''task_version_content_hash'' (JString h))
      else opt_json JObject (aa_payload aa))"

definition analysis_trial_row ::
  "int \<Rightarrow> task_row \<Rightarrow> analysis_args \<Rightarrow> string \<Rightarrow> string \<Rightarrow> string \<Rightarrow> string option \<Rightarrow> string \<Rightarrow> int \<Rightarrow> json \<Rightarrow> trial_row" where
  "analysis_trial_row now task aa trial_id experiment agent model queue_key index payload =
     \<lparr>tr_id = trial_id, tr_task_id = tk_id task,
      tr_task_version_id = (case truthy (aa_task_version_id aa) of Some v \<Rightarrow> Some v | None \<Rightarrow> tk_current_version_id task),
      tr_experiment_id = experiment, tr_kind = aa_kind aa, tr_agent = agent, tr_queue_key = queue_key,
      tr_reward = None, tr_status = Trial_queued, tr_environment = aa_environment aa, tr_attempts = 0,
      tr_current_worker_id = None, tr_current_queue_slot = None, tr_next_retry_at = None,
      tr_heartbeat_at = None, tr_error_message = None, tr_superseded_by_trial_id = None,
      tr_deleted_at = None, tr_finished_at = None, tr_stale_reaped_at = None, tr_harbor_stage = None,
      tr_imported_at = None, tr_has_trajectory = False, tr_created_at = now,
      tr_name = tk_name task @ ''-'' @ aa_kind aa @ ''-'' @ string_of_int index, tr_org_id = tk_org_id task,
      tr_model = model, tr_max_attempts = ANALYSIS_TRIAL_MAX_ATTEMPTS, tr_cost_usd = None, tr_analysis = JNull,
      tr_analysis_payload = payload, tr_analysis_status = None, tr_analysis_error = None,
      tr_analysis_finished_at = None\<rparr>"

definition refuse :: "string \<Rightarrow> string \<Rightarrow> exc" where
  "refuse kind why = OtherError (''refusing to create a '' @ kind @ '' trial for '' @ why)"

definition create_analysis_trial ::
  "analysis_env \<Rightarrow> task_row \<Rightarrow> analysis_args \<Rightarrow> queue_db \<Rightarrow> exc + queue_db \<times> trial_row" where
  "create_analysis_trial env task aa db =
     (let pin = (case truthy (aa_task_version_id aa) of Some v \<Rightarrow> Some v | None \<Rightarrow> tk_current_version_id task);
          version = Option.bind pin (\<lambda>i. find_version i db);
          agent = (if aa_kind aa = ''summarize'' then ''single-llm'' else ''claude-code'')
      in
      if tk_deleted_at task \<noteq> None
      then Inl (refuse (aa_kind aa) (''deleted task '' @ tk_id task))
      else if pin \<noteq> None \<and> version = None
      then Inl (refuse (aa_kind aa) (''task '' @ tk_id task @ '': version '' @ the pin @ '' is missing''))
      else
      bind_err (case aa_experiment_id aa of
          Some e \<Rightarrow> Inr (db, e)
        | None \<Rightarrow> resolve_analysis_experiment_id (ae_now env) (ae_shadow_id env) (tk_id task) db) (\<lambda>(db1, experiment).
      bind_err (reserve_next_trial_index (tk_id task) db1) (\<lambda>index.
      let trial_id = tk_id task @ ''-'' @ string_of_int index in
      bind_err (normalize_trial_model (ae_split env) True agent
        (Some (or_text (aa_model aa) (ae_analysis_model env)))) (\<lambda>model.
      bind_err (get_queue_key_for_trial (ae_split env) (ae_litellm env) (ae_agent_to_provider env) agent model) (\<lambda>queue_key.
      let trial = analysis_trial_row (ae_now env) task aa trial_id experiment agent model queue_key index
            (analysis_payload_of env aa version)
      in bind_err (enqueue_trial_worker_job (ae_handler env) (ae_job_id env) (ae_now env)
           \<lparr>ta_trial_id = trial_id, ta_queue_key = queue_key, ta_org_id = tk_org_id task,
            ta_max_attempts = ANALYSIS_TRIAL_MAX_ATTEMPTS, ta_priority = 1, ta_parent_job_id = None,
            ta_harbor_variant_id = ''default'', ta_registry_auth_enc = None, ta_execution_lane = ''default''\<rparr>
           (db_jobs db1)) (\<lambda>jobs.
      Inr (db1\<lparr>db_trials := db_trials db1 @ [trial], db_jobs := jobs\<rparr>, trial)))))))"

subsection \<open>The QA trial\<close>

definition add_new :: "string \<Rightarrow> string list \<Rightarrow> string list" where
  "add_new x xs = (if x \<in> set xs then xs else xs @ [x])"

definition pre_trial_item_ids :: "json \<Rightarrow> string list \<times> string list" where
  "pre_trial_item_ids items =
     foldl (\<lambda>(ids, must_fix) item.
       let i = py_str (field item ''id'') in
       (add_new i ids, if must_fix_item item then add_new i must_fix else must_fix))
     ([], []) (identified_items items)"

definition current_version :: "task_row \<Rightarrow> queue_db \<Rightarrow> task_version_row option" where
  "current_version task db = Option.bind (truthy (tk_current_version_id task)) (\<lambda>i. find_version i db)"

definition audit_items :: "task_version_row option \<Rightarrow> json" where
  "audit_items version =
     (case version of
        None \<Rightarrow> JNull
      | Some v \<Rightarrow> if tv_pre_trial_status v = Some Trial_success
          then field (case tv_pre_trial v of None \<Rightarrow> [] | Some p \<Rightarrow> p) ''items'' else JNull)"

definition version_trials :: "task_row \<Rightarrow> queue_db \<Rightarrow> trial_row list" where
  "version_trials task db = filter (\<lambda>tr. tr_task_id tr = tk_id task \<and>
     tr_task_version_id tr = tk_current_version_id task \<and> tr_superseded_by_trial_id tr = None \<and>
     tr_deleted_at tr = None) (db_trials db)"

definition baseline_evidence :: "trial_row list \<Rightarrow> json_object list" where
  "baseline_evidence rows = map qa_trial_evidence (filter (\<lambda>tr. is_nop_oracle_agent (Some (tr_agent tr))) rows)"

definition json_strings :: "string list \<Rightarrow> json" where
  "json_strings xs = JList (map JString xs)"

definition qa_payload ::
  "(string \<Rightarrow> string) \<Rightarrow> task_version_row option \<Rightarrow> trial_row list \<Rightarrow> trial_row list \<Rightarrow> bool \<Rightarrow> json_object" where
  "qa_payload sha version sources rows with_verdict =
     (let (item_ids, must_fix_ids) = pre_trial_item_ids (audit_items version) in
      [(''trial_ids'', json_strings (map tr_id sources)),
       (''trial_evidence'', JList (map (\<lambda>tr. JObject (qa_trial_evidence tr)) sources)),
       (''baseline_evidence'', JList (map JObject (baseline_evidence rows))),
       (''pre_trial_item_ids'', json_strings item_ids),
       (''pre_trial_must_fix_ids'', json_strings must_fix_ids),
       (''with_verdict'', JBool with_verdict),
       (''audit_fingerprint'', opt_json (\<lambda>v. JString (audit_fingerprint sha v)) version)])"

definition create_qa_trial ::
  "analysis_env \<Rightarrow> task_row \<Rightarrow> string list \<Rightarrow> bool \<Rightarrow> string option \<Rightarrow> queue_db \<Rightarrow> exc + queue_db \<times> trial_row" where
  "create_qa_trial env task eligible with_verdict environment db =
     (let version = current_version task db;
          rows = version_trials task db;
          audit_ready = (case version of None \<Rightarrow> True | Some v \<Rightarrow> tv_pre_trial_status v = Some Trial_success)
      in
      if \<not> set eligible \<subseteq> tr_id ` set rows
      then Inl (OtherError (''QA source trials disappeared: '' @
        py_repr_strings (filter (\<lambda>i. i \<notin> tr_id ` set rows) eligible)))
      else create_analysis_trial env task
        \<lparr>aa_kind = ''qa'', aa_task_version_id = None,
         aa_payload = Some (qa_payload (ae_sha env) version
           (List.map_filter (\<lambda>i. find (\<lambda>tr. tr_id tr = i) rows) eligible) rows (with_verdict \<and> audit_ready)),
         aa_experiment_id = None, aa_model = None, aa_environment = environment\<rparr> db)"

subsection \<open>The source audit of a version\<close>

definition maybe_enqueue_audit_trial ::
  "analysis_env \<Rightarrow> task_row \<Rightarrow> string option \<Rightarrow> queue_db \<Rightarrow> exc + queue_db \<times> bool" where
  "maybe_enqueue_audit_trial env task task_version_id db =
     (case (case truthy task_version_id of Some v \<Rightarrow> Some v | None \<Rightarrow> tk_current_version_id task) of
        None \<Rightarrow> Inr (db, False)
      | Some version_id \<Rightarrow>
          (case find_version version_id db of
             None \<Rightarrow> Inr (db, False)
           | Some v \<Rightarrow>
               if tv_pre_trial_status v \<noteq> None then Inr (db, False)
               else
                 let db1 = with_version version_id
                       (\<lambda>v. v\<lparr>tv_pre_trial_status := Some Trial_queued, tv_pre_trial_started_at := Some (ae_now env)\<rparr>) db
                 in bind_err (create_analysis_trial env task
                      \<lparr>aa_kind = ''audit'', aa_task_version_id = Some version_id, aa_payload = None,
                       aa_experiment_id = None, aa_model = None, aa_environment = None\<rparr> db1)
                    (\<lambda>(db2, _). Inr (db2, True))))"

subsection \<open>Indices are fresh\<close>

lemma string_of_nat_digit: "string_of_nat n \<noteq> [] \<and> (\<forall>c \<in> set (string_of_nat n). ascii_digit c)"
proof (induction n rule: string_of_nat.induct)
  case (1 n)
  have digit: "ascii_digit (digit_char d)" if "d < 10" for d
  proof -
    have "d \<in> set [0..<10]" using that by simp
    moreover have "list_all (\<lambda>d. ascii_digit (digit_char d)) [0..<10]" by code_simp
    ultimately show ?thesis unfolding list_all_iff by blast
  qed
  show ?case
  proof (cases "n < 10")
    case True
    then show ?thesis using digit [of n] by (subst (1 2) string_of_nat.simps) simp
  next
    case False
    then show ?thesis using 1 digit [of "n mod 10"] by (subst (1 2) string_of_nat.simps) auto
  qed
qed

lemma index_text_reads:
  "is_digit_text (string_of_nat n)" "int_of_text (string_of_nat n) = Inr (int n)"
  using string_of_nat_digit [of n]
  by (auto simp: is_digit_text_def int_of_text_def nat_of_string_of_nat list_all_iff)

lemma max_trial_index_ge: "max_trial_index prefix ids m = Inr r \<Longrightarrow> m \<le> r"
proof (induction ids arbitrary: m)
  case (Cons i ids)
  then show ?case by (fastforce simp: Let_def bind_err_Inr split: if_splits)
qed simp

lemma max_trial_index_bound:
  "max_trial_index prefix ids m = Inr r \<Longrightarrow> prefix @ string_of_nat n \<in> set ids \<Longrightarrow> int n \<le> r"
proof (induction ids arbitrary: m)
  case (Cons i ids)
  show ?case
  proof (cases "i = prefix @ string_of_nat n")
    case True
    with Cons.prems(1) have "max_trial_index prefix ids (max m (int n)) = Inr r"
      by (simp add: index_text_reads)
    then show ?thesis using max_trial_index_ge by fastforce
  next
    case False
    with Cons.prems obtain m' where "max_trial_index prefix ids m' = Inr r"
      by (auto simp: Let_def bind_err_Inr split: if_splits)
    with Cons.IH Cons.prems(2) False show ?thesis by auto
  qed
qed simp

lemma reserved_index:
  assumes "reserve_next_trial_index task_id db = Inr n"
  shows "0 \<le> n" and "tr \<in> set (db_trials db) \<Longrightarrow> tr_task_id tr = task_id \<Longrightarrow>
    tr_id tr \<noteq> task_id @ ''-'' @ string_of_int n"
proof -
  let ?ids = "map tr_id (filter (\<lambda>tr. tr_task_id tr = task_id) (db_trials db))"
  from assms obtain m where m: "max_trial_index (task_id @ ''-'') ?ids (- 1) = Inr m" "n = m + 1"
    by (auto simp: reserve_next_trial_index_def bind_err_Inr split: if_splits)
  from max_trial_index_ge [OF m(1)] m(2) show n: "0 \<le> n" by simp
  show "tr_id tr \<noteq> task_id @ ''-'' @ string_of_int n" if "tr \<in> set (db_trials db)" "tr_task_id tr = task_id"
  proof
    assume "tr_id tr = task_id @ ''-'' @ string_of_int n"
    with that n have "(task_id @ ''-'') @ string_of_nat (nat n) \<in> set ?ids"
      by (auto simp: string_of_int_def intro!: rev_image_eqI)
    from max_trial_index_bound [OF m(1) this] m(2) n show False by simp
  qed
qed

subsection \<open>What a creation does\<close>

lemma resolved_experiment:
  assumes "resolve_analysis_experiment_id now new_id task_id db = Inr (db1, place)"
  shows "db1 = db\<lparr>db_experiments := db_experiments db1, db_task_experiments := db_task_experiments db1\<rparr>"
    and "\<exists>p \<in> set (db_experiments db). live_parent p \<and>
      (\<exists>e \<in> set (db_experiments db1). ex_id e = place \<and> live_shadow_of (ex_id p) e)"
proof -
  from assms obtain p e where p: "parent_experiment task_id db = Some p"
    and e: "find (live_shadow_of (ex_id p)) (db_experiments db1) = Some e" "place = ex_id e"
    and db1: "db1 = db\<lparr>db_experiments := db_experiments db1, db_task_experiments := db_task_experiments db1\<rparr>"
    by (auto simp: resolve_analysis_experiment_id_def Let_def split: option.splits if_splits)
  show "db1 = db\<lparr>db_experiments := db_experiments db1, db_task_experiments := db_task_experiments db1\<rparr>"
    by (rule db1)
  have "p \<in> set (db_experiments db) \<and> live_parent p"
    using first_in [OF p [unfolded parent_experiment_def]] by auto
  then show "\<exists>p \<in> set (db_experiments db). live_parent p \<and>
      (\<exists>e \<in> set (db_experiments db1). ex_id e = place \<and> live_shadow_of (ex_id p) e)"
    using find_SomeD [OF e(1)] e(2) by blast
qed

lemma create_analysis_trialE:
  assumes "create_analysis_trial env task aa db = Inr (db', tr)"
  obtains db1 place index agent model queue_key payload jobs where
    "(case aa_experiment_id aa of Some e \<Rightarrow> Inr (db, e)
       | None \<Rightarrow> resolve_analysis_experiment_id (ae_now env) (ae_shadow_id env) (tk_id task) db) = Inr (db1, place)"
    "reserve_next_trial_index (tk_id task) db1 = Inr index"
    "payload = analysis_payload_of env aa (Option.bind
       (case truthy (aa_task_version_id aa) of Some v \<Rightarrow> Some v | None \<Rightarrow> tk_current_version_id task) (\<lambda>i. find_version i db))"
    "tr = analysis_trial_row (ae_now env) task aa (tk_id task @ ''-'' @ string_of_int index) place agent
       model queue_key index payload"
    "enqueue_trial_worker_job (ae_handler env) (ae_job_id env) (ae_now env)
        \<lparr>ta_trial_id = tr_id tr, ta_queue_key = queue_key, ta_org_id = tk_org_id task,
         ta_max_attempts = ANALYSIS_TRIAL_MAX_ATTEMPTS, ta_priority = 1, ta_parent_job_id = None,
         ta_harbor_variant_id = ''default'', ta_registry_auth_enc = None, ta_execution_lane = ''default''\<rparr>
        (db_jobs db1) = Inr jobs"
    "db' = db1\<lparr>db_trials := db_trials db1 @ [tr], db_jobs := jobs\<rparr>"
  using assms by (auto simp: create_analysis_trial_def Let_def bind_err_Inr analysis_trial_row_def split: if_splits)

lemma placed_same:
  assumes "(case aa_experiment_id aa of Some e \<Rightarrow> Inr (db, e)
    | None \<Rightarrow> resolve_analysis_experiment_id now new_id task_id db) = Inr (db1, place)"
  shows "db_trials db1 = db_trials db" "db_jobs db1 = db_jobs db" "db_tasks db1 = db_tasks db"
    "db_versions db1 = db_versions db"
proof -
  have "db1 = db\<lparr>db_experiments := db_experiments db1, db_task_experiments := db_task_experiments db1\<rparr>"
    using assms resolved_experiment(1) by (auto split: option.splits)
  then show "db_trials db1 = db_trials db" "db_jobs db1 = db_jobs db" "db_tasks db1 = db_tasks db"
    "db_versions db1 = db_versions db" by (metis queue_db.ext_inject queue_db.surjective queue_db.update_convs(8,9))+
qed

text \<open>What every creation does to the tables of trials, tasks and versions.\<close>

lemma created_rows:
  assumes "create_analysis_trial env task aa db = Inr (db', tr)"
  shows "db_trials db' = db_trials db @ [tr]" "db_tasks db' = db_tasks db" "db_versions db' = db_versions db"
    "\<exists>j. db_jobs db' = db_jobs db @ [j] \<and> trial_job_of [tr_id tr] j \<and> wj_status j = QUEUED \<and>
       wj_priority j = 1 \<and> wj_queue_key j = tr_queue_key tr"
    "tr_task_id tr = tk_id task" "tr_kind tr = aa_kind aa" "tr_status tr = Trial_queued"
    "tr_harbor_stage tr = None" "tr_deleted_at tr = None" "tr_superseded_by_trial_id tr = None"
    "tr_task_version_id tr = (case truthy (aa_task_version_id aa) of Some v \<Rightarrow> Some v | None \<Rightarrow> tk_current_version_id task)"
    "aa_kind aa \<noteq> ''audit'' \<Longrightarrow> tr_analysis_payload tr = opt_json JObject (aa_payload aa)"
    "old \<in> set (db_trials db) \<Longrightarrow> tr_task_id old = tk_id task \<Longrightarrow> tr_id old \<noteq> tr_id tr"
proof -
  from assms show "db_trials db' = db_trials db @ [tr]" "db_tasks db' = db_tasks db" "db_versions db' = db_versions db"
    by (elim create_analysis_trialE; simp add: placed_same)+
  from assms show "\<exists>j. db_jobs db' = db_jobs db @ [j] \<and> trial_job_of [tr_id tr] j \<and> wj_status j = QUEUED \<and>
       wj_priority j = 1 \<and> wj_queue_key j = tr_queue_key tr"
    by (elim create_analysis_trialE) (auto simp: enqueue_trial_worker_job_def enqueue_worker_job_def bind_err_Inr
        job_row_def trial_job_of_def placed_same analysis_trial_row_def)
  from assms show "tr_task_id tr = tk_id task" "tr_kind tr = aa_kind aa" "tr_status tr = Trial_queued"
    "tr_harbor_stage tr = None" "tr_deleted_at tr = None" "tr_superseded_by_trial_id tr = None"
    "tr_task_version_id tr = (case truthy (aa_task_version_id aa) of Some v \<Rightarrow> Some v | None \<Rightarrow> tk_current_version_id task)"
    "aa_kind aa \<noteq> ''audit'' \<Longrightarrow> tr_analysis_payload tr = opt_json JObject (aa_payload aa)"
    by (elim create_analysis_trialE; simp add: analysis_trial_row_def analysis_payload_of_def)+
  from assms show "tr_id old \<noteq> tr_id tr" if "old \<in> set (db_trials db)" "tr_task_id old = tk_id task"
    using that by (elim create_analysis_trialE) (auto simp: analysis_trial_row_def placed_same dest!: reserved_index(2))
qed


text \<open>A task with a version, an experiment and one finished solver trial, and a process.\<close>

definition sample_env :: analysis_env where
  "sample_env = \<lparr>ae_now = 7, ae_shadow_id = ''s1'', ae_job_id = ''j1'', ae_handler = (\<lambda>_. None),
     ae_split = sample_split, ae_litellm = sample_litellm, ae_agent_to_provider = [],
     ae_analysis_model = ''claude-opus-5'', ae_sha = (\<lambda>_. replicate 64 CHR ''a''), ae_audit_policy = ''p''\<rparr>"

definition versioned_task :: task_row where
  "versioned_task = sample_task\<lparr>tk_current_version_id := Some ''v1''\<rparr>"

definition solver_trial :: trial_row where
  "solver_trial = (gate_trial ''k-0'' ''codex'' Trial_success (Some (Finite 1)))\<lparr>tr_task_version_id := Some ''v1''\<rparr>"

definition stage_db :: queue_db where
  "stage_db = empty_db\<lparr>db_tasks := [versioned_task], db_trials := [solver_trial],
     db_versions := [sample_version\<lparr>tv_pre_trial := Some sample_findings, tv_pre_trial_status := Some Trial_success\<rparr>],
     db_experiments := [\<lparr>ex_id = ''e'', ex_name = ''exp'', ex_org_id = None, ex_owner_user_id = None,
       ex_shadow_of = None, ex_deleted_at = None\<rparr>],
     db_task_experiments := [\<lparr>te_task_id = ''k'', te_experiment_id = ''e'', te_created_at = 0, te_deleted_at = None\<rparr>]\<rparr>"

definition sample_args :: analysis_args where
  "sample_args = \<lparr>aa_kind = ''qa'', aa_task_version_id = None, aa_payload = Some [], aa_experiment_id = None,
     aa_model = None, aa_environment = None\<rparr>"

lemma sample_creation:
  assumes "case resolve_analysis_experiment_id 7 ''s1'' ''k'' db of Inl e \<Rightarrow> False
      | Inr (db1, place) \<Rightarrow> reserve_next_trial_index ''k'' db1 = Inr 1 \<and> db_jobs db1 = []"
    and "find_version ''v1'' db \<noteq> None"
    and "aa_kind aa = ''qa''" "aa_task_version_id aa = None" "aa_experiment_id aa = None" "aa_model aa = None"
  shows "\<exists>db' tr. create_analysis_trial sample_env versioned_task aa db = Inr (db', tr) \<and> tr_id tr = ''k-1''"
proof -
  have model: "normalize_trial_model sample_split True ''claude-code'' (Some ''claude-opus-5'') =
      Inr (Some ''global.anthropic.claude-opus-5'')" by code_simp
  have key: "get_queue_key_for_trial sample_split sample_litellm [] ''claude-code''
      (Some ''global.anthropic.claude-opus-5'') = Inr ''global.anthropic.claude-opus-5''" by code_simp
  have one: "string_of_int 1 = ''1''" by code_simp
  obtain db1 e where place: "resolve_analysis_experiment_id 7 ''s1'' ''k'' db = Inr (db1, e)"
      "reserve_next_trial_index ''k'' db1 = Inr 1" "db_jobs db1 = []"
    using assms(1) by (auto split: sum.splits)
  show ?thesis using assms(2-6)
    by (auto simp: create_analysis_trial_def place model key sample_env_def versioned_task_def sample_task_def
        or_text_def enqueue_trial_worker_job_def enqueue_worker_job_def validated_payload_def
        analysis_trial_row_def one Let_def)
qed


subsection \<open>The payload of a QA trial\<close>

definition clean_id :: "string \<Rightarrow> bool" where
  "clean_id i \<longleftrightarrow> i \<noteq> [] \<and> str_strip i = i"

lemma map_filter_map_Some: "(\<And>x. x \<in> set xs \<Longrightarrow> f (g x) = Some (h x)) \<Longrightarrow> List.map_filter f (map g xs) = map h xs"
  by (induction xs) (simp_all add: List.map_filter_simps)

lemma string_ids_clean:
  assumes "\<forall>i \<in> set xs. clean_id i" and "distinct xs"
  shows "string_ids what (json_strings xs) = Inr xs"
proof -
  have "List.map_filter as_string (map JString xs) = xs"
    using map_filter_map_Some [of xs as_string JString id] by simp
  moreover have "map str_strip xs = xs" using assms(1) by (simp add: clean_id_def map_idI)
  moreover have "\<not> list_ex (\<lambda>x. case x of JString s \<Rightarrow> str_strip s = [] | _ \<Rightarrow> True) (map JString xs)"
    using assms(1) by (auto simp: list_ex_iff clean_id_def)
  ultimately show ?thesis using assms(2) by (simp add: string_ids_def json_strings_def)
qed

lemma object_list_objects: "object_list err (JList (map JObject kvss)) = Inr kvss"
  using map_filter_map_Some [of kvss as_object JObject id]
  by (simp add: object_list_def list_all_iff)

lemma evidence_ids_rows: "evidence_ids (map qa_trial_evidence rows) = json_strings (map tr_id rows)"
  by (simp add: evidence_ids_def json_strings_def qa_trial_evidence_def)

lemma add_new_simps [simp]: "set (add_new x xs) = insert x (set xs)" "distinct xs \<Longrightarrow> distinct (add_new x xs)"
  by (auto simp: add_new_def)

lemma pre_trial_item_ids_fold:
  assumes "distinct ids" "distinct must" "set must \<subseteq> set ids"
  shows "let (a, b) = foldl (\<lambda>(ids, must_fix) item. let i = py_str (field item ''id'') in
       (add_new i ids, if must_fix_item item then add_new i must_fix else must_fix)) (ids, must) items
     in distinct a \<and> distinct b \<and> set b \<subseteq> set a"
  using assms
proof (induction items arbitrary: ids must)
  case (Cons item items)
  let ?i = "py_str (field item ''id'')"
  have "set must \<subseteq> insert ?i (set ids)" using Cons.prems(3) by blast
  then show ?case
    using Cons.IH [of "add_new ?i ids" "if must_fix_item item then add_new ?i must else must"] Cons.prems
    by (auto simp: Let_def)
qed simp

lemma pre_trial_item_ids_sets:
  "distinct (fst (pre_trial_item_ids items))" "distinct (snd (pre_trial_item_ids items))"
  "set (snd (pre_trial_item_ids items)) \<subseteq> set (fst (pre_trial_item_ids items))"
  using pre_trial_item_ids_fold [of "[]" "[]" "identified_items items"]
  by (simp_all add: pre_trial_item_ids_def split_beta)


definition failing_nop :: trial_row where
  "failing_nop = (gate_trial ''k-2'' ''nop'' Trial_success (Some (Finite 0)))\<lparr>tr_task_version_id := Some ''v1''\<rparr>"

definition must_fix_version :: task_version_row where
  "must_fix_version = sample_version\<lparr>tv_pre_trial_status := Some Trial_success,
     tv_pre_trial := Some [(''items'', JList [JObject [(''id'', JString ''f1''), (''tier'', JString ''must_fix'')]])]\<rparr>"


end
