(* ===== verification/Task_Stages.thy ===== *)
theory Task_Stages
  imports Qa_Trials
begin

text \<open>
  The stages of a task, from the section \<open>Stage Transitions\<close> of \<open>queue.py\<close>: when the agent trials of
  the current version have finished and its audit has been published, the task enters its QA stage
  with one QA trial over the eligible trials, or is completed by the deterministic rules when there
  are none; a change of source cancels what graded the old one. A function is the transaction under
  the task's row lock.
\<close>

subsection \<open>Cancelling live analysis trials\<close>

definition unfinished_status :: "trial_status \<Rightarrow> bool" where
  "unfinished_status s \<longleftrightarrow> s \<notin> {Trial_success, Trial_failed, Trial_skipped}"

definition stage_cancelled_job :: "int \<Rightarrow> string \<Rightarrow> worker_job \<Rightarrow> worker_job" where
  "stage_cancelled_job now reason j = j\<lparr>wj_status := CANCELLED, wj_finished_at := Some now,
     wj_error_message := Some reason, wj_current_worker_id := None, wj_current_queue_slot := None,
     wj_modal_function_call_id := None\<rparr>"

definition stage_cancelled_trial :: "int \<Rightarrow> string \<Rightarrow> trial_row \<Rightarrow> trial_row" where
  "stage_cancelled_trial now reason tr = tr\<lparr>tr_status := Trial_failed, tr_harbor_stage := Some ''cancelled'',
     tr_error_message := Some reason,
     tr_finished_at := (case tr_finished_at tr of None \<Rightarrow> Some now | Some t \<Rightarrow> Some t)\<rparr>"

definition cancellable_job :: "string list \<Rightarrow> worker_job \<Rightarrow> bool" where
  "cancellable_job ids j \<longleftrightarrow> trial_job_of ids j \<and> wj_status j \<in> {QUEUED, RETRYING, RUNNING, BLOCKED}"

text \<open>The two statements, jobs first; the sub-select of the first sees the trials before the second.\<close>

definition cancel_live_trials :: "int \<Rightarrow> string \<Rightarrow> (trial_row \<Rightarrow> bool) \<Rightarrow> queue_db \<Rightarrow> queue_db \<times> int" where
  "cancel_live_trials now reason P db =
     (let live = filter P (db_trials db) in
      (db\<lparr>db_jobs := update_where (cancellable_job (map tr_id live)) (stage_cancelled_job now reason) (db_jobs db),
          db_trials := update_where P (stage_cancelled_trial now reason) (db_trials db)\<rparr>, int (length live)))"

definition live_qa_trial :: "string \<Rightarrow> trial_row \<Rightarrow> bool" where
  "live_qa_trial task_id tr \<longleftrightarrow> tr_task_id tr = task_id \<and> tr_kind tr = ''qa'' \<and> tr_deleted_at tr = None \<and>
     unfinished_status (tr_status tr)"

definition cancel_live_qa_trials :: "int \<Rightarrow> string \<Rightarrow> string \<Rightarrow> queue_db \<Rightarrow> queue_db \<times> int" where
  "cancel_live_qa_trials now task_id reason db = cancel_live_trials now reason (live_qa_trial task_id) db"

definition live_audit_trial :: "string \<Rightarrow> string \<Rightarrow> trial_row \<Rightarrow> bool" where
  "live_audit_trial task_id version_id tr \<longleftrightarrow> tr_task_id tr = task_id \<and> tr_kind tr = ''audit'' \<and>
     tr_task_version_id tr = Some version_id \<and> tr_deleted_at tr = None \<and> unfinished_status (tr_status tr)"

definition cancel_live_audit_trials :: "int \<Rightarrow> string \<Rightarrow> string \<Rightarrow> string \<Rightarrow> queue_db \<Rightarrow> queue_db \<times> int" where
  "cancel_live_audit_trials now task_id version_id reason db =
     cancel_live_trials now reason (live_audit_trial task_id version_id) db"

subsection \<open>Entering the QA stage\<close>

definition GATE_SKIP_PREFIX :: string where
  "GATE_SKIP_PREFIX = ''Skipped by baseline gate''"

definition qa_eligible :: "trial_row \<Rightarrow> bool" where
  "qa_eligible tr \<longleftrightarrow> tr_kind tr = ''agent'' \<and> tr_superseded_by_trial_id tr = None \<and> tr_imported_at tr = None \<and>
     tr_harbor_stage tr \<noteq> Some ''cancelled'' \<and> tr_status tr \<noteq> Trial_skipped \<and>
     \<not> starts_with [GATE_SKIP_PREFIX] (or_text (tr_error_message tr) []) \<and>
     \<not> baseline_agent_clause (Some (tr_agent tr))"

definition qa_eligible_trial_ids :: "string \<Rightarrow> string option \<Rightarrow> queue_db \<Rightarrow> string list" where
  "qa_eligible_trial_ids task_id version_id db =
     map tr_id (filter (\<lambda>tr. tr_task_id tr = task_id \<and> qa_eligible tr \<and> tr_deleted_at tr = None \<and>
       (version_id \<noteq> None \<longrightarrow> tr_task_version_id tr = version_id)) (db_trials db))"

definition insufficient_evidence :: string where
  "insufficient_evidence = ''Insufficient evidence: no eligible solver trials for the current task version.''"

definition first_finished :: "int \<Rightarrow> task_row \<Rightarrow> task_row" where
  "first_finished now tk = tk\<lparr>tk_status := Task_completed,
     tk_finished_at := (case tk_finished_at tk of None \<Rightarrow> Some now | Some t \<Rightarrow> Some t)\<rparr>"

definition deterministic_verdict :: "task_row \<Rightarrow> queue_db \<Rightarrow> verdict_model option" where
  "deterministic_verdict task db =
     apply_deterministic_verdict_rules None
       (snd (pre_trial_item_ids (audit_items (current_version task db))))
       (baseline_evidence (filter (\<lambda>tr. tr_kind tr = ''agent'') (version_trials task db)))"

definition start_qa_for_task ::
  "analysis_env \<Rightarrow> task_row \<Rightarrow> string option \<Rightarrow> queue_db \<Rightarrow> exc + queue_db \<times> bool" where
  "start_qa_for_task env task environment db =
     (let eligible = qa_eligible_trial_ids (tk_id task) (tk_current_version_id task) db; now = ae_now env in
      if eligible = [] then
        Inr (with_task (tk_id task) (\<lambda>tk.
          (case deterministic_verdict task db of
             Some v \<Rightarrow> complete_verdict (JObject (build_verdict_payload v [])) now
           | None \<Rightarrow> fail_verdict insufficient_evidence now) (first_finished now tk)) db, False)
      else
        bind_err (create_qa_trial env task eligible True environment
            (with_task (tk_id task) (\<lambda>tk. queue_verdict (tk\<lparr>tk_status := Task_verdict_pending\<rparr>)) db))
          (\<lambda>(db', _). Inr (db', True)))"

definition live_analysis_trial_id :: "string \<Rightarrow> string \<Rightarrow> queue_db \<Rightarrow> string option" where
  "live_analysis_trial_id task_id kind db =
     map_option tr_id (find (\<lambda>tr. tr_task_id tr = task_id \<and> live_kind kind tr \<and> active_trial_status (tr_status tr))
       (db_trials db))"

definition task_audit_pending :: "task_row \<Rightarrow> queue_db \<Rightarrow> bool" where
  "task_audit_pending task db \<longleftrightarrow>
     live_analysis_trial_id (tk_id task) ''audit'' db \<noteq> None \<or>
     list_ex (\<lambda>v. Some (tv_id v) = tk_current_version_id task \<and>
        tv_pre_trial_status v \<in> {Some Trial_pending, Some Trial_queued, Some Trial_running}) (db_versions db)"

record qa_admission =
  qa_advanced :: bool
  qa_version_id :: "string option"

definition not_admitted :: qa_admission where
  "not_admitted = \<lparr>qa_advanced = False, qa_version_id = None\<rparr>"

definition pending_agent_trial :: "task_row \<Rightarrow> trial_row \<Rightarrow> bool" where
  "pending_agent_trial task tr \<longleftrightarrow> tr_task_id tr = tk_id task \<and>
     (tk_current_version_id task \<noteq> None \<longrightarrow> tr_task_version_id tr = tk_current_version_id task) \<and>
     live_kind ''agent'' tr \<and> active_trial_status (tr_status tr)"

definition maybe_start_task_qa_stage :: "analysis_env \<Rightarrow> string \<Rightarrow> queue_db \<Rightarrow> exc + queue_db \<times> qa_admission" where
  "maybe_start_task_qa_stage env task_id db =
     (case visible_task task_id db of
        None \<Rightarrow> Inr (db, not_admitted)
      | Some task \<Rightarrow>
          if tk_status task \<notin> {Task_pending, Task_running} then Inr (db, not_admitted)
          else if list_ex (pending_agent_trial task) (db_trials db) then Inr (db, not_admitted)
          else if task_audit_pending task db then Inr (db, not_admitted)
          else if live_analysis_trial_id task_id ''qa'' db \<noteq> None then Inr (db, not_admitted)
          else bind_err (start_qa_for_task env task None db)
            (\<lambda>(db', _). Inr (db', \<lparr>qa_advanced = True, qa_version_id = tk_current_version_id task\<rparr>)))"

definition maybe_start_qa_stage :: "analysis_env \<Rightarrow> string \<Rightarrow> queue_db \<Rightarrow> exc + queue_db \<times> bool" where
  "maybe_start_qa_stage env trial_id db =
     (case visible_trial trial_id db of
        None \<Rightarrow> Inr (db, False)
      | Some tr \<Rightarrow> bind_err (maybe_start_task_qa_stage env (tr_task_id tr) db)
          (\<lambda>(db', a). Inr (db', qa_advanced a)))"

definition invalidate_task_qa_for_source_change ::
  "analysis_env \<Rightarrow> string \<Rightarrow> string option \<Rightarrow> queue_db \<Rightarrow> exc + queue_db \<times> qa_admission" where
  "invalidate_task_qa_for_source_change env task_id overwritten_version_id db =
     (let now = ae_now env;
          db1 = fst (cancel_live_qa_trials now task_id ''Superseded by task source change'' db);
          db2 = (case overwritten_version_id of
              None \<Rightarrow> db1
            | Some v \<Rightarrow> fst (cancel_live_audit_trials now task_id v ''Superseded by in-place source overwrite'' db1));
          db3 = with_task task_id (\<lambda>tk. (reset_verdict tk)\<lparr>tk_status := Task_running, tk_finished_at := None\<rparr>) db2
      in maybe_start_task_qa_stage env task_id db3)"

definition maybe_advance_legacy_analyzing_task :: "analysis_env \<Rightarrow> string \<Rightarrow> queue_db \<Rightarrow> exc + queue_db \<times> bool" where
  "maybe_advance_legacy_analyzing_task env trial_id db =
     (case visible_trial trial_id db of
        None \<Rightarrow> Inr (db, False)
      | Some tr \<Rightarrow>
          (case visible_task (tr_task_id tr) db of
             None \<Rightarrow> Inr (db, False)
           | Some task \<Rightarrow>
               if tk_status task \<noteq> Task_analyzing then Inr (db, False)
               else if list_ex (\<lambda>t. tr_task_id t = tk_id task \<and> live_kind ''agent'' t \<and>
                   active_trial_status (tr_status t)) (db_trials db) \<or> task_audit_pending task db
               then Inr (db, False)
               else bind_err (start_qa_for_task env task None db) (\<lambda>(db', _). Inr (db', True))))"

subsection \<open>The gate on appended trials\<close>

definition apply_baseline_gate_to_new_llm_trials ::
  "analysis_env \<Rightarrow> bool \<Rightarrow> gate_scope \<Rightarrow> string list \<Rightarrow> queue_db \<Rightarrow> exc + queue_db" where
  "apply_baseline_gate_to_new_llm_trials env armed sc llm_ids db =
     (if \<not> armed \<or> llm_ids = [] then Inr db
      else if \<not> task_visible (gs_task_id sc) db then Inr db
      else if \<not> list_ex (scope_baseline sc) (db_trials db) then Inr db
      else
        let db1 = block_worker_jobs_for_trials llm_ids db;
            db2 = fst (resolve_baseline_gate_for_scope (ae_now env) sc db1)
        in bind_err (maybe_start_qa_stage env (hd llm_ids) db2) (\<lambda>(db3, _). Inr db3))"

subsection \<open>When the stage is entered\<close>

text \<open>What admission waits for: the task is running, and nothing of it is still at work.\<close>

definition at_work :: "string \<Rightarrow> task_row \<Rightarrow> trial_row \<Rightarrow> bool" where
  "at_work kind task tr \<longleftrightarrow> tr_task_id tr = tk_id task \<and> live_kind kind tr \<and> active_trial_status (tr_status tr)"

definition ready_for_qa :: "task_row \<Rightarrow> queue_db \<Rightarrow> bool" where
  "ready_for_qa task db \<longleftrightarrow> tk_status task \<in> {Task_pending, Task_running} \<and>
     (\<forall>tr \<in> set (db_trials db). \<not> pending_agent_trial task tr \<and> \<not> at_work ''audit'' task tr \<and> \<not> at_work ''qa'' task tr) \<and>
     (\<forall>v \<in> set (db_versions db). Some (tv_id v) = tk_current_version_id task \<longrightarrow>
        tv_pre_trial_status v \<notin> {Some Trial_pending, Some Trial_queued, Some Trial_running})"

lemma live_analysis_None:
  "live_analysis_trial_id (tk_id task) kind db = None \<longleftrightarrow> (\<forall>tr \<in> set (db_trials db). \<not> at_work kind task tr)"
  by (auto simp: live_analysis_trial_id_def find_None_iff at_work_def)

lemma ready_for_qa_iff:
  "ready_for_qa task db \<longleftrightarrow> tk_status task \<in> {Task_pending, Task_running} \<and>
     \<not> list_ex (pending_agent_trial task) (db_trials db) \<and> \<not> task_audit_pending task db \<and>
     live_analysis_trial_id (tk_id task) ''qa'' db = None"
  unfolding ready_for_qa_def task_audit_pending_def de_Morgan_disj not_not live_analysis_None list_ex_iff by blast

lemma visible_task_id: "visible_task i db = Some task \<Longrightarrow> tk_id task = i \<and> task \<in> set (db_tasks db) \<and> tk_deleted_at task = None"
  unfolding visible_task_def by (drule find_SomeD) blast

lemma map_filter_found:
  "set ids \<subseteq> tr_id ` set rows \<Longrightarrow> map tr_id (List.map_filter (\<lambda>i. find (\<lambda>tr. tr_id tr = i) rows) ids) = ids"
proof (induction ids)
  case (Cons i ids)
  then obtain tr where "find (\<lambda>tr. tr_id tr = i) rows = Some tr"
    by (fastforce simp: find_None_iff simp del: not_None_eq dest: not_None_eq [THEN iffD1] intro: option.exhaust)
  moreover from find_SomeD [OF this] have "tr_id tr = i" by blast
  ultimately show ?case using Cons by (simp add: List.map_filter_simps)
qed (simp add: List.map_filter_simps)

lemma qa_trial_over:
  assumes "create_qa_trial env task ids wv environment db = Inr (db', tr)"
  shows "db_trials db' = db_trials db @ [tr]" "db_tasks db' = db_tasks db" "db_versions db' = db_versions db"
    "\<exists>j. db_jobs db' = db_jobs db @ [j] \<and> trial_job_of [tr_id tr] j \<and> wj_status j = QUEUED \<and>
       wj_priority j = 1 \<and> wj_queue_key j = tr_queue_key tr"
    "at_work ''qa'' task tr" "tr_harbor_stage tr = None" "tr_task_version_id tr = tk_current_version_id task"
    "\<exists>p. tr_analysis_payload tr = JObject p \<and> field p ''trial_ids'' = json_strings ids"
    "old \<in> set (db_trials db) \<Longrightarrow> tr_task_id old = tk_id task \<Longrightarrow> tr_id old \<noteq> tr_id tr"
proof -
  let ?rows = "version_trials task db" and ?v = "current_version task db"
  let ?aa = "\<lambda>wv. \<lparr>aa_kind = ''qa'', aa_task_version_id = None,
         aa_payload = Some (qa_payload (ae_sha env) ?v
           (List.map_filter (\<lambda>i. find (\<lambda>tr. tr_id tr = i) ?rows) ids) ?rows wv),
         aa_experiment_id = None, aa_model = None, aa_environment = environment\<rparr>"
  from assms obtain b where ids: "set ids \<subseteq> tr_id ` set ?rows"
    and run: "create_analysis_trial env task (?aa b) db = Inr (db', tr)"
    by (auto simp: create_qa_trial_def Let_def split: if_splits)
  note made = created_rows [OF run]
  show "db_trials db' = db_trials db @ [tr]" "db_tasks db' = db_tasks db" "db_versions db' = db_versions db"
    "\<exists>j. db_jobs db' = db_jobs db @ [j] \<and> trial_job_of [tr_id tr] j \<and> wj_status j = QUEUED \<and>
       wj_priority j = 1 \<and> wj_queue_key j = tr_queue_key tr"
    by (fact made)+
  show "at_work ''qa'' task tr" "tr_harbor_stage tr = None" "tr_task_version_id tr = tk_current_version_id task"
    using made by (simp_all add: at_work_def live_kind_def active_trial_status_def)
  show "\<exists>p. tr_analysis_payload tr = JObject p \<and> field p ''trial_ids'' = json_strings ids"
    using made(12) map_filter_found [OF ids] by (simp add: opt_json_def qa_payload_def split_beta)
  show "old \<in> set (db_trials db) \<Longrightarrow> tr_task_id old = tk_id task \<Longrightarrow> tr_id old \<noteq> tr_id tr"
    by (rule made(13))
qed

text \<open>
  The two ways into the stage. \<open>review_begun\<close>: one QA trial over the eligible ones, and a verdict is
  awaited. \<open>review_closed\<close>: there is nothing to grade, and the task is completed with the rejection the
  rules derive, or without a verdict.
\<close>

definition review_begun :: "task_row \<Rightarrow> string list \<Rightarrow> queue_db \<Rightarrow> queue_db \<Rightarrow> bool" where
  "review_begun task ids db db' \<longleftrightarrow>
     (\<exists>tr p j. db_trials db' = db_trials db @ [tr] \<and> at_work ''qa'' task tr \<and>
        (\<forall>old \<in> set (db_trials db). tr_task_id old = tk_id task \<longrightarrow> tr_id old \<noteq> tr_id tr) \<and>
        tr_task_version_id tr = tk_current_version_id task \<and>
        tr_analysis_payload tr = JObject p \<and> field p ''trial_ids'' = json_strings ids \<and>
        db_jobs db' = db_jobs db @ [j] \<and> trial_job_of [tr_id tr] j \<and> wj_status j = QUEUED) \<and>
     db_tasks db' = update_where (\<lambda>tk. tk_id tk = tk_id task \<and> tk_deleted_at tk = None)
       (\<lambda>tk. queue_verdict (tk\<lparr>tk_status := Task_verdict_pending\<rparr>)) (db_tasks db)"

definition derived_rejection :: "json \<Rightarrow> bool" where
  "derived_rejection v \<longleftrightarrow> v = JObject (build_verdict_payload baseline_reject []) \<or>
     (\<exists>n. v = JObject (build_verdict_payload (must_fix_reject n) []))"

definition concluded :: "task_row \<Rightarrow> bool" where
  "concluded tk \<longleftrightarrow> tk_status tk = Task_completed \<and> \<not> has_active_verdict tk \<and> tk_finished_at tk \<noteq> None \<and>
     (case tk_verdict tk of None \<Rightarrow> tk_verdict_error tk = Some insufficient_evidence | Some v \<Rightarrow> derived_rejection v)"

definition review_closed :: "task_row \<Rightarrow> queue_db \<Rightarrow> queue_db \<Rightarrow> bool" where
  "review_closed task db db' \<longleftrightarrow> db' = db\<lparr>db_tasks := db_tasks db'\<rparr> \<and> length (db_tasks db') = length (db_tasks db) \<and>
     (\<forall>tk \<in> set (db_tasks db'). tk_id tk = tk_id task \<and> tk_deleted_at tk = None \<longrightarrow> concluded tk)"

lemma review_closed_update: "(\<And>tk. concluded (f tk)) \<Longrightarrow> review_closed task db (with_task (tk_id task) f db)"
  by (auto simp: review_closed_def update_where_def)

lemma rules_without_verdict:
  "apply_deterministic_verdict_rules None ids evidence \<in> {None, Some baseline_reject} \<union> (Some ` range must_fix_reject)"
  by (auto simp: apply_deterministic_verdict_rules_def)

lemma started_qa:
  assumes "start_qa_for_task env task environment db = Inr (db', created)"
  shows "let ids = qa_eligible_trial_ids (tk_id task) (tk_current_version_id task) db in
     created = (ids \<noteq> []) \<and> (if ids = [] then review_closed task db db' else review_begun task ids db db')"
proof (cases "qa_eligible_trial_ids (tk_id task) (tk_current_version_id task) db = []")
  case True
  let ?f = "\<lambda>tk. (case deterministic_verdict task db of
             Some v \<Rightarrow> complete_verdict (JObject (build_verdict_payload v [])) (ae_now env)
           | None \<Rightarrow> fail_verdict insufficient_evidence (ae_now env)) (first_finished (ae_now env) tk)"
  have "deterministic_verdict task db \<in> {None, Some baseline_reject} \<union> (Some ` range must_fix_reject)"
    unfolding deterministic_verdict_def by (rule rules_without_verdict)
  then have "concluded (?f tk)" for tk
    by (auto simp: concluded_def first_finished_def complete_verdict_def fail_verdict_def has_active_verdict_def
        ACTIVE_VERDICT_STATUSES_def derived_rejection_def split: option.splits)
  moreover from assms True have "db' = with_task (tk_id task) ?f db" "\<not> created"
    by (auto simp: start_qa_for_task_def Let_def)
  ultimately show ?thesis using True review_closed_update [of ?f] by (simp add: Let_def)
next
  case False
  with assms obtain tr where "created" and run: "create_qa_trial env task
      (qa_eligible_trial_ids (tk_id task) (tk_current_version_id task) db) True environment
      (with_task (tk_id task) (\<lambda>tk. queue_verdict (tk\<lparr>tk_status := Task_verdict_pending\<rparr>)) db) = Inr (db', tr)"
    by (auto simp: start_qa_for_task_def bind_err_Inr Let_def split: prod.splits)
  with qa_trial_over [OF run] False show ?thesis by (auto simp: review_begun_def)
qed

lemma stage_cases:
  assumes "maybe_start_task_qa_stage env task_id db = Inr (db', a)"
  obtains (waits) "db' = db" "\<not> qa_advanced a" "\<And>task. visible_task task_id db = Some task \<Longrightarrow> \<not> ready_for_qa task db"
  | (enters) task where "visible_task task_id db = Some task" "tk_id task = task_id" "ready_for_qa task db"
      "a = \<lparr>qa_advanced = True, qa_version_id = tk_current_version_id task\<rparr>"
      "let ids = qa_eligible_trial_ids task_id (tk_current_version_id task) db in
         if ids = [] then review_closed task db db' else review_begun task ids db db'"
proof (cases "\<exists>task. visible_task task_id db = Some task \<and> ready_for_qa task db")
  case True
  then obtain task where task: "visible_task task_id db = Some task" and ready: "ready_for_qa task db" by blast
  have id: "tk_id task = task_id" using visible_task_id [OF task] by blast
  from assms obtain created where run: "start_qa_for_task env task None db = Inr (db', created)"
    and a: "a = \<lparr>qa_advanced = True, qa_version_id = tk_current_version_id task\<rparr>"
    using ready id by (auto simp: maybe_start_task_qa_stage_def task ready_for_qa_iff bind_err_Inr split: prod.splits)
  show ?thesis using started_qa [OF run] id by (intro enters [OF task id ready a]) (simp add: Let_def)
next
  case False
  then have "db' = db" "\<not> qa_advanced a"
    using assms visible_task_id [of task_id db]
    by (auto simp: maybe_start_task_qa_stage_def ready_for_qa_iff not_admitted_def split: option.splits if_splits)
  with False show ?thesis by (intro waits) auto
qed

lemma review_closed_trials: "review_closed task db db' \<Longrightarrow> db_trials db' = db_trials db \<and> db_jobs db' = db_jobs db"
  unfolding review_closed_def by (metis queue_db.select_convs(1,5) queue_db.surjective queue_db.update_convs(6))

lemma stage_trials:
  "if ids = [] then review_closed task db db' else review_begun task ids db db' \<Longrightarrow>
    \<exists>new. db_trials db' = db_trials db @ new \<and> length new \<le> 1 \<and>
      (\<forall>tr \<in> set new. \<forall>old \<in> set (db_trials db). tr_task_id old = tk_id task \<longrightarrow> tr_id old \<noteq> tr_id tr)"
  using review_closed_trials by (fastforce simp: review_begun_def split: if_splits)



subsection \<open>A change of source\<close>

lemma cancel_live_trials_rows:
  assumes "db' = fst (cancel_live_trials now reason P db)"
  shows "db_tasks db' = db_tasks db" "map tr_id (db_trials db') = map tr_id (db_trials db)"
    "map tr_task_id (db_trials db') = map tr_task_id (db_trials db)"
    "\<And>tr. tr \<in> set (db_trials db') \<Longrightarrow> unfinished_status (tr_status tr) \<Longrightarrow> tr \<in> set (db_trials db) \<and> \<not> P tr"
    "\<And>tr. tr \<in> set (db_trials db) \<Longrightarrow> \<not> P tr \<Longrightarrow> tr \<in> set (db_trials db')"
    "\<And>j. j \<in> set (db_jobs db') \<Longrightarrow> wj_status j \<in> {QUEUED, RETRYING, RUNNING, BLOCKED} \<Longrightarrow>
       j \<in> set (db_jobs db) \<and> \<not> trial_job_of (map tr_id (filter P (db_trials db))) j"
proof -
  have db': "db' = db\<lparr>db_jobs := update_where (cancellable_job (map tr_id (filter P (db_trials db))))
        (stage_cancelled_job now reason) (db_jobs db),
      db_trials := update_where P (stage_cancelled_trial now reason) (db_trials db)\<rparr>"
    by (simp add: assms cancel_live_trials_def Let_def)
  show "db_tasks db' = db_tasks db" by (simp add: db')
  show "map tr_id (db_trials db') = map tr_id (db_trials db)" "map tr_task_id (db_trials db') = map tr_task_id (db_trials db)"
    by (simp_all add: db' update_where_map stage_cancelled_trial_def)
  show "tr \<in> set (db_trials db) \<and> \<not> P tr" if "tr \<in> set (db_trials db')" "unfinished_status (tr_status tr)" for tr
    using that by (auto simp: db' update_where_def stage_cancelled_trial_def unfinished_status_def split: if_splits)
  show "tr \<in> set (db_trials db')" if "tr \<in> set (db_trials db)" "\<not> P tr" for tr
    using that by (simp add: db' update_where_untouched)
  show "j \<in> set (db_jobs db) \<and> \<not> trial_job_of (map tr_id (filter P (db_trials db))) j"
    if "j \<in> set (db_jobs db')" "wj_status j \<in> {QUEUED, RETRYING, RUNNING, BLOCKED}" for j
    using that unfolding db' by (auto simp: update_where_def cancellable_job_def stage_cancelled_job_def split: if_splits)
qed

text \<open>The trials a change of source takes away: live QA trials, and live audits of overwritten bytes.\<close>

definition superseded_by_source :: "string \<Rightarrow> string option \<Rightarrow> trial_row \<Rightarrow> bool" where
  "superseded_by_source task_id overwritten tr \<longleftrightarrow>
     live_qa_trial task_id tr \<or> some_with (\<lambda>v. live_audit_trial task_id v tr) overwritten"

lemma trial_job_of_append: "trial_job_of (xs @ ys) j \<longleftrightarrow> trial_job_of xs j \<or> trial_job_of ys j"
  by (auto simp: trial_job_of_def)

lemma trial_job_of_mono: "trial_job_of xs j \<Longrightarrow> set xs \<subseteq> set ys \<Longrightarrow> trial_job_of ys j"
  by (auto simp: trial_job_of_def)

lemma cancelled_for_source:
  assumes "db1 = fst (cancel_live_qa_trials now task_id r db)"
    and "db2 = (case ov of None \<Rightarrow> db1 | Some v \<Rightarrow> fst (cancel_live_audit_trials now task_id v r' db1))"
  shows "db_tasks db2 = db_tasks db" "map tr_id (db_trials db2) = map tr_id (db_trials db)"
    "map tr_task_id (db_trials db2) = map tr_task_id (db_trials db)"
    "\<And>tr. tr \<in> set (db_trials db2) \<Longrightarrow> \<not> superseded_by_source task_id ov tr"
    "\<And>j. j \<in> set (db_jobs db2) \<Longrightarrow>
       \<not> cancellable_job (map tr_id (filter (superseded_by_source task_id ov) (db_trials db))) j"
proof -
  let ?qa = "live_qa_trial task_id" and ?audit = "\<lambda>tr. some_with (\<lambda>v. live_audit_trial task_id v tr) ov"
  note first = cancel_live_trials_rows [OF assms(1) [unfolded cancel_live_qa_trials_def]]
  have second: "db_tasks db2 = db_tasks db1" "map tr_id (db_trials db2) = map tr_id (db_trials db1)"
      "map tr_task_id (db_trials db2) = map tr_task_id (db_trials db1)"
      "\<And>tr. tr \<in> set (db_trials db2) \<Longrightarrow> unfinished_status (tr_status tr) \<Longrightarrow> tr \<in> set (db_trials db1) \<and> \<not> ?audit tr"
      "\<And>j. j \<in> set (db_jobs db2) \<Longrightarrow> wj_status j \<in> {QUEUED, RETRYING, RUNNING, BLOCKED} \<Longrightarrow>
         j \<in> set (db_jobs db1) \<and> \<not> trial_job_of (map tr_id (filter ?audit (db_trials db1))) j"
  proof -
    have none: "db2 = db1 \<and> ?audit = (\<lambda>tr. False)" if "ov = None" using assms(2) that by simp
    have some: "db2 = fst (cancel_live_trials now r' ?audit db1)" if "ov = Some v" for v
      using assms(2) that by (simp add: cancel_live_audit_trials_def)
    note rows = cancel_live_trials_rows [OF some]
    show "db_tasks db2 = db_tasks db1" "map tr_id (db_trials db2) = map tr_id (db_trials db1)"
      "map tr_task_id (db_trials db2) = map tr_task_id (db_trials db1)"
      using none rows(1-3) by (metis option.exhaust)+
    show "tr \<in> set (db_trials db1) \<and> \<not> ?audit tr" if "tr \<in> set (db_trials db2)" "unfinished_status (tr_status tr)" for tr
      using none rows(4) that by (cases ov) auto
    show "j \<in> set (db_jobs db1) \<and> \<not> trial_job_of (map tr_id (filter ?audit (db_trials db1))) j"
      if "j \<in> set (db_jobs db2)" "wj_status j \<in> {QUEUED, RETRYING, RUNNING, BLOCKED}" for j
    proof (cases ov)
      case None
      then show ?thesis using none that by (simp add: trial_job_of_def)
    next
      case (Some v)
      show ?thesis by (rule rows(6) [OF Some that])
    qed
  qed
  show "db_tasks db2 = db_tasks db" "map tr_id (db_trials db2) = map tr_id (db_trials db)"
    "map tr_task_id (db_trials db2) = map tr_task_id (db_trials db)" using first second by simp_all
  show "\<not> superseded_by_source task_id ov tr" if "tr \<in> set (db_trials db2)" for tr
  proof
    assume s: "superseded_by_source task_id ov tr"
    then have "unfinished_status (tr_status tr)"
      by (auto simp: superseded_by_source_def live_qa_trial_def live_audit_trial_def some_with_iff)
    with first(4) second(4) [OF that] s show False by (auto simp: superseded_by_source_def)
  qed
  show "\<not> cancellable_job (map tr_id (filter (superseded_by_source task_id ov) (db_trials db))) j" if "j \<in> set (db_jobs db2)" for j
  proof
    assume c: "cancellable_job (map tr_id (filter (superseded_by_source task_id ov) (db_trials db))) j"
    then have "wj_status j \<in> {QUEUED, RETRYING, RUNNING, BLOCKED}" by (simp add: cancellable_job_def)
    with first(6) second(5) [OF that] have away: "\<not> trial_job_of (map tr_id (filter ?qa (db_trials db))) j"
      "\<not> trial_job_of (map tr_id (filter ?audit (db_trials db1))) j" by blast+
    have kept: "tr \<in> set (db_trials db1)" if "tr \<in> set (db_trials db)" "?audit tr" for tr
      using first(5) [OF that(1)] that(2) by (auto simp: some_with_iff live_qa_trial_def live_audit_trial_def)
    have "set (map tr_id (filter (superseded_by_source task_id ov) (db_trials db))) \<subseteq>
        set (map tr_id (filter ?qa (db_trials db)) @ map tr_id (filter ?audit (db_trials db1)))"
      using kept by (auto simp: superseded_by_source_def)
    with c away show False
      unfolding cancellable_job_def by (metis trial_job_of_mono trial_job_of_append)
  qed
qed

lemma task_hit:
  assumes "tk \<in> set (update_where (\<lambda>tk. tk_id tk = i \<and> tk_deleted_at tk = None) f t)"
    and "tk_id tk = i" "tk_deleted_at tk = None" "\<And>s. Q (f s)"
  shows "Q tk"
  by (rule update_where_hit [OF assms(1)]) (simp_all add: assms)

lemma stage_task:
  assumes "if ids = [] then review_closed task db db' else review_begun task ids db db'"
    and "tk \<in> set (db_tasks db')" "tk_id tk = tk_id task" "tk_deleted_at tk = None"
  shows "tk_status tk \<in> {Task_running, Task_verdict_pending, Task_completed} \<and>
    (\<forall>v. tk_verdict tk = Some v \<longrightarrow> derived_rejection v)"
proof (cases "ids = []")
  case True
  then have "concluded tk" using assms by (simp add: review_closed_def)
  then show ?thesis by (auto simp: concluded_def split: option.splits)
next
  case False
  with assms(1) have t: "db_tasks db' = update_where (\<lambda>tk. tk_id tk = tk_id task \<and> tk_deleted_at tk = None)
       (\<lambda>tk. queue_verdict (tk\<lparr>tk_status := Task_verdict_pending\<rparr>)) (db_tasks db)" by (simp add: review_begun_def)
  have "tk_status tk = Task_verdict_pending \<and> tk_verdict tk = None"
    by (rule task_hit [OF assms(2) [unfolded t] assms(3,4)]) (simp add: queue_verdict_def)
  then show ?thesis by simp
qed

lemma paired_rows:
  assumes "map f xs = map f ys" "map g xs = map g ys" "y \<in> set ys"
  shows "\<exists>x \<in> set xs. f x = f y \<and> g x = g y"
  using assms
proof (induction xs arbitrary: ys)
  case (Cons x xs)
  then show ?case by (cases ys) auto
qed simp

lemma stage_jobs:
  assumes "if ids = [] then review_closed task db db' else review_begun task ids db db'" and "db_trials db' = db_trials db @ new"
    and "j \<in> set (db_jobs db')"
  shows "j \<in> set (db_jobs db) \<or> (\<exists>tr \<in> set new. trial_job_of [tr_id tr] j)"
  using assms review_closed_trials by (auto simp: review_begun_def split: if_splits)


definition regraded_db :: queue_db where
  "regraded_db = stage_db\<lparr>
     db_tasks := [versioned_task\<lparr>tk_status := Task_completed, tk_verdict := Some (JString ''accept''),
       tk_verdict_status := Some Trial_success\<rparr>],
     db_trials := [solver_trial\<lparr>tr_status := Trial_running\<rparr>,
       solver_trial\<lparr>tr_id := ''k-1'', tr_kind := ''qa'', tr_status := Trial_running\<rparr>],
     db_jobs := [job_row ''j0'' 0 (sample_request\<lparr>er_subject_id := Some ''k-1'', er_status := RUNNING\<rparr>) []]\<rparr>"


end
