(* ===== verification/Analysis_Check.thy ===== *)
theory Analysis_Check
  imports Json_Values
begin

text \<open>
  \<open>worker/analysis_result_check.py\<close>: the validator of what an analysis agent wrote, run in the
  sandbox and again before the import. It returns every violation as a text, in order. \<open>expected\<close>
  is the contract \<open>analysis_check_payload\<close> derives for the trial. A trial id that is a list or an
  object cannot be looked up in a dictionary, and Python raises; that is the left side of the
  result of \<open>check_qa\<close>.
\<close>

subsection \<open>Helpers\<close>

definition flag :: "bool \<Rightarrow> string \<Rightarrow> string list" where
  "flag b msg = (if b then [msg] else [])"

definition missing :: "json \<Rightarrow> bool" where
  "missing v \<longleftrightarrow> (case v of JString s \<Rightarrow> str_strip s = [] | _ \<Rightarrow> True)"

definition strings_of :: "json_object \<Rightarrow> string \<Rightarrow> string list" where
  "strings_of kvs k = List.map_filter as_string (or_list (field kvs k))"

definition indexed :: "string \<Rightarrow> nat \<Rightarrow> string" where
  "indexed what i = what @ ''['' @ string_of_int (int i) @ '']''"

definition is_object :: "json \<Rightarrow> bool" where
  "is_object v \<longleftrightarrow> as_object v \<noteq> None"

definition check_each :: "(json \<Rightarrow> string \<Rightarrow> string list) \<Rightarrow> string \<Rightarrow> json list \<Rightarrow> string list" where
  "check_each f what xs = concat (map (\<lambda>(i, x). f x (indexed what i)) (enumerate 0 xs))"

definition one_of :: "json_object \<Rightarrow> string \<Rightarrow> string" where
  "one_of expected k = '' must be one of '' @ py_repr (field expected k)"

text \<open>The keys an object may not have, sorted.\<close>

definition extra_keys :: "string list \<Rightarrow> json_object \<Rightarrow> string list" where
  "extra_keys allowed kvs = sort (remdups (filter (\<lambda>k. k \<notin> set allowed) (map fst kvs)))"

definition unknown_fields :: "string \<Rightarrow> string list \<Rightarrow> json_object \<Rightarrow> string list" where
  "unknown_fields w allowed kvs =
     flag (extra_keys allowed kvs \<noteq> []) (w @ '' has unknown fields: '' @ py_repr_strings (extra_keys allowed kvs))"

definition required_texts :: "string \<Rightarrow> string list \<Rightarrow> json_object \<Rightarrow> string list" where
  "required_texts w keys kvs =
     concat (map (\<lambda>k. flag (missing (field kvs k)) (w @ ''.'' @ k @ '' must be a non-empty string'')) keys)"

subsection \<open>Findings\<close>

definition dimension_ok :: "json_object \<Rightarrow> json \<Rightarrow> bool" where
  "dimension_ok expected d \<longleftrightarrow> named_in d (strings_of expected ''dimensions'') \<or>
     (case d of JString s \<Rightarrow> str_lower_strip s \<in> set (strings_of expected ''dimension_spellings'') | _ \<Rightarrow> False)"

definition item_tier :: "json_object \<Rightarrow> json" where
  "item_tier kvs = field_or (field kvs ''severity'') kvs ''tier''"

definition line_error :: "string \<Rightarrow> json_object \<Rightarrow> string \<Rightarrow> string list" where
  "line_error w kvs k =
     flag (case plain_int (field kvs k) of None \<Rightarrow> True | Some n \<Rightarrow> n < 1) (w @ ''.'' @ k @ '' must be a positive integer'')"

definition line_order_error :: "string \<Rightarrow> json_object \<Rightarrow> string list" where
  "line_order_error w kvs =
     flag (case (plain_int (field kvs ''line_start''), plain_int (field kvs ''line_end'')) of
             (Some a, Some b) \<Rightarrow> 0 < a \<and> b < a | _ \<Rightarrow> False)
       (w @ ''.line_end must be greater than or equal to line_start'')"

definition check_action_item :: "json_object \<Rightarrow> json \<Rightarrow> string \<Rightarrow> string list" where
  "check_action_item expected item w =
     (case item of
        JObject kvs \<Rightarrow>
          flag (\<not> named_in (field kvs ''source'') (strings_of expected ''sources''))
            (w @ ''.source'' @ one_of expected ''sources'') @
          flag (\<not> named_in (field kvs ''problem_type'') (strings_of expected ''problem_types''))
            (w @ ''.problem_type'' @ one_of expected ''problem_types'') @
          flag (\<not> dimension_ok expected (field kvs ''dimension''))
            (w @ ''.dimension'' @ one_of expected ''dimensions'') @
          flag (\<not> named_in (item_tier kvs) (strings_of expected ''tiers'')) (w @ ''.tier'' @ one_of expected ''tiers'') @
          required_texts w [''file''] kvs @
          line_error w kvs ''line_start'' @ line_error w kvs ''line_end'' @ line_order_error w kvs @
          required_texts w [''title'', ''detail'', ''recommendation''] kvs @
          concat (map (\<lambda>k. flag (has_field kvs k \<and> field kvs k \<noteq> JNull \<and> as_string (field kvs k) = None)
            (w @ ''.'' @ k @ '' must be a string or null'')) [''id'', ''links_to'', ''exploit_evidence'']) @
          concat (map (\<lambda>k. flag (has_field kvs k \<and> as_bool (field kvs k) = None)
            (w @ ''.'' @ k @ '' must be a boolean'')) [''exploited'', ''causal''])
      | _ \<Rightarrow> [w @ '' is not an object''])"

definition check_exploitation :: "json \<Rightarrow> string \<Rightarrow> string list" where
  "check_exploitation entry w =
     (case entry of
        JObject kvs \<Rightarrow>
          required_texts w [''links_to''] kvs @
          flag (as_bool (field kvs ''exploited'') = None) (w @ ''.exploited must be a boolean'') @
          flag (has_field kvs ''causal'' \<and> as_bool (field kvs ''causal'') = None) (w @ ''.causal must be a boolean'') @
          flag (field kvs ''exploit_evidence'' \<noteq> JNull \<and> as_string (field kvs ''exploit_evidence'') = None)
            (w @ ''.exploit_evidence must be a string or null'') @
          flag (field kvs ''exploited'' = JBool True \<and> missing (field kvs ''exploit_evidence''))
            (w @ ''.exploit_evidence is required when exploited is true'') @
          flag (field kvs ''causal'' = JBool True \<and> field kvs ''exploited'' \<noteq> JBool True)
            (w @ ''.causal cannot be true when exploited is false'')
      | _ \<Rightarrow> [w @ '' is not an object''])"

subsection \<open>Trajectory summaries\<close>

definition check_highlight :: "json \<Rightarrow> string \<Rightarrow> string list" where
  "check_highlight h w =
     (case h of
        JObject kvs \<Rightarrow> unknown_fields w [''step_id'', ''title'', ''why''] kvs @
          flag (plain_int (field kvs ''step_id'') = None) (w @ ''.step_id must be an integer'') @
          required_texts w [''title'', ''why''] kvs
      | _ \<Rightarrow> [w @ '' is not an object''])"

definition highlight_steps :: "json list \<Rightarrow> int list" where
  "highlight_steps hs = List.map_filter (\<lambda>h. Option.bind (as_object h) (\<lambda>kvs. plain_int (field kvs ''step_id''))) hs"

definition vocabulary_error :: "json_object \<Rightarrow> string \<Rightarrow> string \<Rightarrow> json_object \<Rightarrow> string \<Rightarrow> string list" where
  "vocabulary_error expected allowed w kvs k =
     flag (truthy_json (field expected allowed) \<and> \<not> named_in (field kvs k) (strings_of expected allowed))
       (w @ ''.'' @ k @ one_of expected allowed)"

definition step_ids_errors :: "string \<Rightarrow> json \<Rightarrow> string list" where
  "step_ids_errors w steps =
     (case as_list steps of
        None \<Rightarrow> [w @ ''.step_ids must be a non-empty list of integers'']
      | Some xs \<Rightarrow>
          if xs = [] \<or> list_ex (\<lambda>x. plain_int x = None) xs then [w @ ''.step_ids must be a non-empty list of integers'']
          else flag (\<not> distinct (map plain_int xs)) (w @ ''.step_ids must not contain duplicates''))"

definition check_component :: "json_object \<Rightarrow> json \<Rightarrow> string \<Rightarrow> string list" where
  "check_component expected c w =
     (case c of
        JObject kvs \<Rightarrow>
          unknown_fields w [''step_ids'', ''trajectory_component'', ''action'', ''purpose'', ''summary''] kvs @
          step_ids_errors w (field kvs ''step_ids'') @
          required_texts w [''trajectory_component'', ''action'', ''purpose'', ''summary''] kvs @
          vocabulary_error expected ''trajectory_components'' w kvs ''trajectory_component'' @
          vocabulary_error expected ''actions'' w kvs ''action'' @
          vocabulary_error expected ''purposes'' w kvs ''purpose''
      | _ \<Rightarrow> [w @ '' is not an object''])"

text \<open>\<open>has_trajectory\<close> is what the evidence says, null if nothing is known.\<close>

definition check_trajectory_summary :: "json \<Rightarrow> json_object \<Rightarrow> string \<Rightarrow> json \<Rightarrow> string list" where
  "check_trajectory_summary summary expected w has_trajectory =
     (case summary of
        JObject kvs \<Rightarrow>
          let hs = field kvs ''highlights''; cs = field kvs ''components'' in
          unknown_fields w [''summary'', ''highlights'', ''components''] kvs @
          required_texts w [''summary''] kvs @
          (case as_list hs of
             None \<Rightarrow> [w @ ''.highlights must be a list'']
           | Some xs \<Rightarrow> check_each check_highlight (w @ ''.highlights'') xs @
               flag (\<not> sorted (highlight_steps xs)) (w @ ''.highlights must be ordered by step_id'')) @
          (case as_list cs of
             None \<Rightarrow> [w @ ''.components must be a list'']
           | Some ys \<Rightarrow>
               if has_trajectory = JBool False then
                 flag (truthy_json hs) (w @ ''.highlights must be empty without a trajectory'') @
                 flag (ys \<noteq> []) (w @ ''.components must be empty without a trajectory'')
               else if ys = [] then [w @ ''.components must be a non-empty list'']
               else check_each (check_component expected) (w @ ''.components'') ys)
      | _ \<Rightarrow> [w @ '' is not an object''])"

subsection \<open>Classifications\<close>

definition SUCCESS_LABELS :: "string list" where
  "SUCCESS_LABELS = [''GOOD_SUCCESS'', ''BAD_SUCCESS'']"

definition FAILURE_LABELS :: "string list" where
  "FAILURE_LABELS = [''GOOD_FAILURE'', ''BAD_FAILURE'', ''HARNESS_ERROR'']"

definition causal_must_fix :: "json_object \<Rightarrow> json \<Rightarrow> bool" where
  "causal_must_fix expected item \<longleftrightarrow> (case item of
     JObject kvs \<Rightarrow> field kvs ''source'' = JString ''post_trial'' \<and> field kvs ''causal'' = JBool True \<and>
       json_eq (item_tier kvs) (field expected ''must_fix_tier'')
   | _ \<Rightarrow> False)"

definition check_finding :: "json_object \<Rightarrow> json \<Rightarrow> string \<Rightarrow> string list" where
  "check_finding expected item w = check_action_item expected item w @
     (case item of
        JObject kvs \<Rightarrow> flag (field kvs ''source'' = JString ''post_trial'' \<and> \<not> has_field kvs ''causal'')
          (w @ ''.causal is required for post_trial findings'')
      | _ \<Rightarrow> [])"

text \<open>The differences between a list of names and the names wanted, each sorted.\<close>

definition repeated :: "string list \<Rightarrow> string list" where
  "repeated xs = sort (remdups (filter (\<lambda>x. 1 < count_list xs x) xs))"

definition absent_from :: "string list \<Rightarrow> string list \<Rightarrow> string list" where
  "absent_from xs wanted = sort (remdups (filter (\<lambda>x. x \<notin> set xs) wanted))"

definition check_links :: "json_object \<Rightarrow> string \<Rightarrow> json list \<Rightarrow> string list" where
  "check_links expected w entries =
     (if \<not> has_field expected ''pre_trial_item_ids'' then []
      else
        let wanted = strings_of expected ''pre_trial_item_ids'';
            seen = List.map_filter (\<lambda>e. Option.bind (as_object e) (\<lambda>kvs. as_string (field kvs ''links_to''))) entries;
            duplicates = filter (\<lambda>l. l \<noteq> []) (repeated seen)
        in flag (duplicates \<noteq> []) (w @ ''.exploitation has duplicate links: '' @ py_repr_strings duplicates) @
           flag (absent_from seen wanted \<noteq> [])
             (w @ ''.exploitation is missing pre-trial items: '' @ py_repr_strings (absent_from seen wanted)) @
           flag (absent_from wanted seen \<noteq> [])
             (w @ ''.exploitation links to unknown pre-trial items: '' @ py_repr_strings (absent_from wanted seen)))"

text \<open>\<open>trial_id\<close> is null if the entry carries no text there; \<open>evidence\<close> is missing for unknown trials.\<close>

definition check_classification ::
  "json \<Rightarrow> json_object \<Rightarrow> string \<Rightarrow> json \<Rightarrow> json_object option \<Rightarrow> string list" where
  "check_classification analysis expected w trial_id evidence =
     (case analysis of
        JObject kvs \<Rightarrow>
          let label = field kvs ''classification''; reward = field kvs ''reward'';
              known = (case evidence of None \<Rightarrow> JNull | Some ev \<Rightarrow> field ev ''reward'')
          in
          flag (\<not> named_in label (strings_of expected ''classifications''))
            (w @ ''.classification'' @ one_of expected ''classifications'') @
          required_texts w [''subtype'', ''evidence'', ''root_cause'', ''recommendation''] kvs @
          flag (field kvs ''trial_name'' \<noteq> JNull \<and> \<not> json_eq (field kvs ''trial_name'') trial_id)
            (w @ ''.trial_name must match '' @ py_repr trial_id) @
          flag (reward \<noteq> JNull \<and> \<not> is_number reward) (w @ ''.reward must be a number or null'') @
          flag (evidence \<noteq> None \<and> has_field kvs ''reward'' \<and> \<not> json_eq reward known)
            (w @ ''.reward must match the authoritative reward '' @ py_repr known) @
          flag (json_eq known (JNumber ''1.0'') \<and> \<not> named_in label SUCCESS_LABELS)
            (w @ ''.classification must be a SUCCESS label for reward 1'') @
          flag (json_eq known (JNumber ''0.0'') \<and> \<not> named_in label FAILURE_LABELS)
            (w @ ''.classification must be a FAILURE or HARNESS_ERROR label for reward 0'') @
          (case as_list (field kvs ''action_items'') of
             None \<Rightarrow> [w @ ''.action_items must be a list'']
           | Some items \<Rightarrow> check_each (check_finding expected) (w @ ''.action_items'') items @
               flag (label = JString ''GOOD_FAILURE'' \<and> list_ex (causal_must_fix expected) items)
                 (w @ ''.classification cannot be GOOD_FAILURE when a causal post-trial must-fix finding changed the outcome'')) @
          (case as_list (field kvs ''exploitation'') of
             None \<Rightarrow> [w @ ''.exploitation must be a list'']
           | Some entries \<Rightarrow> check_each check_exploitation (w @ ''.exploitation'') entries @
               check_links expected w entries)
      | _ \<Rightarrow> [w @ '' is not an object''])"

subsection \<open>The artifacts\<close>

definition evidence_by_id :: "json_object \<Rightarrow> (string, json_object) dict" where
  "evidence_by_id expected =
     foldl (\<lambda>d ev. case field ev ''trial_id'' of JString i \<Rightarrow> dict_set d i ev | _ \<Rightarrow> d) []
       (List.map_filter as_object (or_list (field expected ''trial_evidence'')))"

definition hashable :: "json \<Rightarrow> bool" where
  "hashable v \<longleftrightarrow> as_list v = None \<and> as_object v = None"

definition check_entry :: "json_object \<Rightarrow> json \<Rightarrow> string \<Rightarrow> exc + string list" where
  "check_entry expected entry w =
     (case entry of
        JObject kvs \<Rightarrow>
          let trial_id = field kvs ''trial_id'';
              evidence = (case trial_id of JString i \<Rightarrow> map_of (evidence_by_id expected) i | _ \<Rightarrow> None)
          in if \<not> hashable trial_id then Inl (OtherError ''TypeError: unhashable type'')
             else Inr (flag (missing trial_id) (w @ ''.trial_id must be a non-empty string'') @
               check_classification (field kvs ''analysis'') expected (w @ ''.analysis'')
                 (case trial_id of JString i \<Rightarrow> JString i | _ \<Rightarrow> JNull) evidence @
               check_trajectory_summary (field kvs ''trajectory_summary'') expected (w @ ''.trajectory_summary'')
                 (case evidence of None \<Rightarrow> JNull | Some ev \<Rightarrow> field ev ''has_trajectory''))
      | _ \<Rightarrow> Inr [w @ '' is not an object''])"

fun check_entries :: "json_object \<Rightarrow> nat \<Rightarrow> json list \<Rightarrow> exc + string list" where
  "check_entries expected i [] = Inr []"
| "check_entries expected i (e # es) =
     bind_err (check_entry expected e (indexed ''trials'' i)) (\<lambda>errs.
     bind_err (check_entries expected (Suc i) es) (\<lambda>rest. Inr (errs @ rest)))"

text \<open>The ids of the entries that have one.\<close>

definition seen_ids :: "json list \<Rightarrow> string list" where
  "seen_ids entries = List.map_filter (\<lambda>e. Option.bind (as_object e)
     (\<lambda>kvs. if missing (field kvs ''trial_id'') then None else as_string (field kvs ''trial_id''))) entries"

definition check_requested :: "json_object \<Rightarrow> json list \<Rightarrow> string list" where
  "check_requested expected entries =
     (let wanted = strings_of expected ''trial_ids''; seen = seen_ids entries in
      if wanted = [] then []
      else flag (repeated seen \<noteq> []) (''duplicate trial entries: '' @ py_repr_strings (repeated seen)) @
        flag (absent_from seen wanted \<noteq> [])
          (''missing entries for requested trials: '' @ py_repr_strings (absent_from seen wanted)) @
        flag (absent_from wanted seen \<noteq> [])
          (''entries for unrequested trials: '' @ py_repr_strings (absent_from wanted seen)))"

definition check_verdict :: "json_object \<Rightarrow> json \<Rightarrow> string list" where
  "check_verdict expected verdict =
     (if truthy_json (field expected ''verdict_expected'') then
        (case verdict of
           JObject kvs \<Rightarrow>
             let recs = field_or (JList []) kvs ''recommendations'' in
             flag (\<not> named_in (field kvs ''verdict'') (strings_of expected ''verdicts''))
               (''verdict.verdict'' @ one_of expected ''verdicts'') @
             flag (\<not> named_in (field kvs ''confidence'') (strings_of expected ''confidences''))
               (''verdict.confidence'' @ one_of expected ''confidences'') @
             flag (field kvs ''primary_issue'' \<noteq> JNull \<and> as_string (field kvs ''primary_issue'') = None)
               ''verdict.primary_issue must be a string or null'' @
             flag (case as_list recs of None \<Rightarrow> True | Some rs \<Rightarrow> list_ex (\<lambda>r. as_string r = None) rs)
               ''verdict.recommendations must be a list of strings'' @
             flag (field kvs ''reasoning'' \<noteq> JNull \<and> as_string (field kvs ''reasoning'') = None)
               ''verdict.reasoning must be a string or null''
         | _ \<Rightarrow> [[CHR 0x22] @ ''verdict'' @ [CHR 0x22] @ '' must be an object: a verdict was requested''])
      else flag (verdict \<noteq> JNull)
        ([CHR 0x22] @ ''verdict'' @ [CHR 0x22] @ '' must be null: no verdict was requested for this task''))"

definition quoted :: "string \<Rightarrow> string" where
  "quoted s = CHR 0x22 # s @ [CHR 0x22]"

definition check_qa :: "json_object \<Rightarrow> json_object \<Rightarrow> exc + string list" where
  "check_qa data expected =
     (case as_list (field data ''trials'') of
        None \<Rightarrow> Inr [quoted ''trials'' @ '' must be a list'']
      | Some entries \<Rightarrow>
          bind_err (check_entries expected 0 entries) (\<lambda>errs.
          Inr (flag (\<not> has_field data ''verdict'') (quoted ''verdict'' @ '' key is missing'') @ errs @
            check_requested expected entries @ check_verdict expected (field data ''verdict''))))"

definition check_audit :: "json_object \<Rightarrow> json_object \<Rightarrow> string list" where
  "check_audit data expected =
     (case as_list (field data ''items'') of
        None \<Rightarrow> [quoted ''items'' @ '' must be a list'']
      | Some items \<Rightarrow> check_each (check_action_item expected) ''items'' items)"

definition check_summarize :: "json_object \<Rightarrow> json_object \<Rightarrow> string list" where
  "check_summarize data expected =
     (let target = field expected ''target_trial_id''; written = field data ''target_trial_id'' in
      (if missing written then [quoted ''target_trial_id'' @ '' must be a non-empty string'']
       else flag (truthy_json target \<and> \<not> json_eq written target)
         (quoted ''target_trial_id'' @ '' must be '' @ py_repr target)) @
      check_trajectory_summary (field data ''trajectory_summary'') expected ''trajectory_summary'' JNull)"

definition check_analysis_result :: "json \<Rightarrow> json_object \<Rightarrow> exc + string list" where
  "check_analysis_result data expected =
     (case data of
        JObject kvs \<Rightarrow>
          if field expected ''kind'' = JString ''qa'' then check_qa kvs expected
          else if field expected ''kind'' = JString ''audit'' then Inr (check_audit kvs expected)
          else if field expected ''kind'' = JString ''summarize'' then Inr (check_summarize kvs expected)
          else Inr [''unknown artifact kind '' @ py_repr (field expected ''kind'')]
      | _ \<Rightarrow> Inr [''the artifact is not a JSON object''])"

subsection \<open>What acceptance means\<close>

lemma flag_Nil [simp]: "flag b msg = [] \<longleftrightarrow> \<not> b"
  by (simp add: flag_def)

lemma sort_remdups_Nil: "sort (remdups xs) = [] \<longleftrightarrow> xs = []"
  by (metis remdups_eq_nil_iff set_empty set_sort)

lemma counted_once: "(\<forall>x \<in> set xs. count_list xs x \<le> 1) \<Longrightarrow> distinct xs"
proof (induction xs)
  case (Cons x xs)
  have "x \<notin> set xs" using Cons.prems by (simp add: count_list_0_iff [symmetric])
  moreover have "count_list xs y \<le> 1" if "y \<in> set xs" for y
    using Cons.prems that by (fastforce split: if_splits)
  ultimately show ?case using Cons.IH by simp
qed simp

lemma repeated_Nil: "repeated xs = [] \<Longrightarrow> distinct xs"
  unfolding repeated_def sort_remdups_Nil filter_empty_conv by (rule counted_once) force

lemma absent_from_Nil: "absent_from xs wanted = [] \<longleftrightarrow> set wanted \<subseteq> set xs"
  unfolding absent_from_def sort_remdups_Nil filter_empty_conv by blast

lemma check_requested_Nil:
  assumes "check_requested expected entries = []" and "strings_of expected ''trial_ids'' \<noteq> []"
  shows "distinct (seen_ids entries) \<and> set (seen_ids entries) = set (strings_of expected ''trial_ids'')"
  using assms by (auto simp: check_requested_def Let_def absent_from_Nil repeated_Nil)

text \<open>An entry the validator accepts: a named trial, with a label its recorded reward allows.\<close>

definition accepted_label :: "json_object \<Rightarrow> string \<Rightarrow> json \<Rightarrow> bool" where
  "accepted_label expected i analysis \<longleftrightarrow> (case analysis of
     JObject a \<Rightarrow> let label = field a ''classification''; ev = map_of (evidence_by_id expected) i in
       named_in label (strings_of expected ''classifications'') \<and>
       some_with (\<lambda>e. (json_eq (field e ''reward'') (JNumber ''1.0'') \<longrightarrow> named_in label SUCCESS_LABELS) \<and>
         (json_eq (field e ''reward'') (JNumber ''0.0'') \<longrightarrow> named_in label FAILURE_LABELS)) (case ev of None \<Rightarrow> Some [] | e \<Rightarrow> e)
   | _ \<Rightarrow> False)"

definition accepted_entry :: "json_object \<Rightarrow> json \<Rightarrow> bool" where
  "accepted_entry expected e \<longleftrightarrow> (case e of
     JObject kvs \<Rightarrow> (case field kvs ''trial_id'' of
         JString i \<Rightarrow> str_strip i \<noteq> [] \<and> accepted_label expected i (field kvs ''analysis'') | _ \<Rightarrow> False)
   | _ \<Rightarrow> False)"

lemma check_classification_Nil:
  assumes "check_classification analysis expected w trial_id evidence = []"
  shows "\<exists>a. analysis = JObject a \<and> named_in (field a ''classification'') (strings_of expected ''classifications'') \<and>
    some_with (\<lambda>e. (json_eq (field e ''reward'') (JNumber ''1.0'') \<longrightarrow> named_in (field a ''classification'') SUCCESS_LABELS) \<and>
      (json_eq (field e ''reward'') (JNumber ''0.0'') \<longrightarrow> named_in (field a ''classification'') FAILURE_LABELS))
      (case evidence of None \<Rightarrow> Some [] | e \<Rightarrow> e)"
  using assms by (cases analysis; cases evidence) (simp_all add: check_classification_def Let_def field_or_def)

lemma check_entry_Nil:
  assumes "check_entry expected e w = Inr []"
  shows "accepted_entry expected e"
proof -
  from assms obtain kvs where e: "e = JObject kvs" by (cases e) (simp_all add: check_entry_def)
  from assms obtain i where i: "field kvs ''trial_id'' = JString i" "str_strip i \<noteq> []"
    by (cases "field kvs ''trial_id''") (simp_all add: e check_entry_def missing_def hashable_def Let_def)
  with assms have "check_classification (field kvs ''analysis'') expected (w @ ''.analysis'') (JString i)
      (map_of (evidence_by_id expected) i) = []"
    by (simp add: e check_entry_def hashable_def Let_def)
  from check_classification_Nil [OF this] i show ?thesis
    by (auto simp: accepted_entry_def accepted_label_def e Let_def)
qed

lemma check_entries_Nil: "check_entries expected i es = Inr [] \<Longrightarrow> list_all (accepted_entry expected) es"
  by (induction es arbitrary: i) (auto simp: bind_err_Inr check_entry_Nil)

lemma seen_ids_all: "list_all (accepted_entry expected) es \<Longrightarrow> length (seen_ids es) = length es"
  by (induction es) (auto simp: seen_ids_def List.map_filter_simps accepted_entry_def missing_def split: json.splits)

text \<open>
  C15. A QA artifact the validator accepts grades exactly the requested trials: its entries are
  objects that name a trial each, no trial twice, none that was not requested and none missing.
  Every label is one of the known ones and agrees with the recorded reward, a full reward with
  success and a zero reward with failure. A verdict is there exactly when one was requested.
\<close>

theorem accepted_artifact_complete:
  assumes "check_analysis_result (JObject data) expected = Inr []"
    and "field expected ''kind'' = JString ''qa''" and "strings_of expected ''trial_ids'' \<noteq> []"
  shows "\<exists>entries. field data ''trials'' = JList entries \<and> list_all (accepted_entry expected) entries \<and>
    distinct (seen_ids entries) \<and> set (seen_ids entries) = set (strings_of expected ''trial_ids'') \<and>
    length (seen_ids entries) = length entries \<and> has_field data ''verdict'' \<and>
    (if truthy_json (field expected ''verdict_expected'')
     then (\<exists>v. field data ''verdict'' = JObject v \<and> named_in (field v ''verdict'') (strings_of expected ''verdicts''))
     else field data ''verdict'' = JNull)"
proof -
  from assms(1,2) obtain entries where entries: "as_list (field data ''trials'') = Some entries"
    and parts: "check_entries expected 0 entries = Inr []" "check_requested expected entries = []"
      "check_verdict expected (field data ''verdict'') = []" "has_field data ''verdict''"
    by (auto simp: check_analysis_result_def check_qa_def bind_err_Inr split: option.splits)
  have all: "list_all (accepted_entry expected) entries" by (rule check_entries_Nil [OF parts(1)])
  have "if truthy_json (field expected ''verdict_expected'')
     then (\<exists>v. field data ''verdict'' = JObject v \<and> named_in (field v ''verdict'') (strings_of expected ''verdicts''))
     else field data ''verdict'' = JNull"
    using parts(3) by (auto simp: check_verdict_def Let_def split: json.splits if_splits)
  moreover have "field data ''trials'' = JList entries"
    using entries by (cases "field data ''trials''") simp_all
  ultimately show ?thesis
    using check_requested_Nil [OF parts(2) assms(3)] seen_ids_all [OF all] all parts(4) by blast
qed

definition sample_expected :: json_object where
  "sample_expected =
     [(''kind'', JString ''qa''), (''trial_ids'', JList [JString ''k-0'']),
      (''trial_evidence'', JList [JObject [(''trial_id'', JString ''k-0''), (''reward'', JNumber ''1.0''),
        (''has_trajectory'', JBool False)]]),
      (''verdict_expected'', JBool True), (''classifications'', JList [JString ''GOOD_SUCCESS'']),
      (''verdicts'', JList [JString ''accept'', JString ''reject'']), (''confidences'', JList [JString ''high''])]"

definition sample_artifact :: json_object where
  "sample_artifact =
     [(''trials'', JList [JObject
        [(''trial_id'', JString ''k-0''),
         (''analysis'', JObject [(''classification'', JString ''GOOD_SUCCESS''), (''subtype'', JString ''s''),
           (''evidence'', JString ''e''), (''root_cause'', JString ''r''), (''recommendation'', JString ''n''),
           (''action_items'', JList []), (''exploitation'', JList [])]),
         (''trajectory_summary'', JObject [(''summary'', JString ''s''), (''highlights'', JList []), (''components'', JList [])])]]),
      (''verdict'', JObject [(''verdict'', JString ''accept''), (''confidence'', JString ''high'')])]"

theorem accepted_artifact_complete_witness:
  "\<exists>entries. field sample_artifact ''trials'' = JList entries \<and> set (seen_ids entries) = {''k-0''} \<and>
     list_all (accepted_entry sample_expected) entries"
proof -
  have ok: "check_analysis_result (JObject sample_artifact) sample_expected = Inr []" by code_simp
  have expected: "field sample_expected ''kind'' = JString ''qa''" "strings_of sample_expected ''trial_ids'' = [''k-0'']"
    by code_simp+
  from accepted_artifact_complete [OF ok expected(1)] show ?thesis unfolding expected(2) by fastforce
qed

text \<open>The promise to return every violation has an exception: an id that cannot be hashed.\<close>

lemma unhashable_id_raises:
  assumes "field expected ''kind'' = JString ''qa''" and "\<not> hashable x"
  shows "check_analysis_result (JObject [(''trials'', JList [JObject [(''trial_id'', x)]]), (''verdict'', JNull)]) expected =
    Inl (OtherError ''TypeError: unhashable type'')"
  using assms by (simp add: check_analysis_result_def check_qa_def check_entry_def)

end
