(* ===== verification/Qa_Import.thy ===== *)
theory Qa_Import
  imports Task_Stages Analysis_Check
begin

text \<open>
  The import of what the platform's own trials produced, from \<open>workers/analysis_trials.py\<close>: the
  contract of an artifact, the test that a QA trial may still speak for its task, the importers of
  QA, QA replay and audit results, and the dispatch when such a trial settles. An importer runs
  several transactions: \<open>others n\<close> is whatever other transactions commit before its \<open>n\<close>-th one.
  Reading an artifact from storage and Pydantic's \<open>model_validate\<close> are parameters; trajectory
  summaries, which are telemetry, are left out.
\<close>

subsection \<open>Contracts\<close>

definition item_vocabulary :: json_object where
  "item_vocabulary =
     [(''problem_types'', json_strings [''incompleteness'', ''mismatch'']),
      (''dimensions'', json_strings [''verifier'', ''oracle'', ''info_leakage'']),
      (''dimension_spellings'', json_strings [''information_leakage'', ''oracle_correctness'', ''verifier_completeness'']),
      (''tiers'', json_strings [''must_fix'', ''should_fix'', ''optional'']),
      (''must_fix_tier'', JString ''must_fix'')]"

definition trajectory_vocabulary :: json_object where
  "trajectory_vocabulary =
     [(''trajectory_components'', json_strings [''reading_files'', ''thinking_recall'', ''thinking_understand'',
        ''thinking_hypothesize'', ''writing_plan'', ''plan_correction'', ''implementing'',
        ''implementing_correction'', ''writing_tests'', ''testing_public'', ''testing_custom'',
        ''testing_edge_cases'', ''debugging'', ''writing_report'']),
      (''actions'', json_strings [''read'', ''edit'', ''run'', ''prose'']),
      (''purposes'', json_strings [''understand'', ''plan'', ''build'', ''verify'', ''diagnose''])]"

definition analysis_check_payload :: "string \<Rightarrow> json \<Rightarrow> string + json_object" where
  "analysis_check_payload kind payload =
     (if kind \<in> {''qa'', ''qa_eval''} then
        bind_err (parse_analysis_payload kind payload) (\<lambda>p.
          Inr ([(''kind'', JString ''qa''),
            (''trial_ids'', json_strings (pp_trial_ids p)),
            (''trial_evidence'', JList (map JObject (pp_trial_evidence p))),
            (''baseline_evidence'', JList (map JObject (pp_baseline_evidence p))),
            (''pre_trial_item_ids'', json_strings (pp_pre_trial_item_ids p)),
            (''pre_trial_must_fix_ids'', json_strings (pp_pre_trial_must_fix_ids p)),
            (''verdict_expected'', JBool (pp_with_verdict p)),
            (''audit_fingerprint'', opt_json JString (pp_audit_fingerprint p)),
            (''classifications'', json_strings [''HARNESS_ERROR'', ''GOOD_FAILURE'', ''BAD_FAILURE'', ''GOOD_SUCCESS'', ''BAD_SUCCESS'']),
            (''verdicts'', json_strings [''accept'', ''reject'']),
            (''confidences'', json_strings [''high'', ''medium'', ''low'']),
            (''sources'', json_strings [''post_trial''])] @ trajectory_vocabulary @ item_vocabulary))
      else if kind = ''summarize'' then
        bind_err (parse_analysis_payload kind payload) (\<lambda>p.
          Inr ([(''kind'', JString ''summarize''), (''target_trial_id'', opt_json JString (pp_target_trial_id p))] @
            trajectory_vocabulary))
      else if kind = ''audit'' then
        bind_err (parse_analysis_payload kind payload) (\<lambda>p.
          Inr ([(''kind'', JString ''audit''), (''sources'', json_strings [''pre_trial''])] @ item_vocabulary))
      else Inl (''unsupported analysis trial kind '' @ py_repr_string kind))"

subsection \<open>Whether a QA trial still speaks for its task\<close>

definition pending_solver :: "string \<Rightarrow> string option \<Rightarrow> trial_row \<Rightarrow> bool" where
  "pending_solver task_id version_id tr \<longleftrightarrow> tr_task_id tr = task_id \<and> live_kind ''agent'' tr \<and>
     active_trial_status (tr_status tr) \<and> (version_id \<noteq> None \<longrightarrow> tr_task_version_id tr = version_id)"

definition qa_import_still_current ::
  "(string \<Rightarrow> string) \<Rightarrow> string \<Rightarrow> string option \<Rightarrow> json_object option \<Rightarrow> string \<Rightarrow> queue_db \<Rightarrow> bool" where
  "qa_import_still_current sha task_id graded expected trial_id db \<longleftrightarrow>
     (case visible_task task_id db of
        None \<Rightarrow> False
      | Some task \<Rightarrow> tk_status task \<noteq> Task_failed \<and> tk_current_version_id task = graded) \<and>
     (case (graded, expected) of
        (Some v, Some e) \<Rightarrow> audit_snapshot_matches sha (find_version v db) e | _ \<Rightarrow> True) \<and>
     (case visible_trial trial_id db of
        None \<Rightarrow> False
      | Some tr \<Rightarrow> tr_superseded_by_trial_id tr = None \<and> tr_harbor_stage tr \<noteq> Some ''cancelled'') \<and>
     map_option tr_id (latest_trial (\<lambda>tr. tr_task_id tr = task_id \<and> tr_task_version_id tr = graded \<and>
       live_kind ''qa'' tr) db) = Some trial_id \<and>
     \<not> list_ex (pending_solver task_id graded) (db_trials db)"

subsection \<open>The QA importer\<close>

text \<open>
  What the importer takes from outside: the artifact as \<open>read_analysis_artifact\<close> returns it, the
  classification and the verdict Pydantic reads (a validation error has a text), and the steps of
  the QA run that mention a trial.
\<close>

record import_env =
  ie_now :: int
  ie_sha :: "string \<Rightarrow> string"
  ie_artifact :: "exc + json_object option"
  ie_classification :: "json \<Rightarrow> (classification \<times> string) option"
  ie_verdict :: "json \<Rightarrow> string + verdict_model"
  ie_graded_steps :: "(string, json) dict"

definition graded_analysis :: "import_env \<Rightarrow> string \<Rightarrow> json_object \<Rightarrow> trial_row \<Rightarrow> json" where
  "graded_analysis ie grader analysis row =
     (let base = dict_set (dict_set (dict_set analysis ''trial_name'' (JString (tr_id row)))
            ''reward'' (opt_json (\<lambda>x. JNumber (float_text x)) (tr_reward row))) ''_graded_by'' (JString grader);
          steps = dict_get (ie_graded_steps ie) (tr_id row) JNull;
          old = or_object (tr_analysis row)
      in JObject
        (if truthy_json steps then dict_set base ''_graded_at_steps'' steps
         else if field old ''_graded_by'' = JString grader \<and> truthy_json (field old ''_graded_at_steps'')
         then dict_set base ''_graded_at_steps'' (field old ''_graded_at_steps'') else base))"

definition graded_trial :: "import_env \<Rightarrow> string \<Rightarrow> json_object \<Rightarrow> trial_row \<Rightarrow> trial_row" where
  "graded_trial ie grader analysis row = row\<lparr>tr_analysis := graded_analysis ie grader analysis row,
     tr_analysis_status := Some Trial_success, tr_analysis_finished_at := Some (ie_now ie)\<rparr>"

definition entry_id :: "json_object \<Rightarrow> string" where
  "entry_id entry = (case field entry ''trial_id'' of JString i \<Rightarrow> i | _ \<Rightarrow> [])"

fun grade_entries ::
  "import_env \<Rightarrow> string \<Rightarrow> string \<Rightarrow> json_object list \<Rightarrow> queue_db \<Rightarrow> string + queue_db \<times> trial_classification list" where
  "grade_entries ie grader task_id [] db = Inr (db, [])"
| "grade_entries ie grader task_id (entry # entries) db =
     (case visible_trial (entry_id entry) db of
        None \<Rightarrow> grade_entries ie grader task_id entries db
      | Some row \<Rightarrow>
          if tr_task_id row \<noteq> task_id then grade_entries ie grader task_id entries db
          else (case ie_classification ie (field entry ''analysis'') of
              None \<Rightarrow> Inl (''analysis for '' @ entry_id entry @ '' failed to parse after passing validation'')
            | Some (label, subtype) \<Rightarrow>
                bind_err (grade_entries ie grader task_id entries
                  (with_trial (tr_id row) (graded_trial ie grader (or_object (field entry ''analysis''))) db))
                  (\<lambda>(db', cs). Inr (db',
                    \<lparr>tc_trial_name = tr_id row, tc_classification = label, tc_subtype = subtype\<rparr> # cs))))"

definition artifact_entries :: "json_object \<Rightarrow> json_object list" where
  "artifact_entries artifact = List.map_filter as_object (or_list (field artifact ''trials''))"

definition semicolons :: "string list \<Rightarrow> string" where
  "semicolons xs = spaced_join ''; '' (take 5 xs)"

definition qa_import_problem :: "trial_row \<Rightarrow> json_object option \<Rightarrow> string list \<Rightarrow> string" where
  "qa_import_problem trial artifact violations =
     ''QA trial '' @ tr_id trial @ '' '' @
     (if tr_status trial \<noteq> Trial_success
      then ''finished '' @ trial_status_value (tr_status trial) @ '': '' @ or_text (tr_error_message trial) ''no error recorded''
      else if artifact = None then ''produced no valid qa_result.json''
      else ''artifact violates the QA contract: '' @ semicolons violations)"

text \<open>The publication that ends an import: a verdict, the absence of one, or an error.\<close>

definition publish_qa ::
  "import_env \<Rightarrow> trial_row \<Rightarrow> json_object \<Rightarrow> json_object \<Rightarrow> trial_classification list \<Rightarrow> (queue_db \<Rightarrow> bool) \<Rightarrow>
   queue_db \<Rightarrow> queue_db" where
  "publish_qa ie trial expected artifact cs current db =
     (let fail = (\<lambda>err. fst (sync_verdict_to_task (ie_now ie) (tr_task_id trial) None (Some err) current db));
          judged = (if field expected ''verdict_expected'' = JBool True
            then (case ie_verdict ie (field artifact ''verdict'') of Inl e \<Rightarrow> Inl e | Inr v \<Rightarrow> Inr (Some v))
            else Inr None)
      in if cs = [] then fail (''QA trial '' @ tr_id trial @ '' artifact contained no valid classifications'')
         else (case judged of
             Inl e \<Rightarrow> fail (''QA trial '' @ tr_id trial @ '' verdict failed validation: '' @ e)
           | Inr verdict \<Rightarrow>
               (case apply_deterministic_verdict_rules verdict (strings_of expected ''pre_trial_must_fix_ids'')
                   (List.map_filter as_object (or_list (field expected ''baseline_evidence''))) of
                  None \<Rightarrow> fst (complete_task_without_verdict (ie_now ie) (tr_task_id trial) current db)
                | Some v \<Rightarrow> fst (sync_verdict_to_task (ie_now ie) (tr_task_id trial)
                    (Some (dict_set (build_verdict_payload v cs) ''_graded_by'' (JString (tr_id trial)))) None current db))))"

definition import_qa_result ::
  "import_env \<Rightarrow> (nat \<Rightarrow> queue_db \<Rightarrow> queue_db) \<Rightarrow> trial_row \<Rightarrow> queue_db \<Rightarrow> exc + queue_db" where
  "import_qa_result ie others trial db =
     (let task_id = tr_task_id trial;
          current = (\<lambda>expected. qa_import_still_current (ie_sha ie) task_id (tr_task_version_id trial) expected (tr_id trial));
          fail = (\<lambda>expected err n d. Inr (fst (sync_verdict_to_task (ie_now ie) task_id None (Some err) (current expected) (others n d))))
      in
      case analysis_check_payload ''qa'' (tr_analysis_payload trial) of
        Inl e \<Rightarrow> fail None (''QA trial '' @ tr_id trial @ '' carries an invalid analysis payload: '' @ e) 0 db
      | Inr expected \<Rightarrow>
          bind_err (if tr_status trial = Trial_success then ie_artifact ie else Inr None) (\<lambda>artifact.
          bind_err (case artifact of None \<Rightarrow> Inr [] | Some a \<Rightarrow> check_analysis_result (JObject a) expected) (\<lambda>violations.
          if artifact = None \<or> violations \<noteq> []
          then fail (Some expected) (qa_import_problem trial artifact violations) 0 db
          else
            let a = the artifact; db0 = others 0 db in
            if \<not> current (Some expected) db0 then Inr db0
            else (case grade_entries ie (tr_id trial) task_id (artifact_entries a) db0 of
                Inl drift \<Rightarrow> fail (Some expected) (''QA trial '' @ tr_id trial @ '': '' @ drift) 1 db0
              | Inr (db1, cs) \<Rightarrow>
                  Inr (publish_qa ie trial expected a cs (current (Some expected))
                    (others 2 (aggregate_exploited_into_pre_trial task_id (others 1 db1))))))))"

subsection \<open>The QA replay importer\<close>

definition qa_eval_problem :: "trial_row \<Rightarrow> string option \<Rightarrow> json_object option \<Rightarrow> string list \<Rightarrow> string option" where
  "qa_eval_problem trial payload_error artifact violations =
     (if tr_status trial \<noteq> Trial_success
      then Some (''finished '' @ trial_status_value (tr_status trial) @ '': '' @ or_text (tr_error_message trial) ''no error recorded'')
      else if payload_error \<noteq> None then payload_error
      else if artifact = None then Some ''produced no valid qa_result.json''
      else if violations \<noteq> [] then Some (''artifact violates the QA-eval contract: '' @ semicolons violations)
      else None)"

definition import_qa_eval_result ::
  "import_env \<Rightarrow> (nat \<Rightarrow> queue_db \<Rightarrow> queue_db) \<Rightarrow> trial_row \<Rightarrow> queue_db \<Rightarrow> exc + queue_db" where
  "import_qa_eval_result ie others trial db =
     (let checked = analysis_check_payload ''qa_eval'' (tr_analysis_payload trial);
          ids = (case checked of Inl e \<Rightarrow> [] | Inr expected \<Rightarrow> strings_of expected ''trial_ids'');
          now = ie_now ie
      in
      bind_err (if tr_status trial = Trial_success then ie_artifact ie else Inr None) (\<lambda>artifact.
      bind_err (case (artifact, checked) of
          (Some a, Inr expected) \<Rightarrow> check_analysis_result (JObject a) expected | _ \<Rightarrow> Inr []) (\<lambda>violations.
      let source_id = (case ids of [] \<Rightarrow> [] | i # _ \<Rightarrow> i);
          problem = qa_eval_problem trial (case checked of Inl e \<Rightarrow> Some e | Inr _ \<Rightarrow> None) artifact violations;
          entry = (case artifact of None \<Rightarrow> None | Some a \<Rightarrow> find (\<lambda>e. field e ''trial_id'' = JString source_id) (artifact_entries a));
          candidate = Option.bind entry (\<lambda>e. as_object (field e ''analysis''));
          problem1 = (if problem = None \<and> candidate = None
            then Some (''qa_result.json contains no analysis for '' @ source_id) else problem);
          db0 = others 0 db;
          source = (if problem1 = None then visible_trial source_id db0 else None);
          problem2 = (if problem1 = None \<and> (case source of None \<Rightarrow> True | Some s \<Rightarrow> tr_task_id s \<noteq> tr_task_id trial)
            then Some (''source trial '' @ source_id @ '' is no longer available'') else problem1);
          problem3 = (if problem2 = None \<and> ie_classification ie (opt_json JObject candidate) = None
            then Some (''analysis for '' @ source_id @ '' failed to parse after passing validation'') else problem2)
      in case visible_trial (tr_id trial) db0 of
           None \<Rightarrow> Inr db0
         | Some row \<Rightarrow>
             if tr_kind row \<noteq> ''qa_eval'' then Inr db0
             else Inr (with_trial (tr_id trial) (\<lambda>r. case problem3 of
                 Some detail \<Rightarrow> r\<lparr>tr_analysis_finished_at := Some now, tr_analysis_status := Some Trial_failed,
                   tr_analysis_error := Some detail\<rparr>
               | None \<Rightarrow> r\<lparr>tr_analysis_finished_at := Some now,
                   tr_analysis := JObject (dict_set (dict_set (the candidate) ''trial_name'' (JString (tr_id (the source))))
                     ''reward'' (opt_json (\<lambda>x. JNumber (float_text x)) (tr_reward (the source)))),
                   tr_analysis_status := Some Trial_success, tr_analysis_error := None\<rparr>) db0))))"

subsection \<open>The audit importer\<close>

record action_item =
  ai_id :: "string option"
  ai_source :: string
  ai_problem_type :: string
  ai_dimension :: string
  ai_file :: string
  ai_line_start :: int
  ai_line_end :: int
  ai_title :: string
  ai_detail :: string
  ai_recommendation :: string
  ai_tier :: string
  ai_links_to :: "string option"
  ai_exploited :: bool
  ai_exploit_evidence :: "string option"
  ai_causal :: bool

definition compute_action_item_id :: "(string \<Rightarrow> string) \<Rightarrow> action_item \<Rightarrow> string" where
  "compute_action_item_id sha item =
     take 12 (sha (spaced_join ''|'' [ai_source item, ai_dimension item, ai_problem_type item, ai_file item,
       string_of_int (ai_line_start item), string_of_int (ai_line_end item), str_strip (ai_title item)]))"

definition dump_item :: "action_item \<Rightarrow> json" where
  "dump_item it = JObject
     [(''id'', opt_json JString (ai_id it)), (''source'', JString (ai_source it)),
      (''problem_type'', JString (ai_problem_type it)), (''dimension'', JString (ai_dimension it)),
      (''file'', JString (ai_file it)), (''line_start'', JNumber (string_of_int (ai_line_start it))),
      (''line_end'', JNumber (string_of_int (ai_line_end it))), (''title'', JString (ai_title it)),
      (''detail'', JString (ai_detail it)), (''recommendation'', JString (ai_recommendation it)),
      (''tier'', JString (ai_tier it)), (''links_to'', opt_json JString (ai_links_to it)),
      (''exploited'', JBool (ai_exploited it)), (''exploit_evidence'', opt_json JString (ai_exploit_evidence it)),
      (''causal'', JBool (ai_causal it))]"

definition build_pre_trial_payload ::
  "(string \<Rightarrow> string) \<Rightarrow> action_item list \<Rightarrow> py_float option \<Rightarrow> string option \<Rightarrow> string option \<Rightarrow> json_object" where
  "build_pre_trial_payload sha items cost_usd block_id policy_hash =
     [(''items'', JList (map (\<lambda>it. dump_item
        (it\<lparr>ai_id := Some (or_text (ai_id it) (compute_action_item_id sha it))\<rparr>)) items))] @
     (case cost_usd of None \<Rightarrow> [] | Some c \<Rightarrow> [(''cost_usd'', JNumber (float_text c))]) @
     (case block_id of None \<Rightarrow> [] | Some b \<Rightarrow> [(''block_id'', JString b)]) @
     (case policy_hash of None \<Rightarrow> [] | Some h \<Rightarrow> [(''audit_policy_hash'', JString h)])"

fun parse_items :: "(json \<Rightarrow> string + action_item) \<Rightarrow> json list \<Rightarrow> string + action_item list" where
  "parse_items validate [] = Inr []"
| "parse_items validate (x # xs) =
     bind_err (validate x) (\<lambda>it. bind_err (parse_items validate xs) (\<lambda>its. Inr (it # its)))"

definition import_audit_result ::
  "import_env \<Rightarrow> (json \<Rightarrow> string + action_item) \<Rightarrow> (nat \<Rightarrow> queue_db \<Rightarrow> queue_db) \<Rightarrow> trial_row \<Rightarrow> queue_db \<Rightarrow> exc + queue_db" where
  "import_audit_result ie validate others trial db =
     (case tr_task_version_id trial of
        None \<Rightarrow> Inr db
      | Some version_id \<Rightarrow>
          let sync = (\<lambda>payload err pin n d. Inr (fst (sync_pre_trial_to_task_version (ie_now ie) version_id payload err pin
                (Some (tr_id trial)) (others n d))))
          in
          (case parse_analysis_payload ''audit'' (tr_analysis_payload trial) of
             Inl e \<Rightarrow> sync None (Some (''audit trial '' @ tr_id trial @ '' carries an invalid analysis payload: '' @ e)) None 0 db
           | Inr p \<Rightarrow>
               let pin = pp_task_version_content_hash p; db0 = others 0 db in
               if some_with (\<lambda>h. h \<noteq> [] \<and> some_with (\<lambda>c. c \<noteq> h)
                     (Option.bind (find_version version_id db0) tv_content_hash)) pin then Inr db0
               else
                 bind_err (if tr_status trial = Trial_success then ie_artifact ie else Inr None) (\<lambda>artifact.
                 bind_err (case artifact of
                     None \<Rightarrow> Inr []
                   | Some a \<Rightarrow> (case analysis_check_payload ''audit'' (tr_analysis_payload trial) of
                       Inl e \<Rightarrow> Inl (OtherError e) | Inr expected \<Rightarrow> check_analysis_result (JObject a) expected)) (\<lambda>violations.
                 if artifact = None \<or> violations \<noteq> [] then
                   sync None (Some (''audit trial '' @ tr_id trial @ '' '' @
                     (if tr_status trial \<noteq> Trial_success then ''finished '' @ trial_status_value (tr_status trial)
                      else if artifact = None then ''produced no valid audit_result.json''
                      else ''artifact violates the audit contract: '' @ semicolons violations))) pin 1 db0
                 else
                   (case parse_items validate (or_list (field (the artifact) ''items'')) of
                      Inl e \<Rightarrow> sync None (Some (''audit trial '' @ tr_id trial @
                        '': finding failed to parse after passing validation: '' @ e)) pin 1 db0
                    | Inr items \<Rightarrow>
                        sync (Some (build_pre_trial_payload (ie_sha ie) items (tr_cost_usd trial) (Some (tr_id trial))
                          (pp_audit_policy_hash p))) None pin 1 db0)))))"

subsection \<open>Settlement\<close>

definition settled_analysis_trial :: "string \<Rightarrow> queue_db \<Rightarrow> trial_row option" where
  "settled_analysis_trial trial_id db =
     (case visible_trial trial_id db of
        None \<Rightarrow> None
      | Some tr \<Rightarrow> if tr_superseded_by_trial_id tr \<noteq> None \<or> tr_harbor_stage tr = Some ''cancelled'' \<or>
          tr_status tr \<notin> {Trial_success, Trial_failed, Trial_skipped} then None else Some tr)"

text \<open>Summarize trials import telemetry only; other kinds have no importer.\<close>

definition handle_analysis_trial_settled ::
  "analysis_env \<Rightarrow> import_env \<Rightarrow> (json \<Rightarrow> string + action_item) \<Rightarrow> (nat \<Rightarrow> queue_db \<Rightarrow> queue_db) \<Rightarrow> string \<Rightarrow>
   queue_db \<Rightarrow> exc + queue_db" where
  "handle_analysis_trial_settled env ie validate others trial_id db =
     (case settled_analysis_trial trial_id db of
        None \<Rightarrow> Inr db
      | Some trial \<Rightarrow>
          bind_err (if tr_kind trial = ''qa'' then import_qa_result ie others trial db
              else if tr_kind trial = ''qa_eval'' then import_qa_eval_result ie others trial db
              else if tr_kind trial = ''audit'' then import_audit_result ie validate others trial db
              else Inr db)
            (\<lambda>db1. if tr_kind trial \<in> {''audit'', ''qa''}
               then bind_err (maybe_start_task_qa_stage env (tr_task_id trial) (others 3 db1)) (\<lambda>(db2, _). Inr db2)
               else Inr db1))"

end
