(* ===== verification/Qa_Publishing.thy ===== *)
theory Qa_Publishing
  imports Qa_Import
begin

text \<open>
  What the importers of \<open>Qa_Import\<close> achieve: a stale import writes nothing, whatever commits around
  it; a refused artifact grades nothing; and an accepted one, if nothing interferes, grades its
  trials and ends the review of the task. The last needs that grading and marking findings do not
  make the import stale by themselves.
\<close>

subsection \<open>What the currency test reads\<close>

definition without_analysis :: "trial_row \<Rightarrow> trial_row" where
  "without_analysis tr = tr\<lparr>tr_analysis := JNull, tr_analysis_status := None, tr_analysis_finished_at := None\<rparr>"

lemma without_analysis_simps [simp]:
  "tr_id (without_analysis tr) = tr_id tr" "tr_task_id (without_analysis tr) = tr_task_id tr"
  "tr_task_version_id (without_analysis tr) = tr_task_version_id tr" "tr_kind (without_analysis tr) = tr_kind tr"
  "tr_deleted_at (without_analysis tr) = tr_deleted_at tr" "tr_status (without_analysis tr) = tr_status tr"
  "tr_superseded_by_trial_id (without_analysis tr) = tr_superseded_by_trial_id tr"
  "tr_harbor_stage (without_analysis tr) = tr_harbor_stage tr" "tr_created_at (without_analysis tr) = tr_created_at tr"
  "live_kind k (without_analysis tr) = live_kind k tr"
  by (simp_all add: without_analysis_def live_kind_def)

lemma stripped_equal:
  "without_analysis a = without_analysis b \<Longrightarrow>
     tr_superseded_by_trial_id a = tr_superseded_by_trial_id b \<and> tr_harbor_stage a = tr_harbor_stage b"
  by (metis without_analysis_simps(7,8))

lemma find_map_image: "(\<And>x. P (f x) = P x) \<Longrightarrow> find P (map f xs) = map_option f (find P xs)"
  by (induction xs) auto

lemma filter_map_image: "(\<And>x. P (f x) = P x) \<Longrightarrow> filter P (map f xs) = map f (filter P xs)"
  by (induction xs) auto

lemma insort_map_image: "(\<And>x. k (f x) = k x) \<Longrightarrow> insort_key k (f x) (map f xs) = map f (insort_key k x xs)"
  by (induction xs) auto

lemma sort_map_image: "(\<And>x. k (f x) = k x) \<Longrightarrow> sort_key k (map f xs) = map f (sort_key k xs)"
  by (induction xs) (simp_all add: insort_map_image)

lemma visible_trial_stripped:
  "map_option without_analysis (visible_trial i db) =
   find (\<lambda>tr. tr_id tr = i \<and> tr_deleted_at tr = None) (map without_analysis (db_trials db))"
  by (simp add: visible_trial_def find_map_image)

lemma latest_trial_stripped:
  assumes "\<And>tr. P (without_analysis tr) = P tr"
  shows "map_option tr_id (latest_trial P db) =
    (case rev (sort_key (\<lambda>tr. (tr_created_at tr, tr_id tr)) (filter P (map without_analysis (db_trials db)))) of
       [] \<Rightarrow> None | tr # _ \<Rightarrow> Some (tr_id tr))"
  by (simp add: latest_trial_def assms filter_map_image sort_map_image rev_map split: list.split)

lemma current_cong:
  assumes "map without_analysis (db_trials d) = map without_analysis (db_trials db)" and "db_tasks d = db_tasks db"
    and "\<And>v e. audit_snapshot_matches sha (find_version v d) e = audit_snapshot_matches sha (find_version v db) e"
  shows "qa_import_still_current sha task_id graded e i d = qa_import_still_current sha task_id graded e i db"
proof -
  have "map_option without_analysis (visible_trial i d) = map_option without_analysis (visible_trial i db)"
    unfolding visible_trial_stripped assms(1) ..
  then have stage: "(case visible_trial i d of None \<Rightarrow> False
      | Some tr \<Rightarrow> tr_superseded_by_trial_id tr = None \<and> tr_harbor_stage tr \<noteq> Some ''cancelled'') =
    (case visible_trial i db of None \<Rightarrow> False
      | Some tr \<Rightarrow> tr_superseded_by_trial_id tr = None \<and> tr_harbor_stage tr \<noteq> Some ''cancelled'')"
    by (cases "visible_trial i d"; cases "visible_trial i db")
      (auto dest!: stripped_equal)
  have latest: "map_option tr_id (latest_trial (\<lambda>tr. tr_task_id tr = task_id \<and> tr_task_version_id tr = graded \<and> live_kind ''qa'' tr) d) =
      map_option tr_id (latest_trial (\<lambda>tr. tr_task_id tr = task_id \<and> tr_task_version_id tr = graded \<and> live_kind ''qa'' tr) db)"
    by (subst (1 2) latest_trial_stripped) (simp_all add: assms(1))
  have "list_ex (pending_solver task_id graded) (db_trials x) =
      list_ex (pending_solver task_id graded) (map without_analysis (db_trials x))" for x
    by (simp add: list_ex_iff pending_solver_def)
  then have pending: "list_ex (pending_solver task_id graded) (db_trials d) = list_ex (pending_solver task_id graded) (db_trials db)"
    using assms(1) by metis
  show ?thesis
    unfolding qa_import_still_current_def stage latest pending visible_task_def assms(2,3) ..
qed

subsection \<open>Marking findings keeps an audit snapshot\<close>

lemma annotated_object:
  "as_object (fst (annotated_item x item)) = None \<longleftrightarrow> as_object item = None"
  "as_object item = Some kvs \<Longrightarrow> as_object (fst (annotated_item x item)) = Some kvs' \<Longrightarrow>
     field kvs' ''id'' = field kvs ''id'' \<and> must_fix_item kvs' = must_fix_item kvs"
  by (cases item; auto simp: annotated_item_def must_fix_item_def Let_def split: json.splits if_splits)+

definition finding :: "json_object \<Rightarrow> json \<times> bool" where
  "finding item = (JString (py_str (field item ''id'')), must_fix_item item)"

lemma findings_annotated:
  "map finding (identified_items (JList (map fst (map (annotated_item x) items)))) = map finding (identified_items (JList items))"
proof (induction items)
  case (Cons item items)
  show ?case
  proof (cases "as_object item")
    case None
    then have "as_object (fst (annotated_item x item)) = None" using annotated_object(1) by blast
    with None Cons show ?thesis by (simp add: identified_items_def List.map_filter_simps)
  next
    case (Some kvs)
    then obtain kvs' where kvs': "as_object (fst (annotated_item x item)) = Some kvs'"
      using annotated_object(1) [of x item] by auto
    with annotated_object(2) [OF Some kvs'] Some Cons show ?thesis
      by (simp add: identified_items_def List.map_filter_simps finding_def)
  qed
qed (simp add: identified_items_def List.map_filter_simps)

lemma snapshot_findings:
  "JString ` (\<lambda>item. py_str (field item ''id'')) ` set its = fst ` set (map finding its)"
  "JString ` (\<lambda>item. py_str (field item ''id'')) ` set (filter must_fix_item its) = fst ` {f \<in> set (map finding its). snd f}"
  by (force simp: finding_def)+

lemma snapshot_annotated:
  "audit_snapshot_matches sha (Some (annotated_version x v)) e = audit_snapshot_matches sha (Some v) e"
proof -
  have status: "tv_pre_trial_status (annotated_version x v) = tv_pre_trial_status v"
    by (simp add: annotated_version_def Let_def split: option.split)
  let ?items = "\<lambda>v. identified_items (field_or (JList []) (case tv_pre_trial v of None \<Rightarrow> [] | Some a \<Rightarrow> a) ''items'')"
  have items: "map finding (?items (annotated_version x v)) = map finding (?items v)"
  proof (cases "tv_pre_trial v")
    case (Some audit)
    have "identified_items (JList (or_list j)) = identified_items j" for j
      by (simp add: identified_items_def)
    then show ?thesis using findings_annotated [of x "or_list (field_or (JList []) audit ''items'')"] Some
      by (simp add: annotated_version_def Let_def)
  qed (simp add: annotated_version_def)
  show ?thesis
    unfolding audit_snapshot_matches_def some_with_simps status option.case audit_fingerprint_def annotated_version_text
      Let_def snapshot_findings(2)
    unfolding snapshot_findings(1) items ..
qed

lemma snapshot_aggregated:
  "audit_snapshot_matches sha (find_version v (aggregate_exploited_into_pre_trial task_id db)) e =
   audit_snapshot_matches sha (find_version v db) e"
proof -
  have id: "tv_id (annotated_version x w) = tv_id w" for x w
    by (simp add: annotated_version_def Let_def split: option.split)
  have "find (\<lambda>w. tv_id w = v) (update_where P (annotated_version x) t) =
      map_option (\<lambda>w. if P w then annotated_version x w else w) (find (\<lambda>w. tv_id w = v) t)" for P x t
    by (induction t) (auto simp: id)
  then show ?thesis
    by (cases "find_version v db")
      (simp_all add: find_version_def aggregate_exploited_into_pre_trial_def Let_def snapshot_annotated)
qed

subsection \<open>Grading keeps an import current\<close>

lemma graded_trial_stripped: "without_analysis (graded_trial ie g a row) = without_analysis row"
  by (simp add: without_analysis_def graded_trial_def)

lemma grade_entries_frame:
  "grade_entries ie g task_id es db = Inr (db', cs) \<Longrightarrow>
     map without_analysis (db_trials db') = map without_analysis (db_trials db) \<and>
     db_tasks db' = db_tasks db \<and> db_versions db' = db_versions db \<and> db_jobs db' = db_jobs db"
proof (induction es arbitrary: db db' cs)
  case (Cons entry es)
  have same: "map without_analysis (update_where P (graded_trial ie g a) t) = map without_analysis t" for P a t
    by (induction t) (simp_all add: graded_trial_stripped)
  from Cons show ?case
    by (fastforce simp: bind_err_Inr same split: option.splits if_splits prod.splits)
qed simp

lemma current_after_grading:
  assumes "grade_entries ie g task_id es db = Inr (db', cs)"
  shows "qa_import_still_current sha t graded e i (aggregate_exploited_into_pre_trial task_id db') =
    qa_import_still_current sha t graded e i db"
proof (rule current_cong)
  note frame = grade_entries_frame [OF assms]
  show "map without_analysis (db_trials (aggregate_exploited_into_pre_trial task_id db')) = map without_analysis (db_trials db)"
    "db_tasks (aggregate_exploited_into_pre_trial task_id db') = db_tasks db"
    using frame by (simp_all add: aggregate_exploited_into_pre_trial_def Let_def)
  show "audit_snapshot_matches sha (find_version v (aggregate_exploited_into_pre_trial task_id db')) e =
      audit_snapshot_matches sha (find_version v db) e" for v e
    unfolding snapshot_aggregated using frame by (simp add: find_version_def)
qed

subsection \<open>An import is fenced\<close>

text \<open>A write that ends the review of a task.\<close>

definition ends_review :: "(task_row \<Rightarrow> task_row) \<Rightarrow> bool" where
  "ends_review f \<longleftrightarrow> (\<forall>tk. tk_status (f tk) = Task_completed \<and> \<not> has_active_verdict (f tk) \<and> verdict_ok (f tk))"

lemma ends_review_ops:
  "ends_review (\<lambda>tk. finished_task now (complete_verdict p now tk))"
  "ends_review (\<lambda>tk. finished_task now (fail_verdict err now tk))"
  "ends_review (\<lambda>tk. finished_task now (complete_verdict_without_result now tk))"
  by (simp_all add: ends_review_def finished_task_def verdict_ops has_active_verdict_def ACTIVE_VERDICT_STATUSES_def
      verdict_ok_def)

definition fenced :: "(queue_db \<Rightarrow> bool) \<Rightarrow> string \<Rightarrow> queue_db \<Rightarrow> queue_db \<Rightarrow> bool" where
  "fenced cur task_id s s' \<longleftrightarrow> s' = s \<or> (cur s \<and> (\<exists>f. ends_review f \<and> s' = with_task task_id f s))"

lemma sync_fenced: "fenced cur t s (fst (sync_verdict_to_task now t p err cur s))"
  using ends_review_ops by (fastforce simp: fenced_def sync_verdict_to_task_def split: option.splits list.splits)

lemma complete_fenced: "fenced cur t s (fst (complete_task_without_verdict now t cur s))"
  using ends_review_ops(3) by (fastforce simp: fenced_def complete_task_without_verdict_def split: option.splits)

lemma publish_fenced: "fenced cur (tr_task_id trial) s (publish_qa ie trial expected a cs cur s)"
  by (simp add: publish_qa_def Let_def sync_fenced complete_fenced split: sum.split option.split)

text \<open>The states in which an import may make its last write.\<close>

definition publishing_state ::
  "import_env \<Rightarrow> (nat \<Rightarrow> queue_db \<Rightarrow> queue_db) \<Rightarrow> trial_row \<Rightarrow> json_object \<Rightarrow> queue_db \<Rightarrow> queue_db \<Rightarrow> bool" where
  "publishing_state ie others trial expected db s \<longleftrightarrow>
     qa_import_still_current (ie_sha ie) (tr_task_id trial) (tr_task_version_id trial) (Some expected) (tr_id trial) (others 0 db) \<and>
     (\<exists>es. case grade_entries ie (tr_id trial) (tr_task_id trial) es (others 0 db) of
        Inl _ \<Rightarrow> s = others 1 (others 0 db)
      | Inr (d, _) \<Rightarrow> s = others 2 (aggregate_exploited_into_pre_trial (tr_task_id trial) (others 1 d)))"

lemma import_qa_cases:
  assumes "import_qa_result ie others trial db = Inr db'"
  obtains (refused) e err where "db' = fst (sync_verdict_to_task (ie_now ie) (tr_task_id trial) None (Some err)
        (qa_import_still_current (ie_sha ie) (tr_task_id trial) (tr_task_version_id trial) e (tr_id trial)) (others 0 db))"
    | (stale) e where "db' = others 0 db"
        "\<not> qa_import_still_current (ie_sha ie) (tr_task_id trial) (tr_task_version_id trial) (Some e) (tr_id trial) (others 0 db)"
    | (drift) e es err msg where
        "qa_import_still_current (ie_sha ie) (tr_task_id trial) (tr_task_version_id trial) (Some e) (tr_id trial) (others 0 db)"
        "grade_entries ie (tr_id trial) (tr_task_id trial) es (others 0 db) = Inl err"
        "db' = fst (sync_verdict_to_task (ie_now ie) (tr_task_id trial) None (Some msg)
          (qa_import_still_current (ie_sha ie) (tr_task_id trial) (tr_task_version_id trial) (Some e) (tr_id trial))
          (others 1 (others 0 db)))"
    | (publish) e es a d cs where
        "qa_import_still_current (ie_sha ie) (tr_task_id trial) (tr_task_version_id trial) (Some e) (tr_id trial) (others 0 db)"
        "grade_entries ie (tr_id trial) (tr_task_id trial) es (others 0 db) = Inr (d, cs)"
        "db' = publish_qa ie trial e a cs
          (qa_import_still_current (ie_sha ie) (tr_task_id trial) (tr_task_version_id trial) (Some e) (tr_id trial))
          (others 2 (aggregate_exploited_into_pre_trial (tr_task_id trial) (others 1 d)))"
proof (cases "analysis_check_payload ''qa'' (tr_analysis_payload trial)")
  case (Inl e)
  with assms show ?thesis
    by (intro refused [where e = None
          and err = "''QA trial '' @ tr_id trial @ '' carries an invalid analysis payload: '' @ e"])
      (simp add: import_qa_result_def Let_def)
next
  case (Inr expected)
  let ?cur = "qa_import_still_current (ie_sha ie) (tr_task_id trial) (tr_task_version_id trial) (Some expected) (tr_id trial)"
  from assms obtain artifact violations where
      run: "(if artifact = None \<or> violations \<noteq> []
        then Inr (fst (sync_verdict_to_task (ie_now ie) (tr_task_id trial) None
          (Some (qa_import_problem trial artifact violations)) ?cur (others 0 db)))
        else if \<not> ?cur (others 0 db) then Inr (others 0 db)
        else case grade_entries ie (tr_id trial) (tr_task_id trial) (artifact_entries (the artifact)) (others 0 db) of
            Inl drift \<Rightarrow> Inr (fst (sync_verdict_to_task (ie_now ie) (tr_task_id trial) None
              (Some (''QA trial '' @ tr_id trial @ '': '' @ drift)) ?cur (others 1 (others 0 db))))
          | Inr (db1, cs) \<Rightarrow> Inr (publish_qa ie trial expected (the artifact) cs ?cur
              (others 2 (aggregate_exploited_into_pre_trial (tr_task_id trial) (others 1 db1)))))
        = (Inr db' :: exc + queue_db)"
    unfolding import_qa_result_def Let_def Inr by (simp only: bind_err_Inr sum.case) blast
  show ?thesis
  proof (cases "artifact = None \<or> violations \<noteq> []")
    case True
    with run show ?thesis
      by (intro refused [where e = "Some expected" and err = "qa_import_problem trial artifact violations"]) simp
  next
    case ok: False
    show ?thesis
    proof (cases "?cur (others 0 db)")
      case True
      show ?thesis
      proof (cases "grade_entries ie (tr_id trial) (tr_task_id trial) (artifact_entries (the artifact)) (others 0 db)")
        case (Inl e)
        with run ok True show ?thesis
          by (intro drift [OF True Inl, where msg = "''QA trial '' @ tr_id trial @ '': '' @ e"]) simp
      next
        case (Inr b)
        then obtain d cs where graded: "grade_entries ie (tr_id trial) (tr_task_id trial) (artifact_entries (the artifact)) (others 0 db) = Inr (d, cs)"
          by (cases b) simp
        with run ok True show ?thesis by (intro publish [OF True graded, where a = "the artifact"]) simp
      qed
    next
      case False
      with run ok show ?thesis by (intro stale [OF _ False]) simp
    qed
  qed
qed


subsection \<open>An accepted artifact is published\<close>

definition graded_by :: "string \<Rightarrow> trial_row \<Rightarrow> bool" where
  "graded_by g row \<longleftrightarrow> tr_analysis_status row = Some Trial_success \<and>
     field (or_object (tr_analysis row)) ''_graded_by'' = JString g"

lemma graded_trial_simps [simp]:
  "tr_id (graded_trial ie g a row) = tr_id row" "tr_deleted_at (graded_trial ie g a row) = tr_deleted_at row"
  "tr_task_id (graded_trial ie g a row) = tr_task_id row" "graded_by g (graded_trial ie g a row)"
  by (simp_all add: graded_trial_def graded_by_def graded_analysis_def Let_def)

lemma visible_trial_update:
  assumes "\<And>r. tr_id (f r) = tr_id r \<and> tr_deleted_at (f r) = tr_deleted_at r"
  shows "visible_trial i (with_trial j f db) = (if i = j then map_option f (visible_trial i db) else visible_trial i db)"
proof -
  have "find (\<lambda>tr. tr_id tr = i \<and> tr_deleted_at tr = None) (update_where (\<lambda>tr. tr_id tr = j \<and> tr_deleted_at tr = None) f t) =
      (if i = j then map_option f (find (\<lambda>tr. tr_id tr = i \<and> tr_deleted_at tr = None) t)
       else find (\<lambda>tr. tr_id tr = i \<and> tr_deleted_at tr = None) t)" for t
    using assms by (induction t) auto
  then show ?thesis by (simp add: visible_trial_def)
qed

lemma grade_entries_ConsE:
  assumes "grade_entries ie g task_id (entry # es) db = Inr (db', cs)"
  obtains (skip) "\<And>row. visible_trial (entry_id entry) db = Some row \<Longrightarrow> tr_task_id row \<noteq> task_id"
      "grade_entries ie g task_id es db = Inr (db', cs)"
    | (grade) row a c cs' where "visible_trial (entry_id entry) db = Some row" "tr_task_id row = task_id"
      "tr_id row = entry_id entry"
      "grade_entries ie g task_id es (with_trial (entry_id entry) (graded_trial ie g a) db) = Inr (db', cs')" "cs = c # cs'"
proof (cases "visible_trial (entry_id entry) db")
  case None
  with assms show ?thesis by (intro skip) simp_all
next
  case (Some row)
  have id: "tr_id row = entry_id entry" using Some unfolding visible_trial_def by (blast dest: find_SomeD)
  show ?thesis
  proof (cases "tr_task_id row = task_id")
    case True
    with assms Some obtain label cs' where
      "grade_entries ie g task_id es (with_trial (tr_id row) (graded_trial ie g (or_object (field entry ''analysis''))) db) = Inr (db', cs')"
      "cs = \<lparr>tc_trial_name = tr_id row, tc_classification = fst label, tc_subtype = snd label\<rparr> # cs'"
      by (auto simp: bind_err_Inr split: option.splits)
    with Some True id show ?thesis by (intro grade) simp_all
  next
    case False
    with assms Some show ?thesis by (intro skip) simp_all
  qed
qed

lemma grade_entries_keeps:
  assumes "grade_entries ie g task_id es db = Inr (db', cs)"
    and "visible_trial i db = Some r" "graded_by g r"
  shows "\<exists>r'. visible_trial i db' = Some r' \<and> graded_by g r'"
  using assms
proof (induction es arbitrary: db cs r)
  case (Cons entry es)
  from Cons.prems(1) show ?case
  proof (cases rule: grade_entries_ConsE)
    case skip
    from Cons.IH [OF skip(2) Cons.prems(2,3)] show ?thesis .
  next
    case (grade row a c cs')
    have "visible_trial i (with_trial (entry_id entry) (graded_trial ie g a) db) =
        Some (if i = entry_id entry then graded_trial ie g a r else r)"
      using Cons.prems(2) by (cases "i = entry_id entry") (auto simp: visible_trial_update)
    from Cons.IH [OF grade(4) this] Cons.prems(3) show ?thesis by simp
  qed
qed simp

lemma grade_entries_tasks:
  assumes "grade_entries ie g task_id es db = Inr (db', cs)"
  shows "map_option tr_task_id (visible_trial i db') = map_option tr_task_id (visible_trial i db)"
proof -
  have "map_option without_analysis (visible_trial i db') = map_option without_analysis (visible_trial i db)"
    unfolding visible_trial_stripped using grade_entries_frame [OF assms] by simp
  then have "map_option tr_task_id (map_option without_analysis (visible_trial i db')) =
      map_option tr_task_id (map_option without_analysis (visible_trial i db))" by simp
  then show ?thesis by (simp add: option.map_comp o_def)
qed

lemma grade_entries_there:
  assumes "grade_entries ie g task_id es db = Inr (db', cs)"
  shows "(\<exists>r. visible_trial i db' = Some r \<and> tr_task_id r = t) \<longleftrightarrow> (\<exists>r. visible_trial i db = Some r \<and> tr_task_id r = t)"
  using grade_entries_tasks [OF assms, of i] by (cases "visible_trial i db'"; cases "visible_trial i db") auto

lemma grade_entries_all:
  assumes "grade_entries ie g task_id es db = Inr (db', cs)" and "e \<in> set es"
    and "visible_trial (entry_id e) db' = Some r" "tr_task_id r = task_id"
  shows "graded_by g r \<and> cs \<noteq> []"
  using assms
proof (induction es arbitrary: db cs)
  case (Cons entry es)
  from Cons.prems(1) show ?case
  proof (cases rule: grade_entries_ConsE)
    case skip
    with grade_entries_there [OF skip(2)] Cons.prems(3,4) have "e \<noteq> entry" by blast
    with Cons.IH [OF skip(2)] Cons.prems show ?thesis by auto
  next
    case (grade row a c cs')
    show ?thesis
    proof (cases "e = entry")
      case True
      with grade(1) have "visible_trial (entry_id e) (with_trial (entry_id entry) (graded_trial ie g a) db) =
          Some (graded_trial ie g a row)" by (simp add: visible_trial_update)
      from grade_entries_keeps [OF grade(4) this graded_trial_simps(4)] Cons.prems(3) grade(5) show ?thesis by auto
    next
      case False
      with Cons.IH [OF grade(4)] Cons.prems grade(5) show ?thesis by auto
    qed
  qed
qed simp

lemma grade_entries_parses:
  assumes "\<forall>e \<in> set es. ie_classification ie (field e ''analysis'') \<noteq> None"
  shows "\<exists>db' cs. grade_entries ie g task_id es db = Inr (db', cs)"
  using assms
proof (induction es arbitrary: db)
  case (Cons e es)
  then have rest: "\<exists>db' cs. grade_entries ie g task_id es d = Inr (db', cs)" for d by simp
  from Cons.prems obtain label subtype where label: "ie_classification ie (field e ''analysis'') = Some (label, subtype)" by auto
  show ?case
  proof (cases "visible_trial (entry_id e) db")
    case (Some row)
    obtain db' cs where "grade_entries ie g task_id es
        (with_trial (tr_id row) (graded_trial ie g (or_object (field e ''analysis''))) db) = Inr (db', cs)"
      using rest by blast
    with Some label rest [of db] show ?thesis by simp
  qed (simp add: rest)
qed simp

text \<open>The contract of a QA trial always names trials, and says whether a verdict is due.\<close>

lemma strings_of_map: "or_list (field kvs k) = map JString xs \<Longrightarrow> strings_of kvs k = xs"
  using map_filter_map_Some [of xs as_string JString id] by (simp add: strings_of_def)

lemma qa_contract:
  assumes "analysis_check_payload ''qa'' p = Inr expected"
  shows "field expected ''kind'' = JString ''qa''" "strings_of expected ''trial_ids'' \<noteq> []"
    "field expected ''verdict_expected'' \<in> range JBool"
proof -
  from assms obtain q where q: "parse_analysis_payload ''qa'' p = Inr q"
    and e: "field expected ''kind'' = JString ''qa''" "field expected ''trial_ids'' = json_strings (pp_trial_ids q)"
      "field expected ''verdict_expected'' = JBool (pp_with_verdict q)"
    by (auto simp: analysis_check_payload_def bind_err_Inr)
  have "pp_trial_ids q \<noteq> []"
    using q by (auto simp: parse_analysis_payload_def parse_qa_payload_def Let_def bind_err_Inr ensure_def
        split: json.splits if_splits)
  then show "strings_of expected ''trial_ids'' \<noteq> []"
    using e(2) strings_of_map [of expected "''trial_ids''" "pp_trial_ids q"] by (simp add: json_strings_def)
  show "field expected ''kind'' = JString ''qa''" "field expected ''verdict_expected'' \<in> range JBool"
    using e by simp_all
qed

text \<open>Every requested trial has an entry in an accepted artifact.\<close>

lemma seen_entry_ids:
  "list_all (accepted_entry expected) es \<Longrightarrow> set (seen_ids es) = entry_id ` set (List.map_filter as_object es)"
  by (induction es)
    (auto simp: seen_ids_def List.map_filter_simps accepted_entry_def missing_def entry_id_def split: json.splits)

lemma accepted_entries:
  assumes "check_analysis_result (JObject artifact) expected = Inr []"
    and "field expected ''kind'' = JString ''qa''" "strings_of expected ''trial_ids'' \<noteq> []"
  shows "entry_id ` set (artifact_entries artifact) = set (strings_of expected ''trial_ids'')"
proof -
  from assms(1,2) obtain entries where entries: "as_list (field artifact ''trials'') = Some entries"
    and parts: "check_entries expected 0 entries = Inr []" "check_requested expected entries = []"
    by (auto simp: check_analysis_result_def check_qa_def bind_err_Inr split: option.splits)
  have "or_list (field artifact ''trials'') = entries" using entries by (simp add: or_list_def)
  then show ?thesis
    using seen_entry_ids [OF check_entries_Nil [OF parts(1)]] check_requested_Nil [OF parts(2) assms(3)]
    by (simp add: artifact_entries_def)
qed

definition judged_verdict :: "import_env \<Rightarrow> json_object \<Rightarrow> json_object \<Rightarrow> verdict_model option" where
  "judged_verdict ie expected artifact = apply_deterministic_verdict_rules
     (if field expected ''verdict_expected'' = JBool True
      then (case ie_verdict ie (field artifact ''verdict'') of Inl _ \<Rightarrow> None | Inr v \<Rightarrow> Some v) else None)
     (strings_of expected ''pre_trial_must_fix_ids'')
     (List.map_filter as_object (or_list (field expected ''baseline_evidence'')))"

lemma publish_current:
  assumes "cs \<noteq> []" "cur s" "visible_task (tr_task_id trial) s \<noteq> None"
    and "field expected ''verdict_expected'' = JBool True \<Longrightarrow> \<exists>v. ie_verdict ie (field artifact ''verdict'') = Inr v"
  shows "\<exists>f. publish_qa ie trial expected artifact cs cur s = with_task (tr_task_id trial) f s \<and> ends_review f \<and>
    (\<forall>tk. tk_verdict (f tk) = map_option (\<lambda>v. JObject (dict_set (build_verdict_payload v cs) ''_graded_by''
       (JString (tr_id trial)))) (judged_verdict ie expected artifact))"
proof -
  let ?judged = "if field expected ''verdict_expected'' = JBool True
      then (case ie_verdict ie (field artifact ''verdict'') of Inl _ \<Rightarrow> None | Inr v \<Rightarrow> Some v) else None"
  from assms(3) obtain task where task: "visible_task (tr_task_id trial) s = Some task" by auto
  have judged: "(if field expected ''verdict_expected'' = JBool True
      then (case ie_verdict ie (field artifact ''verdict'') of Inl e \<Rightarrow> Inl e | Inr v \<Rightarrow> Inr (Some v)) else Inr None) = Inr ?judged"
    using assms(4) by auto
  show ?thesis
  proof (cases "judged_verdict ie expected artifact")
    case None
    then have "publish_qa ie trial expected artifact cs cur s =
        with_task (tr_task_id trial) (\<lambda>tk. finished_task (ie_now ie) (complete_verdict_without_result (ie_now ie) tk)) s"
      using assms(1,2) task unfolding publish_qa_def judged judged_verdict_def Let_def
      by (simp add: complete_task_without_verdict_def)
    with None show ?thesis
      by (intro exI [of _ "\<lambda>tk. finished_task (ie_now ie) (complete_verdict_without_result (ie_now ie) tk)"])
        (simp add: ends_review_ops, simp add: finished_task_def complete_verdict_without_result_def)
  next
    case (Some v)
    obtain q qs where q: "dict_set (build_verdict_payload v cs) ''_graded_by'' (JString (tr_id trial)) = q # qs"
      by (simp add: build_verdict_payload_def dict_set_def)
    with Some have "publish_qa ie trial expected artifact cs cur s =
        with_task (tr_task_id trial) (\<lambda>tk. finished_task (ie_now ie) (complete_verdict (JObject (q # qs)) (ie_now ie) tk)) s"
      using assms(1,2) task unfolding publish_qa_def judged judged_verdict_def Let_def
      by (simp add: sync_verdict_to_task_def)
    with Some q show ?thesis
      by (intro exI [of _ "\<lambda>tk. finished_task (ie_now ie) (complete_verdict (JObject (q # qs)) (ie_now ie) tk)"])
        (simp add: ends_review_ops, simp add: finished_task_def complete_verdict_def)
  qed
qed


text \<open>A QA trial that graded the one solver trial of its task, and what its importer is given.\<close>

definition bare_solver :: trial_row where
  "bare_solver = solver_trial\<lparr>tr_has_trajectory := False\<rparr>"

definition audited_version :: task_version_row where
  "audited_version = sample_version\<lparr>tv_pre_trial := Some sample_findings, tv_pre_trial_status := Some Trial_success\<rparr>"

definition finished_qa_trial :: trial_row where
  "finished_qa_trial = solver_trial\<lparr>tr_id := ''k-1'', tr_kind := ''qa'', tr_created_at := 1,
     tr_analysis_payload := JObject [(''trial_ids'', JList [JString ''k-0'']),
       (''trial_evidence'', JList [JObject (qa_trial_evidence bare_solver)]),
       (''audit_fingerprint'', JString (replicate 64 CHR ''a''))]\<rparr>"

definition import_db :: queue_db where
  "import_db = stage_db\<lparr>db_tasks := [versioned_task\<lparr>tk_status := Task_verdict_pending\<rparr>],
     db_versions := [audited_version], db_trials := [bare_solver, finished_qa_trial]\<rparr>"

definition sample_import :: import_env where
  "sample_import = \<lparr>ie_now = 9, ie_sha = (\<lambda>_. replicate 64 CHR ''a''), ie_artifact = Inr (Some sample_artifact),
     ie_classification = (\<lambda>_. Some (GOOD_SUCCESS, ''s'')), ie_verdict = (\<lambda>_. Inr sample_accept), ie_graded_steps = []\<rparr>"

definition sample_contract :: json_object where
  "sample_contract = (case analysis_check_payload ''qa'' (tr_analysis_payload finished_qa_trial) of Inl _ \<Rightarrow> [] | Inr e \<Rightarrow> e)"

lemma sample_contract: "analysis_check_payload ''qa'' (tr_analysis_payload finished_qa_trial) = Inr sample_contract"
proof -
  have "case analysis_check_payload ''qa'' (tr_analysis_payload finished_qa_trial) of Inl _ \<Rightarrow> False | Inr e \<Rightarrow> True" by code_simp
  then show ?thesis by (auto simp: sample_contract_def split: sum.splits)
qed

lemma sample_current:
  "qa_import_still_current (\<lambda>_. replicate 64 CHR ''a'') ''k'' (Some ''v1'') (Some sample_contract) ''k-1'' import_db"
proof -
  have pinned: "field sample_contract ''audit_fingerprint'' = JString (replicate 64 CHR ''a'')" by code_simp
  have version: "find_version ''v1'' import_db = Some audited_version" by code_simp
  have "audit_snapshot_matches (\<lambda>_. replicate 64 CHR ''a'') (Some audited_version) sample_contract"
    by (simp add: audit_snapshot_matches_def pinned audit_fingerprint_def audited_version_def)
  moreover have "qa_import_still_current (\<lambda>_. replicate 64 CHR ''a'') ''k'' (Some ''v1'') None ''k-1'' import_db"
    by code_simp
  ultimately show ?thesis by (simp add: qa_import_still_current_def version)
qed

lemma sample_accepted: "check_analysis_result (JObject sample_artifact) sample_contract = Inr []"
  by code_simp

lemma sample_trial_facts:
  "tr_task_id finished_qa_trial = ''k''" "tr_task_version_id finished_qa_trial = Some ''v1''" "tr_id finished_qa_trial = ''k-1''"
  "tr_status finished_qa_trial = Trial_success"
  by (simp_all add: finished_qa_trial_def solver_trial_def gate_trial_def)

lemma sample_import_facts:
  "ie_sha sample_import = (\<lambda>_. replicate 64 CHR ''a'')" "ie_artifact sample_import = Inr (Some sample_artifact)"
  "ie_classification sample_import a \<noteq> None" "\<exists>v. ie_verdict sample_import j = Inr v"
  by (simp_all add: sample_import_def)


definition task_gone :: "nat \<Rightarrow> queue_db \<Rightarrow> queue_db" where
  "task_gone n d = d\<lparr>db_tasks := [versioned_task\<lparr>tk_status := Task_failed\<rparr>]\<rparr>"


end
