(* ===== verification/Spec2Isabelle.thy ===== *)
theory Spec2Isabelle
  imports Ledger_Lifecycle Reaper Worker_Shell Model_Concurrency Idempotency Qa_Publishing
begin

text \<open>
  A verification library of the job system of Oddish (\<open>src/oddish/src/oddish\<close>), the platform that
  runs trials of coding agents on tasks. Work is a row of the table \<open>worker_jobs\<close>. A dispatcher
  plans which queues get workers and launches them; a worker leases a slot of its queue, claims one
  job after another, runs the handler of the job's kind and records the outcome; a sweep repairs
  what crashed workers left. This is the part of the program whose mistakes lose or double work or
  leak paid sandboxes, and the part modelled here.

  \<^bold>\<open>How the parts interact.\<close> The parts share one database and call each other little. The model
  has its tables as lists of records (\<open>queue_db\<close>), and every transaction of the program is one
  function from database to database. Concurrency is the order of transactions: the step relations
  \<open>job_step\<close>, \<open>ledger_step\<close> and \<open>slot_step\<close> let every transaction run at any moment, with any
  instant as the database's \<open>NOW()\<close>, so an invariant of the reachable databases holds under every
  interleaving. What a transaction reads of the outside is an argument.

  \<^bold>\<open>The theories\<close>, bottom up.

  \<^item> \<open>Oddish_Prelude\<close>: dictionaries in insertion order, results with exceptions (\<open>exc + 'a\<close>), text
    and JSON primitives of Python, and the automation the other theories share.
  \<^item> \<open>Db_Tables\<close>: \<open>db/models.py\<close>. Rows as records, statements (\<open>update_where\<close>, inserts), and the
    locales \<open>lease_rows\<close> and \<open>owned_rows\<close>, the contract of a table of leases.
  \<^item> \<open>Spawn_Plan\<close>: the planner \<open>build_spawn_plan\<close> of \<open>workers/queue/worker_job_dispatcher.py\<close>, a
    round robin over organizations with a three to one rotation of priority classes.
  \<^item> \<open>Dispatch_Cycle\<close>: \<open>dispatch/cycle.py\<close>, \<open>dispatch/ports.py\<close> and the in-process and Docker
    dispatchers. The locale \<open>worker_spawner\<close> is what a tick expects of a dispatcher; both are
    interpretations.
  \<^item> \<open>Queue_Slots\<close>, \<open>Sandbox_Capacity\<close>: \<open>workers/queue/slots.py\<close> and \<open>sandbox_capacity.py\<close>. Both
    interpret the lease locales.
  \<^item> \<open>Job_Table\<close>: the readers and stamps of the dispatcher and \<open>workers/jobs/enqueue.py\<close>.
  \<^item> \<open>Retry_Delay\<close>, \<open>Worker_Jobs\<close>, \<open>Sandbox_Lifecycle\<close>: \<open>workers/jobs/registry.py\<close>,
    \<open>workers/queue/worker_job_single_job.py\<close> and \<open>runtime/sandbox_lifecycle.py\<close>: claim, heartbeat,
    outcome, handoff to another provider, drain, and the ledger of sandboxes.
  \<^item> \<open>Ec2_Orphans\<close>, \<open>Verdict_State\<close>, \<open>Queue_Cleanup\<close>: \<open>runtime/ec2_orphans.py\<close>,
    \<open>core/verdict_state.py\<close> and the parts of \<open>workers/queue/cleanup.py\<close> over jobs and sandboxes.
  \<^item> \<open>Baseline_Gate\<close>: \<open>core/baseline_gate.py\<close> and its use in \<open>queue.py\<close>.
  \<^item> \<open>Json_Text\<close>, \<open>Idempotency\<close>: \<open>core/idempotency.py\<close>, the store \<open>src/backend/idempotency_store.py\<close>
    and the hash of a request (\<open>registry_auth.py\<close>).
  \<^item> \<open>Queue_Keys\<close>, \<open>Model_Concurrency\<close>: the names of queues in \<open>config.py\<close> and the limits of
    \<open>core/model_concurrency.py\<close>.
  \<^item> \<open>Py_Float\<close>, \<open>Json_Values\<close>: Python's floats with their \<open>repr\<close>, and JSON values as Python reads,
    compares and writes them. They model the standard library, not files of the repository.
  \<^item> \<open>Trial_Models\<close>: the routes of a trial's model to provider and queue, in \<open>config.py\<close>.
  \<^item> \<open>Analysis_Payload\<close>, \<open>Verdict_Sync\<close>: \<open>core/analysis_payload.py\<close> and \<open>core/verdict_sync.py\<close>, the
    stored contract of an analysis trial and the publication of verdicts and audits.
  \<^item> \<open>Qa_Trials\<close>, \<open>Task_Stages\<close>: the creation of QA and audit trials (\<open>workers/analysis_trials.py\<close>) and
    the stage transitions of \<open>queue.py\<close>.
  \<^item> \<open>Analysis_Check\<close>, \<open>Qa_Import\<close>, \<open>Qa_Publishing\<close>: the validator \<open>worker/analysis_result_check.py\<close>,
    the importers of \<open>workers/analysis_trials.py\<close>, and what an import achieves.
  \<^item> \<open>Job_Lifecycle\<close>, \<open>Ledger_Lifecycle\<close>, \<open>Reaper\<close>: the step relations that compose all of the
    above, their invariants, and what the sweep achieves.
  \<^item> \<open>Worker_Shell\<close>: \<open>run_assigned_queue_worker\<close> of \<open>workers/queue/queue_manager.py\<close> and
    \<open>_safe_run\<close> of the in-process dispatcher, which hold lease and slot around the drain.

  \<^bold>\<open>What the lemmas show.\<close> The planner respects the limits of queues, lanes and the whole pool,
  stops early only when nothing is left to launch, and serves organizations within one worker of
  each other; a tick of the loop inherits that whatever the dispatcher does. Leases of slots never
  exceed the limit, have one owner and are adopted once. A claim takes the best claimable job; a
  row follows the abstract machine of jobs, terminal rows are final, attempts are bounded and
  outcomes are written only by the owner; a handoff is atomic; a drain returns; the sweep ends
  every stale job. A sandbox run keeps its identity, gets its handle once, and a late handle is
  still found by the orphan search. The baseline gate releases or cancels a scope as a whole.
  A request is stored once and its retries are answered from the store. A task enters its QA stage
  once its work is done, with one QA trial; a change of source revokes what graded the old one; an
  artifact is accepted only if it grades what was asked; its import writes only while its trial
  speaks for the task, and then ends the review.

  \<^bold>\<open>Conventions and assumptions.\<close>

  \<^item> Strings are lists of characters up to code point 255, and timestamps are seconds as integers.
    Delays and rewards are exact rationals, with the two infinities and NaN as further values of a
    stored reward.
  \<^item> The payload of a job is a dictionary of the values that the code reads; payloads of analysis
    trials, artifacts, verdicts and findings are JSON values (\<open>json\<close>), with null and a missing key
    read alike where the code uses \<open>get\<close>. Columns annotated as dictionaries hold objects.
  \<^item> \<open>FOR UPDATE SKIP LOCKED\<close> is an arbitrary predicate \<open>skip\<close> on rows; a blocking lock orders
    transactions. \<open>updated_at\<close> is set by the ORM on every change of a row (\<open>touched\<close>).
  \<^item> The session's filter on soft-deleted rows reaches the statements whose top-level entity is a
    registered model, and so not the sub-selects of statements over \<open>worker_jobs\<close>.
  \<^item> In the importers, \<open>others n\<close> is whatever other transactions commit before the \<open>n\<close>-th one of
    the importer, and Pydantic's validation and the reading of artifacts are parameters. So are
    SHA-256 (\<open>ae_sha\<close>, \<open>ie_sha\<close>), the splitting of model names by Harbor, LiteLLM's table, and the
    ids of \<open>generate_id\<close>.
  \<^item> Handlers of jobs, provider backends, the payload hooks, the Docker command and random numbers
    are parameters. \<open>drain_loop\<close> is a \<open>partial_function\<close>, as \<open>while\<close> loops may run for ever; its
    termination assumes that every job takes at least some fixed time.

  \<^bold>\<open>Not modelled.\<close> Log lines, metrics and cost spans; the Modal and Kubernetes dispatchers and the
  provider backends, which are glue around remote services; the Harbor runners, which drive an
  external package; the HTTP layer, command line, migrations and read models for the dashboard;
  the briefs of analysis trials, which are prompts; trajectory summaries and their importer, which
  are telemetry; quotas, prices and the adaptive limits of \<open>concurrency_controller.py\<close>; and the
  healers of the sweep in \<open>cleanup.py\<close>, which run the modelled transitions again for tasks that a
  crash left behind.
\<close>

end
